(* ===== verification/Prelude.thy ===== *)
theory Prelude
  imports Complex_Main "HOL-Library.Word" "HOL-Library.Sublist"
begin

text \<open>
  Shared vocabulary of the development: the collections of simplification facts, the
  functions of Go's standard library the agent relies on (packages \<open>strings\<close>,
  \<open>strconv\<close>, \<open>encoding/binary\<close>, \<open>sort\<close>), and generic lemmas on lists, maps and
  words.  A Go \<open>string\<close> is a byte string, here a \<^typ>\<open>string\<close>; a \<open>[]byte\<close> read
  from the kernel is a list of \<^typ>\<open>8 word\<close>.  Case folding and white space are
  those of ASCII: Go's functions also fold and trim non-ASCII code points.
  A Go \<open>int\<close> is an \<^typ>\<open>int\<close>; an instant (\<open>time.Time\<close>) and a
  \<open>time.Duration\<close> are nanosecond counts of type \<^typ>\<open>int\<close>.
\<close>

named_theorems gostr  \<comment> \<open>definitions of the string library, for evaluating literals\<close>
named_theorems frame  \<comment> \<open>fields an operation leaves alone\<close>

type_synonym duration = int
type_synonym gotime = int
type_synonym byte = "8 word"

section \<open>Strings\<close>

definition hasPrefix :: "string \<Rightarrow> string \<Rightarrow> bool" where
  [gostr]: "hasPrefix s p = prefix p s"

definition hasSuffix :: "string \<Rightarrow> string \<Rightarrow> bool" where
  [gostr]: "hasSuffix s p = suffix p s"

definition strContains :: "string \<Rightarrow> string \<Rightarrow> bool" where
  [gostr]: "strContains s sub = sublist sub s"

definition lowerC :: "char \<Rightarrow> char" where
  [gostr]: "lowerC c = (if 65 \<le> (of_char c :: nat) \<and> (of_char c :: nat) \<le> 90
                 then char_of ((of_char c :: nat) + 32) else c)"

definition toLower :: "string \<Rightarrow> string" where
  [gostr]: "toLower s = map lowerC s"

definition equalFold :: "string \<Rightarrow> string \<Rightarrow> bool" where
  [gostr]: "equalFold s t = (toLower s = toLower t)"

definition isSpace :: "char \<Rightarrow> bool" where
  [gostr]: "isSpace c = ((of_char c :: nat) = 32 \<or> (9 \<le> (of_char c :: nat) \<and> (of_char c :: nat) \<le> 13))"

definition trimSpace :: "string \<Rightarrow> string" where
  [gostr]: "trimSpace s = rev (dropWhile isSpace (rev (dropWhile isSpace s)))"

definition trimRightC :: "char \<Rightarrow> string \<Rightarrow> string" where
  [gostr]: "trimRightC c s = rev (dropWhile (\<lambda>x. x = c) (rev s))"

definition replaceC :: "char \<Rightarrow> char \<Rightarrow> string \<Rightarrow> string" where
  [gostr]: "replaceC a b s = map (\<lambda>x. if x = a then b else x) s"

text \<open>\<open>strings.Split\<close> with a one-byte separator: always at least one part.\<close>

fun splitC :: "char \<Rightarrow> string \<Rightarrow> string list" where
  "splitC c [] = [[]]"
| "splitC c (x # xs) =
     (if x = c then [] # splitC c xs
      else (case splitC c xs of [] \<Rightarrow> [[x]] | p # ps \<Rightarrow> (x # p) # ps))"

text \<open>\<open>strings.Join\<close>.\<close>

fun joinS :: "string \<Rightarrow> string list \<Rightarrow> string" where
  "joinS sep [] = []"
| "joinS sep [x] = x"
| "joinS sep (x # y # zs) = x @ sep @ joinS sep (y # zs)"

text \<open>\<open>strings.Fields\<close>: the maximal runs of non-space bytes.\<close>

fun fieldsAux :: "string \<Rightarrow> string \<Rightarrow> string list" where
  "fieldsAux acc [] = (if acc = [] then [] else [rev acc])"
| "fieldsAux acc (x # xs) =
     (if isSpace x then (if acc = [] then fieldsAux [] xs else rev acc # fieldsAux [] xs)
      else fieldsAux (x # acc) xs)"

definition fieldsS :: "string \<Rightarrow> string list" where
  "fieldsS s = fieldsAux [] s"

text \<open>\<open>strings.LastIndex\<close> of one byte; \<^term>\<open>None\<close> stands for \<open>-1\<close>.\<close>

fun lastIndexC :: "char \<Rightarrow> string \<Rightarrow> nat option" where
  "lastIndexC c [] = None"
| "lastIndexC c (x # xs) =
     (case lastIndexC c xs of
        Some i \<Rightarrow> Some (Suc i)
      | None \<Rightarrow> if x = c then Some 0 else None)"

definition oneOf :: "string \<Rightarrow> string list \<Rightarrow> bool" where
  "oneOf v allowed = (v \<in> set allowed)"

lemma oneOf_simps [simp]:
  "oneOf v [] = False"
  "oneOf v (a # as) = (v = a \<or> oneOf v as)"
  by (simp_all add: oneOf_def)

lemma splitC_not_Nil [simp]: "splitC c s \<noteq> []"
  by (induction s) (auto split: list.splits)

lemma joinS_splitC: "joinS [c] (splitC c s) = s"
proof (induction s)
  case Nil
  then show ?case by simp
next
  case (Cons x xs)
  obtain p ps where ps: "splitC c xs = p # ps"
    by (cases "splitC c xs") auto
  then show ?case
    using Cons by (cases ps) auto
qed

lemma equalFold_refl [simp]: "equalFold s s"
  by (simp add: equalFold_def)

lemma hasPrefix_append [simp]: "hasPrefix (p @ s) p"
  by (simp add: hasPrefix_def)

declare char_of_def [gostr] bit_Suc_0_iff [gostr]

section \<open>Numbers as text\<close>

definition digitC :: "nat \<Rightarrow> char" where
  "digitC d = char_of (48 + d)"

definition isDigitC :: "char \<Rightarrow> bool" where
  "isDigitC c = (48 \<le> (of_char c :: nat) \<and> (of_char c :: nat) \<le> 57)"

definition digitVal :: "char \<Rightarrow> nat" where
  "digitVal c = (of_char c :: nat) - 48"

fun natStr :: "nat \<Rightarrow> string" where
  "natStr n = (if n < 10 then [digitC n] else natStr (n div 10) @ [digitC (n mod 10)])"

declare natStr.simps [simp del]

text \<open>\<open>strconv.Itoa\<close>.\<close>

definition itoa :: "int \<Rightarrow> string" where
  "itoa i = (if i < 0 then CHR ''-'' # natStr (nat (- i)) else natStr (nat i))"

definition digitsVal :: "string \<Rightarrow> nat" where
  "digitsVal ds = foldl (\<lambda>v c. 10 * v + digitVal c) 0 ds"

text \<open>\<open>strconv.Atoi\<close>: an optional sign, at least one decimal digit, in the range of int64.\<close>

definition parseNat :: "string \<Rightarrow> nat option" where
  "parseNat ds = (if ds \<noteq> [] \<and> list_all isDigitC ds then Some (digitsVal ds) else None)"

definition atoi :: "string \<Rightarrow> int option" where
  "atoi s =
     (case s of
        [] \<Rightarrow> None
      | c # ds \<Rightarrow>
          (let v = (if c = CHR ''-'' then map_option (\<lambda>n. - int n) (parseNat ds)
                    else if c = CHR ''+'' then map_option int (parseNat ds)
                    else map_option int (parseNat s))
           in (case v of
                 None \<Rightarrow> None
               | Some i \<Rightarrow> if - (2 ^ 63) \<le> i \<and> i < 2 ^ 63 then Some i else None)))"

lemma of_char_digitC: "d < 10 \<Longrightarrow> (of_char (digitC d) :: nat) = 48 + d"
  by (simp add: digitC_def)

lemma isDigitC_digitC: "d < 10 \<Longrightarrow> isDigitC (digitC d)"
  by (simp add: isDigitC_def of_char_digitC)

lemma digitVal_digitC: "d < 10 \<Longrightarrow> digitVal (digitC d) = d"
  by (simp add: digitVal_def of_char_digitC)

lemma digitsVal_snoc: "digitsVal (ds @ [c]) = 10 * digitsVal ds + digitVal c"
  by (simp add: digitsVal_def)

lemma natStr_digits: "list_all isDigitC (natStr n) \<and> natStr n \<noteq> [] \<and> digitsVal (natStr n) = n"
proof (induction n rule: natStr.induct)
  case (1 n)
  show ?case
  proof (cases "n < 10")
    case True
    then show ?thesis
      by (subst (1 2 3) natStr.simps) (simp add: isDigitC_digitC digitsVal_def digitVal_digitC)
  next
    case False
    then have "list_all isDigitC (natStr (n div 10)) \<and> digitsVal (natStr (n div 10)) = n div 10"
      using 1 by simp
    with False show ?thesis
      by (subst (1 2 3) natStr.simps) (simp add: isDigitC_digitC digitsVal_snoc digitVal_digitC)
  qed
qed

lemma parseNat_natStr [simp]: "parseNat (natStr n) = Some n"
  by (simp add: parseNat_def natStr_digits)

lemma natStr_inj [simp]: "natStr m = natStr n \<longleftrightarrow> m = n"
  by (metis option.inject parseNat_natStr)

lemma natStr_not_Nil [simp]: "natStr n \<noteq> []"
  by (simp add: natStr_digits)

lemma natStr_hd_digit: "isDigitC (hd (natStr n))"
  using natStr_digits [of n] by (cases "natStr n") auto

lemma natStr_no: "\<not> isDigitC c \<Longrightarrow> c \<notin> set (natStr n)"
  using natStr_digits [of n] by (auto simp: list_all_iff)

lemma atoi_itoa: "- (2 ^ 63) \<le> i \<Longrightarrow> i < 2 ^ 63 \<Longrightarrow> atoi (itoa i) = Some i"
proof -
  assume r: "- (2 ^ 63) \<le> i" "i < 2 ^ 63"
  show ?thesis
  proof (cases "i < 0")
    case True
    with r show ?thesis by (simp add: itoa_def atoi_def)
  next
    case False
    obtain c ds where cd: "natStr (nat i) = c # ds"
      by (cases "natStr (nat i)") auto
    then have "isDigitC c" using natStr_hd_digit [of "nat i"] by simp
    then have "c \<noteq> CHR ''-''" "c \<noteq> CHR ''+''"
      by (auto simp: isDigitC_def)
    moreover have "parseNat (c # ds) = Some (nat i)"
      using cd parseNat_natStr [of "nat i"] by simp
    ultimately show ?thesis using r False cd by (simp add: itoa_def atoi_def)
  qed
qed

section \<open>Little-endian words\<close>

text \<open>\<open>binary.LittleEndian.Uint16/32/64\<close> on the first bytes of a slice.\<close>

definition leWord :: "nat \<Rightarrow> byte list \<Rightarrow> 'a::len word" where
  "leWord n bs = word_of_int (horner_sum uint (2 ^ 8) (take n bs))"

definition leBytes :: "nat \<Rightarrow> 'a::len word \<Rightarrow> byte list" where
  "leBytes n w = map (\<lambda>i. word_of_int (uint w div (2 ^ 8) ^ i)) [0..<n]"

definition byteStr :: "byte list \<Rightarrow> string" where
  "byteStr bs = map (\<lambda>b. char_of (unat b)) bs"

definition strBytes :: "string \<Rightarrow> byte list" where
  "strBytes s = map (\<lambda>c. word_of_nat (of_char c)) s"

section \<open>Lists\<close>

lemma find_filter: "find P xs = (case filter P xs of [] \<Rightarrow> None | x # _ \<Rightarrow> Some x)"
  by (induction xs) (auto split: list.splits)

lemma filter_insort_key_same:
  assumes "sorted (map f xs)" and "\<And>y. P y \<Longrightarrow> f y = k"
  shows "filter P (insort_key f x xs) = (if P x then x # filter P xs else filter P xs)"
  using assms
proof (induction xs)
  case Nil
  then show ?case by simp
next
  case (Cons a xs)
  show ?case
  proof (cases "f x \<le> f a")
    case True
    then show ?thesis by simp
  next
    case False
    with Cons.prems have "\<not> (P x \<and> P a)" by auto
    with False Cons show ?thesis by auto
  qed
qed

lemma filter_sort_key_same:
  assumes "\<And>y. P y \<Longrightarrow> f y = k"
  shows "filter P (sort_key f xs) = filter P xs"
  by (induction xs) (auto simp: filter_insort_key_same [OF sorted_sort_key assms])

lemma lastIndexC_Some:
  assumes "lastIndexC c s = Some i"
  shows "i < length s \<and> s = take i s @ c # drop (Suc i) s \<and> c \<notin> set (drop (Suc i) s)"
  using assms
proof (induction s arbitrary: i)
  case (Cons x xs)
  have none: "lastIndexC c xs = None \<Longrightarrow> c \<notin> set xs" for xs
    by (induction xs) (auto split: option.splits if_splits)
  from Cons show ?case by (auto split: option.splits if_splits simp: none)
qed simp

lemma atoi_natStr: "n < 2 ^ 63 \<Longrightarrow> atoi (natStr n) = Some (int n)"
  using atoi_itoa [of "int n"] by (simp add: itoa_def)

lemma sorted_list_of_interval:
  assumes "distinct xs" "set xs = int ` {1..m}"
  shows "sort xs = map int [1..<Suc m]"
proof (rule sorted_distinct_set_unique)
  show "sorted (map int [1..<Suc m])" by (simp add: sorted_iff_nth_mono del: upt_Suc)
  show "set (sort xs) = set (map int [1..<Suc m])" using assms(2) by (auto simp: image_def)
qed (use assms(1) in \<open>auto simp: distinct_map\<close>)

lemma distinct_map_filter:
  assumes "distinct xs" "\<And>x y v. x \<in> set xs \<Longrightarrow> y \<in> set xs \<Longrightarrow> f x = Some v \<Longrightarrow> f y = Some v \<Longrightarrow> x = y"
  shows "distinct (List.map_filter f xs)"
  using assms
proof (induction xs)
  case (Cons a xs)
  show ?case
  proof (cases "f a")
    case None
    with Cons show ?thesis by (simp add: List.map_filter_def)
  next
    case (Some v)
    have "v \<notin> set (List.map_filter f xs)"
      using Cons.prems Some by (auto simp: List.map_filter_def) metis
    with Cons Some show ?thesis by (simp add: List.map_filter_def)
  qed
qed (simp add: List.map_filter_def)

lemma set_map_filter: "set (List.map_filter f xs) = {v. \<exists>x \<in> set xs. f x = Some v}"
  by (force simp: List.map_filter_def)

lemma length_filter_mono:
  "(\<And>x. x \<in> set xs \<Longrightarrow> P x \<Longrightarrow> Q x) \<Longrightarrow> length (filter P xs) \<le> length (filter Q xs)"
proof (induction xs)
  case (Cons x xs)
  then have "length (filter P xs) \<le> length (filter Q xs)" by simp
  with Cons.prems [of x] show ?case by auto
qed simp

lemma distinct_map_filterI: "distinct (map f xs) \<Longrightarrow> distinct (map f (filter P xs))"
  by (induction xs) auto

end
