(* ===== verification/Policy.thy ===== *)
theory Policy
  imports Prelude
begin

text \<open>
  The policy engine, \<open>src/internal/policy/policy.go\<close>: the rule language
  (\<open>Match\<close>, \<open>Rule\<close>, \<open>ProcessAccess\<close>), validation, the matcher, the
  priority-ordered multi-hit evaluation and the split of the hits into audit rules and
  one response rule.  The JSON decoder of \<open>encoding/json\<close> is a parameter of
  \<open>loadPolicy\<close>; of an instant the engine reads only the local hour and minute.
\<close>

section \<open>Data\<close>

record Match =
  m_ProcessName :: string
  m_ProcessPath :: string
  m_CmdlineContains :: string
  m_User :: string
  m_FilePath :: string
  m_FilePathPrefix :: string
  m_FileOp :: string
  m_RemoteAddr :: string
  m_LocalPort :: int
  m_Protocol :: string
  m_EnvContains :: string
  m_MapsContains :: string
  m_PtraceSelfCheck :: "bool option"
  m_ParentProcessName :: string
  m_ProcessUID :: string
  m_FileContent :: string
  m_FilePathSuffix :: string
  m_ConnectionFreqMin :: int
  m_BeaconIntervalMin :: int
  m_BeaconIntervalMax :: int
  m_ContainerID :: string

record TimeWindow =
  tw_Start :: string
  tw_End :: string

record Subject =
  s_ProcessName :: string
  s_ProcessPath :: string
  s_Cmdline :: string
  s_User :: string
  s_Environ :: string
  s_MapsLibs :: string
  s_PtraceSelfCheck :: bool
  s_ParentName :: string
  s_EUID :: string
  s_ContainerID :: string

record Object =
  o_FilePath :: string
  o_FileOp :: string
  o_RemoteAddr :: string
  o_LocalPort :: int
  o_Protocol :: string
  o_FileContent :: string
  o_ConnectionCount :: int

record Rule =
  r_ID :: string
  r_Description :: string
  r_Enabled :: "bool option"
  r_Category :: string
  r_Severity :: string
  r_Decision :: string
  r_Action :: string
  r_Match :: Match
  r_TimeWindow :: "TimeWindow option"
  r_Whitelist :: "Match list"
  r_Priority :: int
  r_Effect :: "string list"

record ProcessAccess =
  pa_Mode :: string
  pa_Whitelist :: "Match list"
  pa_Blacklist :: "Match list"
  pa_Action :: string
  pa_Severity :: string

record SelfProtection =
  sp_Enabled :: bool
  sp_AuditSeverity :: string
  sp_EnforceMode :: string
  sp_ShutdownEnabled :: bool

record Policy =
  p_SchemaVersion :: string
  p_ProcessAccess :: ProcessAccess
  p_SelfProtection :: SelfProtection
  p_Rules :: "Rule list"

text \<open>The local hour and minute of a \<open>time.Time\<close>.\<close>

record WallTime =
  Hour :: int
  Minute :: int

text \<open>Go's zero values.\<close>

definition zeroMatch :: Match where
  "zeroMatch = \<lparr>m_ProcessName = [], m_ProcessPath = [], m_CmdlineContains = [], m_User = [],
     m_FilePath = [], m_FilePathPrefix = [], m_FileOp = [], m_RemoteAddr = [], m_LocalPort = 0,
     m_Protocol = [], m_EnvContains = [], m_MapsContains = [], m_PtraceSelfCheck = None,
     m_ParentProcessName = [], m_ProcessUID = [], m_FileContent = [], m_FilePathSuffix = [],
     m_ConnectionFreqMin = 0, m_BeaconIntervalMin = 0, m_BeaconIntervalMax = 0,
     m_ContainerID = []\<rparr>"

definition zeroSubject :: Subject where
  "zeroSubject = \<lparr>s_ProcessName = [], s_ProcessPath = [], s_Cmdline = [], s_User = [],
     s_Environ = [], s_MapsLibs = [], s_PtraceSelfCheck = False, s_ParentName = [], s_EUID = [],
     s_ContainerID = []\<rparr>"

definition zeroObject :: Object where
  "zeroObject = \<lparr>o_FilePath = [], o_FileOp = [], o_RemoteAddr = [], o_LocalPort = 0,
     o_Protocol = [], o_FileContent = [], o_ConnectionCount = 0\<rparr>"

definition zeroRule :: Rule where
  "zeroRule = \<lparr>r_ID = [], r_Description = [], r_Enabled = None, r_Category = [], r_Severity = [],
     r_Decision = [], r_Action = [], r_Match = zeroMatch, r_TimeWindow = None, r_Whitelist = [],
     r_Priority = 0, r_Effect = []\<rparr>"

definition zeroProcessAccess :: ProcessAccess where
  "zeroProcessAccess = \<lparr>pa_Mode = [], pa_Whitelist = [], pa_Blacklist = [], pa_Action = [],
     pa_Severity = []\<rparr>"

definition zeroSelfProtection :: SelfProtection where
  "zeroSelfProtection = \<lparr>sp_Enabled = False, sp_AuditSeverity = [], sp_EnforceMode = [],
     sp_ShutdownEnabled = False\<rparr>"

lemmas zero_defs = zeroMatch_def zeroSubject_def zeroObject_def zeroRule_def
  zeroProcessAccess_def zeroSelfProtection_def

section \<open>Constants and defaults\<close>

definition AcceptedSchemaVersions :: "string list" where
  "AcceptedSchemaVersions = [''v0.1'', ''v0.5'']"

definition maxPolicyBytes :: nat where
  "maxPolicyBytes = 2 ^ 20"

definition DefaultPriority :: int where "DefaultPriority = 100"
definition MaxPriority :: int where "MaxPriority = 1000"
definition EffectAudit :: string where "EffectAudit = ''audit''"
definition EffectResponse :: string where "EffectResponse = ''response''"

definition EffectivePriority :: "Rule \<Rightarrow> int" where
  "EffectivePriority r = (if r_Priority r = 0 then DefaultPriority else r_Priority r)"

definition EffectiveEffect :: "Rule \<Rightarrow> string list" where
  "EffectiveEffect r = (if r_Effect r = [] then [EffectAudit, EffectResponse] else r_Effect r)"

definition HasEffect :: "Rule \<Rightarrow> string \<Rightarrow> bool" where
  "HasEffect r name = list_ex (\<lambda>e. e = name) (EffectiveEffect r)"

definition acceptedSchemaVersion :: "string \<Rightarrow> bool" where
  "acceptedSchemaVersion v = list_ex (\<lambda>a. v = a) AcceptedSchemaVersions"

definition decisionFor :: "string \<Rightarrow> string" where
  "decisionFor mode = (if mode = ''enforce'' then ''block'' else ''alert'')"

definition actionFor :: "string \<Rightarrow> string \<Rightarrow> string" where
  "actionFor mode action = (if mode \<noteq> ''enforce'' \<or> action = [] then ''none'' else action)"

definition severityOr :: "string \<Rightarrow> string \<Rightarrow> string" where
  "severityOr v fallback = (if v = [] then fallback else v)"

section \<open>Clock windows\<close>

text \<open>
  \<open>time.Parse("15:04", s)\<close>: an hour of one or two digits below 24, a colon, a minute of
  exactly two digits below 60, and nothing after it.
\<close>

fun getnum :: "bool \<Rightarrow> string \<Rightarrow> (nat \<times> string) option" where
  "getnum fixed [] = None"
| "getnum fixed [a] = (if isDigitC a \<and> \<not> fixed then Some (digitVal a, []) else None)"
| "getnum fixed (a # b # s) =
     (if \<not> isDigitC a then None
      else if \<not> isDigitC b then (if fixed then None else Some (digitVal a, b # s))
      else Some (10 * digitVal a + digitVal b, s))"

definition parseClock :: "string \<Rightarrow> int option" where
  "parseClock s =
     (case getnum False s of
        None \<Rightarrow> None
      | Some (h, rest) \<Rightarrow>
          if 24 \<le> h then None
          else (case rest of
                  [] \<Rightarrow> None
                | c # rest' \<Rightarrow>
                    if c \<noteq> CHR '':'' then None
                    else (case getnum True rest' of
                            None \<Rightarrow> None
                          | Some (m, rest'') \<Rightarrow>
                              if 60 \<le> m \<or> rest'' \<noteq> [] then None
                              else Some (int h * 60 + int m))))"

text \<open>
  The code assigns both parse errors to one variable, so only the error of
  \<open>tw.End\<close> is tested; a start that does not parse counts as minute 0.
\<close>

definition inWindow :: "WallTime \<Rightarrow> TimeWindow option \<Rightarrow> bool" where
  "inWindow now tw =
     (case tw of
        None \<Rightarrow> True
      | Some w \<Rightarrow>
          (let start = (case parseClock (tw_Start w) of None \<Rightarrow> 0 | Some v \<Rightarrow> v)
           in (case parseClock (tw_End w) of
                 None \<Rightarrow> False
               | Some end' \<Rightarrow>
                   (let cur = Hour now * 60 + Minute now
                    in if start \<le> end' then start \<le> cur \<and> cur \<le> end'
                       else start \<le> cur \<or> cur \<le> end'))))"

section \<open>The matcher\<close>

definition matches :: "Match \<Rightarrow> Subject \<Rightarrow> Object \<Rightarrow> bool" where
  "matches m subj obj =
     (if m_ProcessName m \<noteq> [] \<and> \<not> equalFold (m_ProcessName m) (s_ProcessName subj) then False
      else if m_ProcessPath m \<noteq> [] \<and> m_ProcessPath m \<noteq> s_ProcessPath subj then False
      else if m_CmdlineContains m \<noteq> [] \<and> \<not> strContains (s_Cmdline subj) (m_CmdlineContains m) then False
      else if m_User m \<noteq> [] \<and> m_User m \<noteq> s_User subj then False
      else if m_FilePath m \<noteq> [] \<and> m_FilePath m \<noteq> o_FilePath obj then False
      else if m_FilePathPrefix m \<noteq> [] \<and> \<not> hasPrefix (o_FilePath obj) (m_FilePathPrefix m) then False
      else if m_FileOp m \<noteq> [] \<and> \<not> equalFold (m_FileOp m) (o_FileOp obj) then False
      else if m_RemoteAddr m \<noteq> [] \<and> m_RemoteAddr m \<noteq> o_RemoteAddr obj then False
      else if m_LocalPort m \<noteq> 0 \<and> m_LocalPort m \<noteq> o_LocalPort obj then False
      else if m_Protocol m \<noteq> [] \<and> \<not> equalFold (m_Protocol m) (o_Protocol obj) then False
      else if m_EnvContains m \<noteq> [] \<and> \<not> strContains (s_Environ subj) (m_EnvContains m) then False
      else if m_MapsContains m \<noteq> [] \<and> \<not> strContains (s_MapsLibs subj) (m_MapsContains m) then False
      else if m_PtraceSelfCheck m \<noteq> None \<and> m_PtraceSelfCheck m \<noteq> Some (s_PtraceSelfCheck subj) then False
      else if m_ParentProcessName m \<noteq> [] \<and> \<not> equalFold (m_ParentProcessName m) (s_ParentName subj) then False
      else if m_ProcessUID m \<noteq> [] \<and> m_ProcessUID m \<noteq> s_EUID subj then False
      else if m_FileContent m \<noteq> [] \<and> \<not> strContains (o_FileContent obj) (m_FileContent m) then False
      else if m_FilePathSuffix m \<noteq> [] \<and> \<not> hasSuffix (o_FilePath obj) (m_FilePathSuffix m) then False
      else if m_ConnectionFreqMin m \<noteq> 0 \<and> o_ConnectionCount obj < m_ConnectionFreqMin m then False
      else if m_ContainerID m \<noteq> [] \<and> m_ContainerID m \<noteq> s_ContainerID subj then False
      else True)"

section \<open>Validation\<close>

datatype policy_error =
    OpenFailed | StatFailed | TooLarge nat | DecodeFailed
  | UnsupportedSchema string
  | PAModeInvalid | PAActionInvalid | PASeverityInvalid
  | SPSeverityInvalid | SPEnforceModeInvalid
  | RuleIDRequired nat | DuplicateRuleID string
  | InvalidCategory string string | InvalidDecision string string | InvalidAction string string
  | AllowRequiresNone string string | AlertRequiresNoneOrLog string string
  | BlockRequiresEnforcement string string
  | InvalidWindowStart string | InvalidWindowEnd string
  | AlwaysTrueWindow string | ZeroLengthWindow string string
  | PriorityOutOfRange string int | InvalidEffect string string
  | PolicyMkdirFailed | PolicyMarshalFailed | PolicyWriteFailed

definition severities :: "string list" where
  "severities = [''low'', ''medium'', ''high'', ''critical'']"

definition blockActions :: "string list" where
  "blockActions = [''kill'', ''fix_permissions'', ''nft_block'', ''quarantine'', ''fanotify_deny'',
     ''kill_tree'', ''network_isolate'', ''process_suspend'']"

definition allActions :: "string list" where
  "allActions = [''none'', ''kill'', ''quarantine'', ''fix_permissions'', ''nft_block'', ''log'',
     ''fanotify_deny'', ''kill_tree'', ''network_isolate'', ''process_suspend'']"

text \<open>
  \<open>ProcessAccess.Validate\<close>: the receiver is a value, so the default \<open>kill\<close> it gives
  an empty action is local to the check.
\<close>

definition validateProcessAccess :: "ProcessAccess \<Rightarrow> policy_error option" where
  "validateProcessAccess pa =
     (if pa_Mode pa = [] \<and> pa_Whitelist pa = [] \<and> pa_Blacklist pa = [] then None
      else if \<not> oneOf (pa_Mode pa) [''monitor'', ''enforce''] then Some PAModeInvalid
      else (let pa' = (if pa_Action pa = [] then pa\<lparr>pa_Action := ''kill''\<rparr> else pa)
            in if \<not> oneOf (pa_Action pa') [''none'', ''kill'', ''kill_tree''] then Some PAActionInvalid
               else if pa_Severity pa' \<noteq> [] \<and> \<not> oneOf (pa_Severity pa') severities then Some PASeverityInvalid
               else None))"

definition validateSelfProtection :: "SelfProtection \<Rightarrow> policy_error option" where
  "validateSelfProtection sp =
     (if sp_Enabled sp then
        (if sp_AuditSeverity sp \<noteq> [] \<and> \<not> oneOf (sp_AuditSeverity sp) severities then Some SPSeverityInvalid
         else if sp_EnforceMode sp \<noteq> [] \<and> \<not> oneOf (sp_EnforceMode sp) [''kill''] then Some SPEnforceModeInvalid
         else None)
      else None)"

definition validateDecision :: "Rule \<Rightarrow> policy_error option" where
  "validateDecision r =
     (if r_Decision r = ''allow'' then
        (if r_Action r \<noteq> ''none'' then Some (AllowRequiresNone (r_ID r) (r_Action r)) else None)
      else if r_Decision r = ''alert'' then
        (if \<not> oneOf (r_Action r) [''none'', ''log''] then Some (AlertRequiresNoneOrLog (r_ID r) (r_Action r)) else None)
      else if r_Decision r = ''block'' then
        (if \<not> oneOf (r_Action r) blockActions then Some (BlockRequiresEnforcement (r_ID r) (r_Action r)) else None)
      else None)"

definition validateWindow :: "Rule \<Rightarrow> policy_error option" where
  "validateWindow r =
     (case r_TimeWindow r of
        None \<Rightarrow> None
      | Some w \<Rightarrow>
          if parseClock (tw_Start w) = None then Some (InvalidWindowStart (r_ID r))
          else if parseClock (tw_End w) = None then Some (InvalidWindowEnd (r_ID r))
          else if tw_Start w = ''00:00'' \<and> tw_End w = ''23:59'' then Some (AlwaysTrueWindow (r_ID r))
          else if tw_Start w = tw_End w then Some (ZeroLengthWindow (r_ID r) (tw_Start w))
          else None)"

fun validateEffects :: "string \<Rightarrow> string list \<Rightarrow> policy_error option" where
  "validateEffects rid [] = None"
| "validateEffects rid (e # es) =
     (if \<not> oneOf e [EffectAudit, EffectResponse] then Some (InvalidEffect rid e)
      else validateEffects rid es)"

text \<open>The body of the loop over \<open>p.Rules\<close>, up to the priority count.\<close>

definition validateRule :: "nat \<Rightarrow> string list \<Rightarrow> Rule \<Rightarrow> policy_error option" where
  "validateRule i seen r =
     (if trimSpace (r_ID r) = [] then Some (RuleIDRequired i)
      else if r_ID r \<in> set seen then Some (DuplicateRuleID (r_ID r))
      else if \<not> oneOf (r_Category r) [''process'', ''file'', ''network''] then Some (InvalidCategory (r_ID r) (r_Category r))
      else if \<not> oneOf (r_Decision r) [''allow'', ''alert'', ''block''] then Some (InvalidDecision (r_ID r) (r_Decision r))
      else if \<not> oneOf (r_Action r) allActions then Some (InvalidAction (r_ID r) (r_Action r))
      else (case validateDecision r of
              Some e \<Rightarrow> Some e
            | None \<Rightarrow>
                (case validateWindow r of
                   Some e \<Rightarrow> Some e
                 | None \<Rightarrow>
                     if r_Priority r < 0 \<or> MaxPriority < r_Priority r
                     then Some (PriorityOutOfRange (r_ID r) (r_Priority r))
                     else validateEffects (r_ID r) (r_Effect r))))"

definition bumpPrio :: "int \<Rightarrow> (int \<times> nat) list \<Rightarrow> (int \<times> nat) list" where
  "bumpPrio k m = (if k \<in> fst ` set m then map (\<lambda>(a, n). if a = k then (a, Suc n) else (a, n)) m
                   else m @ [(k, 1)])"

fun validateRules :: "nat \<Rightarrow> string list \<Rightarrow> (int \<times> nat) list \<Rightarrow> Rule list
    \<Rightarrow> policy_error + (int \<times> nat) list" where
  "validateRules i seen prio [] = Inr prio"
| "validateRules i seen prio (r # rs) =
     (case validateRule i seen r of
        Some e \<Rightarrow> Inl e
      | None \<Rightarrow>
          validateRules (Suc i) (r_ID r # seen)
            (if EffectivePriority r \<noteq> DefaultPriority then bumpPrio (EffectivePriority r) prio else prio) rs)"

text \<open>
  \<open>Policy.Validate\<close>.  A warning is the pair of a shared priority and the number of
  its rules; Go builds the list by ranging over a map, in no specified order.
\<close>

definition validatePolicy :: "Policy \<Rightarrow> policy_error + (int \<times> nat) list" where
  "validatePolicy p =
     (if \<not> acceptedSchemaVersion (p_SchemaVersion p) then Inl (UnsupportedSchema (p_SchemaVersion p))
      else (case validateProcessAccess (p_ProcessAccess p) of
              Some e \<Rightarrow> Inl e
            | None \<Rightarrow>
                (case validateSelfProtection (p_SelfProtection p) of
                   Some e \<Rightarrow> Inl e
                 | None \<Rightarrow>
                     (case validateRules 0 [] [] (p_Rules p) of
                        Inl e \<Rightarrow> Inl e
                      | Inr prio \<Rightarrow> Inr (filter (\<lambda>(_, n). 1 < n) prio)))))"

text \<open>
  \<open>Load\<close>: \<open>readFile path\<close> is the file's content, or \<^term>\<open>None\<close> when it cannot be opened
  or examined; \<open>decode\<close> is the strict JSON decoder on the (size-limited) bytes.
\<close>

definition loadPolicy ::
  "(string \<Rightarrow> Policy option) \<Rightarrow> (string \<Rightarrow> string option) \<Rightarrow> string \<Rightarrow> policy_error + Policy" where
  "loadPolicy decode readFile path =
     (case readFile path of
        None \<Rightarrow> Inl OpenFailed
      | Some raw \<Rightarrow>
          if maxPolicyBytes < length raw then Inl (TooLarge (length raw))
          else (case decode (take (maxPolicyBytes + 1) raw) of
                  None \<Rightarrow> Inl DecodeFailed
                | Some p \<Rightarrow>
                    (case validatePolicy p of
                       Inl e \<Rightarrow> Inl e
                     | Inr _ \<Rightarrow> Inr p)))"

text \<open>
  \<open>Save\<close>, to a file whose contents are the last component: \<open>writeFault\<close> is what a failed
  write leaves behind.
\<close>

definition savePolicy ::
  "(Policy \<Rightarrow> string option) \<Rightarrow> bool \<Rightarrow> string option option \<Rightarrow> Policy \<Rightarrow> string option \<Rightarrow> policy_error option \<times> string option" where
  "savePolicy encode mkdirOK writeFault p file =
     (case validatePolicy p of
        Inl e \<Rightarrow> (Some e, file)
      | Inr _ \<Rightarrow>
          if \<not> mkdirOK then (Some PolicyMkdirFailed, file)
          else (case encode p of
                  None \<Rightarrow> (Some PolicyMarshalFailed, file)
                | Some raw \<Rightarrow>
                    (case writeFault of
                       Some left \<Rightarrow> (Some PolicyWriteFailed, left)
                     | None \<Rightarrow> (None, Some (raw @ [char_of (10 :: nat)])))))"

section \<open>Evaluation\<close>

fun firstMatch :: "Match list \<Rightarrow> Subject \<Rightarrow> Object \<Rightarrow> Match option" where
  "firstMatch [] subj obj = None"
| "firstMatch (m # ms) subj obj = (if matches m subj obj then Some m else firstMatch ms subj obj)"

definition EvaluateProcessAccess :: "Policy \<Rightarrow> Subject \<Rightarrow> Rule option" where
  "EvaluateProcessAccess p subj =
     (let pa = p_ProcessAccess p in
      if pa_Mode pa = [] \<and> pa_Whitelist pa = [] \<and> pa_Blacklist pa = [] then None
      else (case firstMatch (pa_Whitelist pa) subj zeroObject of
              Some wl \<Rightarrow> Some (zeroRule\<lparr>r_ID := ''process-access-whitelist'', r_Category := ''process'',
                 r_Severity := severityOr (pa_Severity pa) ''low'', r_Decision := ''allow'',
                 r_Action := ''none'', r_Match := wl\<rparr>)
            | None \<Rightarrow>
                (case firstMatch (pa_Blacklist pa) subj zeroObject of
                   Some bl \<Rightarrow> Some (zeroRule\<lparr>r_ID := ''process-access-blacklist'', r_Category := ''process'',
                     r_Severity := severityOr (pa_Severity pa) ''high'', r_Decision := decisionFor (pa_Mode pa),
                     r_Action := actionFor (pa_Mode pa) (pa_Action pa), r_Match := bl\<rparr>)
                 | None \<Rightarrow>
                     if pa_Mode pa = ''enforce'' \<and> pa_Whitelist pa \<noteq> []
                     then Some (zeroRule\<lparr>r_ID := ''process-access-default-deny'', r_Category := ''process'',
                       r_Severity := severityOr (pa_Severity pa) ''high'', r_Decision := ''block'',
                       r_Action := actionFor (pa_Mode pa) (pa_Action pa)\<rparr>)
                     else None)))"

text \<open>A rule overridden by its own whitelist is kept, rewritten to allow/none.\<close>

fun overrideByWhitelist :: "Rule \<Rightarrow> Match list \<Rightarrow> Subject \<Rightarrow> Object \<Rightarrow> Rule" where
  "overrideByWhitelist r [] subj obj = r"
| "overrideByWhitelist r (wl # wls) subj obj =
     (if matches wl subj obj then r\<lparr>r_Decision := ''allow'', r_Action := ''none''\<rparr>
      else overrideByWhitelist r wls subj obj)"

fun evaluateLoop :: "WallTime \<Rightarrow> Subject \<Rightarrow> Object \<Rightarrow> Rule list \<Rightarrow> Rule list" where
  "evaluateLoop now subj obj [] = []"
| "evaluateLoop now subj obj (r # rs) =
     (if r_Enabled r = Some False then evaluateLoop now subj obj rs
      else if \<not> inWindow now (r_TimeWindow r) then evaluateLoop now subj obj rs
      else if \<not> matches (r_Match r) subj obj then evaluateLoop now subj obj rs
      else overrideByWhitelist r (r_Whitelist r) subj obj # evaluateLoop now subj obj rs)"

text \<open>\<open>sort.SliceStable\<close> by ascending effective priority is \<^const>\<open>sort_key\<close>.\<close>

definition evaluateAll :: "Policy \<Rightarrow> WallTime \<Rightarrow> Subject \<Rightarrow> Object \<Rightarrow> Rule list" where
  "evaluateAll p now subj obj = evaluateLoop now subj obj (sort_key EffectivePriority (p_Rules p))"

definition Evaluate :: "Policy \<Rightarrow> WallTime \<Rightarrow> Subject \<Rightarrow> Object \<Rightarrow> Rule option" where
  "Evaluate p now subj obj =
     (case evaluateAll p now subj obj of [] \<Rightarrow> None | r # _ \<Rightarrow> Some r)"

fun aggregateLoop :: "Rule option \<Rightarrow> Rule list \<Rightarrow> Rule list \<Rightarrow> Rule option \<times> Rule list" where
  "aggregateLoop resp audit [] = (resp, audit)"
| "aggregateLoop resp audit (r # rs) =
     (let audit' = (if HasEffect r EffectAudit then audit @ [r] else audit);
          resp' = (if resp = None \<and> HasEffect r EffectResponse \<and> r_Decision r \<noteq> ''allow''
                      \<and> r_Action r \<noteq> ''none'' then Some r else resp)
      in aggregateLoop resp' audit' rs)"

definition AggregatedDecision :: "Rule list \<Rightarrow> Rule option \<times> Rule list" where
  "AggregatedDecision ms = aggregateLoop None [] ms"

section \<open>Reference definitions\<close>

text \<open>What the loops compute, stated without loops.\<close>

definition applies :: "WallTime \<Rightarrow> Subject \<Rightarrow> Object \<Rightarrow> Rule \<Rightarrow> bool" where
  "applies now subj obj r \<longleftrightarrow>
     r_Enabled r \<noteq> Some False \<and> inWindow now (r_TimeWindow r) \<and> matches (r_Match r) subj obj"

definition whitelisted :: "Subject \<Rightarrow> Object \<Rightarrow> Rule \<Rightarrow> bool" where
  "whitelisted subj obj r \<longleftrightarrow> (\<exists>wl \<in> set (r_Whitelist r). matches wl subj obj)"

definition verdict :: "Subject \<Rightarrow> Object \<Rightarrow> Rule \<Rightarrow> Rule" where
  "verdict subj obj r =
     (if whitelisted subj obj r then r\<lparr>r_Decision := ''allow'', r_Action := ''none''\<rparr> else r)"

definition responds :: "Rule \<Rightarrow> bool" where
  "responds r \<longleftrightarrow> HasEffect r EffectResponse \<and> r_Decision r \<noteq> ''allow'' \<and> r_Action r \<noteq> ''none''"

definition wfDecision :: "Rule \<Rightarrow> bool" where
  "wfDecision r \<longleftrightarrow>
     (r_Decision r = ''allow'' \<and> r_Action r = ''none'') \<or>
     (r_Decision r = ''alert'' \<and> r_Action r \<in> {''none'', ''log''}) \<or>
     (r_Decision r = ''block'' \<and> r_Action r \<in> set blockActions)"

definition wfWindow :: "TimeWindow \<Rightarrow> bool" where
  "wfWindow w \<longleftrightarrow> parseClock (tw_Start w) \<noteq> None \<and> parseClock (tw_End w) \<noteq> None
     \<and> (tw_Start w, tw_End w) \<noteq> (''00:00'', ''23:59'') \<and> tw_Start w \<noteq> tw_End w"

definition wfRule :: "Rule \<Rightarrow> bool" where
  "wfRule r \<longleftrightarrow>
     trimSpace (r_ID r) \<noteq> [] \<and> r_Category r \<in> {''process'', ''file'', ''network''} \<and> wfDecision r
     \<and> (\<forall>w. r_TimeWindow r = Some w \<longrightarrow> wfWindow w)
     \<and> 0 \<le> r_Priority r \<and> r_Priority r \<le> MaxPriority
     \<and> set (r_Effect r) \<subseteq> {EffectAudit, EffectResponse}"

definition wfProcessAccess :: "ProcessAccess \<Rightarrow> bool" where
  "wfProcessAccess pa \<longleftrightarrow>
     (pa_Mode pa = [] \<and> pa_Whitelist pa = [] \<and> pa_Blacklist pa = []) \<or>
     (pa_Mode pa \<in> {''monitor'', ''enforce''} \<and> pa_Action pa \<in> {[], ''none'', ''kill'', ''kill_tree''}
      \<and> pa_Severity pa \<in> {[]} \<union> set severities)"

definition wfSelfProtection :: "SelfProtection \<Rightarrow> bool" where
  "wfSelfProtection sp \<longleftrightarrow>
     \<not> sp_Enabled sp \<or>
     sp_AuditSeverity sp \<in> {[]} \<union> set severities \<and> sp_EnforceMode sp \<in> {[], ''kill''}"

definition wfPolicy :: "Policy \<Rightarrow> bool" where
  "wfPolicy p \<longleftrightarrow>
     p_SchemaVersion p \<in> set AcceptedSchemaVersions
     \<and> wfProcessAccess (p_ProcessAccess p)
     \<and> wfSelfProtection (p_SelfProtection p)
     \<and> distinct (map r_ID (p_Rules p)) \<and> (\<forall>r \<in> set (p_Rules p). wfRule r)"

text \<open>A sample policy with one rule.\<close>

definition killNcRule :: Rule where
  "killNcRule = zeroRule\<lparr>r_ID := ''kill-nc'', r_Category := ''process'', r_Severity := ''high'',
     r_Decision := ''block'', r_Action := ''kill'', r_Priority := 10,
     r_Match := zeroMatch\<lparr>m_ProcessName := ''nc''\<rparr>\<rparr>"

definition samplePolicy :: Policy where
  "samplePolicy = \<lparr>p_SchemaVersion = ''v0.5'', p_ProcessAccess = zeroProcessAccess,
     p_SelfProtection = zeroSelfProtection, p_Rules = [killNcRule]\<rparr>"

section \<open>Evaluation: lemmas\<close>

lemma override_verdict [simp]:
  "overrideByWhitelist r (r_Whitelist r) subj obj = verdict subj obj r"
proof -
  have "overrideByWhitelist r wls subj obj =
    (if \<exists>wl \<in> set wls. matches wl subj obj then r\<lparr>r_Decision := ''allow'', r_Action := ''none''\<rparr> else r)" for wls
    by (induction wls) auto
  then show ?thesis by (simp add: verdict_def whitelisted_def)
qed

lemma evaluateLoop_eq:
  "evaluateLoop now subj obj rs = map (verdict subj obj) (filter (applies now subj obj) rs)"
  by (induction rs) (auto simp: applies_def)

lemma evaluateAll_eq:
  "evaluateAll p now subj obj =
     map (verdict subj obj) (filter (applies now subj obj) (sort_key EffectivePriority (p_Rules p)))"
  by (simp add: evaluateAll_def evaluateLoop_eq)

lemma verdict_frame [simp, frame]:
  "EffectivePriority (verdict subj obj r) = EffectivePriority r"
  "HasEffect (verdict subj obj r) e = HasEffect r e"
  "r_ID (verdict subj obj r) = r_ID r"
  "r_Severity (verdict subj obj r) = r_Severity r"
  "r_Category (verdict subj obj r) = r_Category r"
  by (simp_all add: verdict_def EffectivePriority_def HasEffect_def EffectiveEffect_def)

lemma EffectivePriority_verdict [simp]: "EffectivePriority \<circ> verdict subj obj = EffectivePriority"
  by (simp add: fun_eq_iff)

lemma responds_verdict [simp]:
  "responds (verdict subj obj r) \<longleftrightarrow> responds r \<and> \<not> whitelisted subj obj r"
  by (auto simp: responds_def verdict_def HasEffect_def EffectiveEffect_def)

lemma set_evaluateAll:
  "set (evaluateAll p now subj obj) = verdict subj obj ` {r \<in> set (p_Rules p). applies now subj obj r}"
  by (simp add: evaluateAll_eq)

lemma sorted_evaluateAll: "sorted (map EffectivePriority (evaluateAll p now subj obj))"
  by (simp add: evaluateAll_eq sorted_filter)

lemma evaluateAll_stable:
  "filter (\<lambda>r. EffectivePriority r = k) (evaluateAll p now subj obj) =
     map (verdict subj obj) (filter (\<lambda>r. applies now subj obj r \<and> EffectivePriority r = k) (p_Rules p))"
proof -
  have "filter (\<lambda>r. applies now subj obj r \<and> EffectivePriority r = k) (sort_key EffectivePriority (p_Rules p)) =
        filter (\<lambda>r. applies now subj obj r \<and> EffectivePriority r = k) (p_Rules p)"
    by (rule filter_sort_key_same [where k = k]) simp
  then show ?thesis
    by (simp add: evaluateAll_eq filter_map o_def filter_filter conj_commute)
qed

lemma aggregateLoop_eq:
  "aggregateLoop resp audit rs =
     ((case resp of Some r \<Rightarrow> Some r | None \<Rightarrow> find responds rs),
      audit @ filter (\<lambda>r. HasEffect r EffectAudit) rs)"
  by (induction rs arbitrary: resp audit) (auto simp: responds_def Let_def split: option.splits)

lemma AggregatedDecision_eq:
  "AggregatedDecision ms = (find responds ms, filter (\<lambda>r. HasEffect r EffectAudit) ms)"
  by (simp add: AggregatedDecision_def aggregateLoop_eq)

lemma response_from_policy:
  assumes "fst (AggregatedDecision (evaluateAll p now subj obj)) = Some r"
  shows "r \<in> set (p_Rules p) \<and> applies now subj obj r \<and> \<not> whitelisted subj obj r \<and> responds r"
proof -
  from assms have "r \<in> set (evaluateAll p now subj obj)" and "responds r"
    by (auto simp: AggregatedDecision_eq find_Some_iff)
  then obtain q where q: "q \<in> set (p_Rules p)" "applies now subj obj q" "r = verdict subj obj q"
    by (auto simp: set_evaluateAll)
  with \<open>responds r\<close> have "\<not> whitelisted subj obj q" by simp
  with q have "r = q" by (simp add: verdict_def)
  with q \<open>responds r\<close> \<open>\<not> whitelisted subj obj q\<close> show ?thesis by simp
qed

lemma find_first_sorted:
  assumes "sorted (map f xs)" and "find P xs = Some x" and "y \<in> set xs" and "P y"
  shows "f x \<le> f y"
  using assms by (induction xs) (auto split: if_splits)

section \<open>Validation: lemmas\<close>

lemma validateEffects_None:
  "validateEffects rid es = None \<longleftrightarrow> set es \<subseteq> {EffectAudit, EffectResponse}"
  by (induction es) auto

lemma validateWindow_None:
  "validateWindow r = None \<longleftrightarrow> (\<forall>w. r_TimeWindow r = Some w \<longrightarrow> wfWindow w)"
  by (auto simp: validateWindow_def wfWindow_def split: option.splits)

lemma validateDecision_None:
  "r_Decision r \<in> {''allow'', ''alert'', ''block''} \<Longrightarrow> validateDecision r = None \<longleftrightarrow> wfDecision r"
  by (auto simp: validateDecision_def wfDecision_def oneOf_def)

lemma wfDecision_action: "wfDecision r \<Longrightarrow> r_Action r \<in> set allActions"
  by (auto simp: wfDecision_def allActions_def blockActions_def)

lemma wfDecision_decision: "wfDecision r \<Longrightarrow> r_Decision r \<in> {''allow'', ''alert'', ''block''}"
  by (auto simp: wfDecision_def)

lemma validateRule_None:
  "validateRule i seen r = None \<longleftrightarrow> r_ID r \<notin> set seen \<and> wfRule r"
proof -
  let ?dec = "r_Decision r \<in> {''allow'', ''alert'', ''block''}" and ?act = "r_Action r \<in> set allActions"
  have "validateRule i seen r = None \<longleftrightarrow>
      trimSpace (r_ID r) \<noteq> [] \<and> r_ID r \<notin> set seen \<and> r_Category r \<in> {''process'', ''file'', ''network''}
      \<and> ?dec \<and> ?act \<and> validateDecision r = None \<and> validateWindow r = None
      \<and> \<not> (r_Priority r < 0 \<or> MaxPriority < r_Priority r) \<and> validateEffects (r_ID r) (r_Effect r) = None"
    unfolding validateRule_def oneOf_def by (simp split: option.split)
  also have "\<dots> \<longleftrightarrow> r_ID r \<notin> set seen \<and> wfRule r"
    unfolding wfRule_def validateWindow_None validateEffects_None
    using validateDecision_None [of r] wfDecision_action [of r] wfDecision_decision [of r]
    by (metis (no_types, lifting) not_less)
  finally show ?thesis .
qed

lemma validateRules_Inr:
  "(\<exists>m. validateRules i seen prio rs = Inr m) \<longleftrightarrow>
     distinct (map r_ID rs) \<and> set (map r_ID rs) \<inter> set seen = {} \<and> (\<forall>r \<in> set rs. wfRule r)"
proof (induction rs arbitrary: i seen prio)
  case Nil
  then show ?case by simp
next
  case (Cons r rs)
  show ?case
  proof (cases "validateRule i seen r")
    case None
    then have "r_ID r \<notin> set seen \<and> wfRule r" by (simp add: validateRule_None)
    with None Cons.IH show ?thesis by auto
  next
    case (Some e)
    then have "\<not> (r_ID r \<notin> set seen \<and> wfRule r)" using validateRule_None [of i seen r] by simp
    with Some show ?thesis by auto
  qed
qed

lemma validateProcessAccess_None: "validateProcessAccess pa = None \<longleftrightarrow> wfProcessAccess pa"
  by (auto simp: validateProcessAccess_def wfProcessAccess_def oneOf_def Let_def)

lemma validateSelfProtection_None: "validateSelfProtection sp = None \<longleftrightarrow> wfSelfProtection sp"
  by (auto simp: validateSelfProtection_def wfSelfProtection_def oneOf_def)

lemma validatePolicy_wf: "(\<exists>ws. validatePolicy p = Inr ws) \<longleftrightarrow> wfPolicy p"
proof -
  have "(\<exists>ws. validatePolicy p = Inr ws) \<longleftrightarrow>
      acceptedSchemaVersion (p_SchemaVersion p) \<and> validateProcessAccess (p_ProcessAccess p) = None
      \<and> validateSelfProtection (p_SelfProtection p) = None
      \<and> (\<exists>m. validateRules 0 [] [] (p_Rules p) = Inr m)"
    unfolding validatePolicy_def by (auto split: option.splits sum.splits)
  then show ?thesis
    by (auto simp: validateRules_Inr validateProcessAccess_None validateSelfProtection_None
        wfPolicy_def acceptedSchemaVersion_def list_ex_iff)
qed

lemma loadPolicy_wf: "loadPolicy decode readFile path = Inr p \<Longrightarrow> wfPolicy p"
  by (auto simp: loadPolicy_def simp flip: validatePolicy_wf split: option.splits if_splits sum.splits)

section \<open>Clock windows: lemmas\<close>

lemma digitVal_less: "isDigitC c \<Longrightarrow> digitVal c < 10"
  by (auto simp: isDigitC_def digitVal_def)

lemma parseClock_range: "parseClock s = Some v \<Longrightarrow> 0 \<le> v \<and> v < 1440"
  by (auto simp: parseClock_def split: option.splits prod.splits list.splits if_splits)

lemma mod_1440:
  fixes x :: int
  assumes "- 1440 < x" "x < 1440"
  shows "x mod 1440 = (if x < 0 then x + 1440 else x)"
proof (cases "x < 0")
  case True
  with assms have "(x + 1440) mod 1440 = x + 1440" by (intro mod_pos_pos_trivial) auto
  with True show ?thesis by simp
next
  case False
  with assms show ?thesis by simp
qed

section \<open>Process access: lemmas\<close>

lemma firstMatch_None: "firstMatch ms subj obj = None \<longleftrightarrow> (\<forall>m \<in> set ms. \<not> matches m subj obj)"
  by (induction ms) auto

lemma firstMatch_Some: "firstMatch ms subj obj = Some m \<Longrightarrow> m \<in> set ms \<and> matches m subj obj"
  by (induction ms) (auto split: if_splits)

section \<open>The sample policy\<close>

lemmas sample_defs = samplePolicy_def killNcRule_def zero_defs

lemma sample_eval [simp]:
  "evaluateAll samplePolicy now (zeroSubject\<lparr>s_ProcessName := ''NC''\<rparr>) zeroObject = [killNcRule]"
  by (simp add: evaluateAll_eq applies_def verdict_def whitelisted_def inWindow_def matches_def sample_defs gostr)

lemma sample_response [simp]: "AggregatedDecision [killNcRule] = (Some killNcRule, [killNcRule])"
  by (simp add: AggregatedDecision_eq responds_def HasEffect_def EffectiveEffect_def sample_defs
      EffectAudit_def EffectResponse_def)

lemma sample_wf [simp]: "wfPolicy samplePolicy"
  by (simp add: wfPolicy_def wfRule_def wfDecision_def AcceptedSchemaVersions_def
      wfProcessAccess_def wfSelfProtection_def sample_defs blockActions_def MaxPriority_def gostr)

lemma sample_load [simp]:
  "loadPolicy (\<lambda>_. Some samplePolicy) (\<lambda>_. Some ''{}'') ''policy.json'' = Inr samplePolicy"
proof -
  obtain ws where "validatePolicy samplePolicy = Inr ws"
    using sample_wf validatePolicy_wf by blast
  then show ?thesis by (simp add: loadPolicy_def maxPolicyBytes_def)
qed

section \<open>Properties\<close>


text \<open>The response rule that \<open>AggregatedDecision\<close> picks from the hits is a rule of
  the policy that applies, is not overridden by its whitelist and wants a response, and no
  other such rule takes precedence over it; there is no response rule exactly when the policy
  has no such rule.\<close>

theorem response_takes_precedence:
  "case fst (AggregatedDecision (evaluateAll p now subj obj)) of
     None \<Rightarrow> \<not> (\<exists>q \<in> set (p_Rules p). applies now subj obj q \<and> \<not> whitelisted subj obj q \<and> responds q)
   | Some r \<Rightarrow> r \<in> set (p_Rules p) \<and> applies now subj obj r \<and> \<not> whitelisted subj obj r \<and> responds r
       \<and> (\<forall>q \<in> set (p_Rules p). applies now subj obj q \<and> \<not> whitelisted subj obj q \<and> responds q
            \<longrightarrow> EffectivePriority r \<le> EffectivePriority q)"
proof (cases "fst (AggregatedDecision (evaluateAll p now subj obj))")
  case None
  then have "find responds (evaluateAll p now subj obj) = None"
    by (simp add: AggregatedDecision_eq)
  with None show ?thesis by (auto simp: find_None_iff set_evaluateAll)
next
  case (Some r)
  have "EffectivePriority r \<le> EffectivePriority q"
    if q: "q \<in> set (p_Rules p)" "applies now subj obj q" "\<not> whitelisted subj obj q" "responds q" for q
  proof -
    from q have "verdict subj obj q = q" "verdict subj obj q \<in> set (evaluateAll p now subj obj)"
      by (auto simp: verdict_def set_evaluateAll)
    with q Some show ?thesis
      by (intro find_first_sorted [OF sorted_evaluateAll, where P = responds])
         (auto simp: AggregatedDecision_eq)
  qed
  with Some response_from_policy [OF Some] show ?thesis by simp
qed

theorem response_takes_precedence_witness:
  "killNcRule \<in> set (p_Rules samplePolicy) \<and> responds killNcRule \<and>
   fst (AggregatedDecision (evaluateAll samplePolicy \<lparr>Hour = 0, Minute = 0\<rparr>
     (zeroSubject\<lparr>s_ProcessName := ''NC''\<rparr>) zeroObject)) = Some killNcRule"
  using response_takes_precedence [of samplePolicy "\<lparr>Hour = 0, Minute = 0\<rparr>" "zeroSubject\<lparr>s_ProcessName := ''NC''\<rparr>" zeroObject]
  by simp

text \<open>Claim C15. Validation accepts a policy exactly when it satisfies the declarative
  well-formedness conditions: an accepted schema version, valid process-access and
  self-protection sections, pairwise distinct rule identifiers, and for every rule a category,
  a decision/action pair of the matrix, parsable windows, a priority in range and known
  effects.\<close>

theorem validate_iff_wellformed: "(\<exists>ws. validatePolicy p = Inr ws) \<longleftrightarrow> wfPolicy p"
  by (rule validatePolicy_wf)

text \<open>With a policy that \<open>Load\<close> accepted, the engine takes an enforcement action
  (anything other than writing a log entry) only for a rule of that policy whose decision is
  block and whose action is one of the enforcement actions, and never for a rule that is
  overridden by its whitelist.\<close>

theorem loaded_policy_response_safe:
  assumes "loadPolicy decode readFile path = Inr p"
    and "fst (AggregatedDecision (evaluateAll p now subj obj)) = Some r"
  shows "r \<in> set (p_Rules p) \<and> \<not> whitelisted subj obj r \<and>
    (r_Decision r = ''block'' \<and> r_Action r \<in> set blockActions \<or>
     r_Decision r = ''alert'' \<and> r_Action r = ''log'')"
proof -
  from response_from_policy [OF assms(2)]
  have r: "r \<in> set (p_Rules p)" "\<not> whitelisted subj obj r" "responds r" by auto
  with loadPolicy_wf [OF assms(1)] have "wfDecision r"
    by (auto simp: wfPolicy_def wfRule_def)
  with r show ?thesis by (auto simp: wfDecision_def responds_def)
qed

theorem loaded_policy_response_safe_witness:
  "killNcRule \<in> set (p_Rules samplePolicy) \<and>
   \<not> whitelisted (zeroSubject\<lparr>s_ProcessName := ''NC''\<rparr>) zeroObject killNcRule \<and>
   (r_Decision killNcRule = ''block'' \<and> r_Action killNcRule \<in> set blockActions \<or>
    r_Decision killNcRule = ''alert'' \<and> r_Action killNcRule = ''log'')"
  by (rule loaded_policy_response_safe [OF sample_load,
        where now = "\<lparr>Hour = 0, Minute = 0\<rparr>"]) simp

text \<open>A time window of a validated rule means the minutes of the day from its start
  to its end inclusive, going through midnight when the start is later than the end.\<close>

theorem inWindow_cyclic:
  assumes "parseClock (tw_Start w) = Some start" and "parseClock (tw_End w) = Some end'"
    and "0 \<le> Hour now" "Hour now < 24" "0 \<le> Minute now" "Minute now < 60"
  shows "inWindow now (Some w) \<longleftrightarrow>
     (Hour now * 60 + Minute now - start) mod 1440 \<le> (end' - start) mod 1440"
proof -
  let ?c = "Hour now * 60 + Minute now"
  have r: "0 \<le> start" "start < 1440" "0 \<le> end'" "end' < 1440" "0 \<le> ?c" "?c < 1440"
    using parseClock_range assms by auto
  then show ?thesis
    using mod_1440 [of "?c - start"] mod_1440 [of "end' - start"] assms(1,2)
    by (simp add: inWindow_def Let_def)
qed

theorem inWindow_cyclic_witness:
  "inWindow \<lparr>Hour = 23, Minute = 30\<rparr> (Some \<lparr>tw_Start = ''22:00'', tw_End = ''6:15''\<rparr>) \<and>
   (23 * 60 + 30 - 1320 :: int) mod 1440 \<le> (375 - 1320) mod 1440"
proof -
  have "parseClock ''22:00'' = Some 1320" "parseClock ''6:15'' = Some 375"
    by (simp_all add: parseClock_def isDigitC_def digitVal_def)
  then show ?thesis
    using inWindow_cyclic [of "\<lparr>tw_Start = ''22:00'', tw_End = ''6:15''\<rparr>" 1320 375 "\<lparr>Hour = 23, Minute = 30\<rparr>"]
    by simp
qed

text \<open>When the start of a window does not parse, \<open>inWindow\<close> does not fail closed:
  the parse error is overwritten by that of the end, and every minute up to the end counts as
  inside.\<close>

theorem inWindow_ignores_start_error:
  assumes "parseClock (tw_Start w) = None" and "parseClock (tw_End w) = Some end'"
    and "0 \<le> Hour now" "0 \<le> Minute now"
  shows "inWindow now (Some w) \<longleftrightarrow> Hour now * 60 + Minute now \<le> end'"
  using assms parseClock_range [OF assms(2)] by (simp add: inWindow_def Let_def)

theorem inWindow_ignores_start_error_witness:
  "inWindow \<lparr>Hour = 3, Minute = 0\<rparr> (Some \<lparr>tw_Start = ''late'', tw_End = ''06:00''\<rparr>)"
proof -
  have "parseClock ''late'' = None" "parseClock ''06:00'' = Some 360"
    by (simp_all add: parseClock_def isDigitC_def digitVal_def)
  then show ?thesis
    using inWindow_ignores_start_error [of "\<lparr>tw_Start = ''late'', tw_End = ''06:00''\<rparr>" 360 "\<lparr>Hour = 3, Minute = 0\<rparr>"]
    by simp
qed

text \<open>Process access control is decided by whitelist first, blacklist second,
  default-deny last: a subject is allowed exactly when a whitelist entry matches it; in monitor
  mode no verdict carries an action; a verdict to kill or kill the tree is only given in
  enforce mode, to a subject no whitelist entry matches.\<close>

theorem process_access_verdicts:
  "let pa = p_ProcessAccess p; wl = (\<exists>m \<in> set (pa_Whitelist pa). matches m subj zeroObject);
       bl = (\<exists>m \<in> set (pa_Blacklist pa). matches m subj zeroObject)
   in (case EvaluateProcessAccess p subj of
         None \<Rightarrow> \<not> wl \<and> \<not> bl \<and> \<not> (pa_Mode pa = ''enforce'' \<and> pa_Whitelist pa \<noteq> [])
       | Some r \<Rightarrow> (r_Decision r = ''allow'' \<longleftrightarrow> wl)
           \<and> (r_Decision r = ''block'' \<longleftrightarrow> pa_Mode pa = ''enforce'' \<and> \<not> wl)
           \<and> r_Action r = (if pa_Mode pa = ''enforce'' \<and> \<not> wl \<and> pa_Action pa \<noteq> [] then pa_Action pa else ''none''))"
proof -
  let ?pa = "p_ProcessAccess p"
  show ?thesis
    by (cases "firstMatch (pa_Whitelist ?pa) subj zeroObject"; cases "firstMatch (pa_Blacklist ?pa) subj zeroObject")
       (auto simp: EvaluateProcessAccess_def Let_def firstMatch_None firstMatch_Some decisionFor_def actionFor_def
          dest!: firstMatch_Some simp flip: firstMatch_None)
qed

text \<open>The default action \<open>kill\<close> that validation gives an empty
  \<open>process_access.action\<close> does not reach the engine: an enforce-mode policy without an action
  passes validation, and every verdict it gives has action none.\<close>

theorem enforce_without_action_does_nothing:
  assumes "pa_Mode (p_ProcessAccess p) = ''enforce''" and "pa_Action (p_ProcessAccess p) = []"
    and "pa_Severity (p_ProcessAccess p) = []"
  shows "validateProcessAccess (p_ProcessAccess p) = None \<and>
    (case EvaluateProcessAccess p subj of None \<Rightarrow> True | Some r \<Rightarrow> r_Action r = ''none'')"
  using assms
  by (auto simp: validateProcessAccess_def EvaluateProcessAccess_def Let_def actionFor_def split: option.splits)

theorem enforce_without_action_does_nothing_witness:
  "case EvaluateProcessAccess
      (samplePolicy\<lparr>p_ProcessAccess := zeroProcessAccess\<lparr>pa_Mode := ''enforce'',
         pa_Blacklist := [zeroMatch\<lparr>m_ProcessName := ''nc''\<rparr>]\<rparr>\<rparr>)
      (zeroSubject\<lparr>s_ProcessName := ''nc''\<rparr>)
   of None \<Rightarrow> False | Some r \<Rightarrow> r_Decision r = ''block'' \<and> r_Action r = ''none''"
  using enforce_without_action_does_nothing
    [of "samplePolicy\<lparr>p_ProcessAccess := zeroProcessAccess\<lparr>pa_Mode := ''enforce'',
         pa_Blacklist := [zeroMatch\<lparr>m_ProcessName := ''nc''\<rparr>]\<rparr>\<rparr>" "zeroSubject\<lparr>s_ProcessName := ''nc''\<rparr>"]
  by (simp add: EvaluateProcessAccess_def Let_def matches_def decisionFor_def sample_defs gostr)


text \<open>
  What \<open>Save\<close> writes, \<open>Load\<close> reads back.  A policy is written exactly when it is
  valid and the write succeeds; a file so written loads as the same policy when the decoder
  inverts the encoder on it and the text is within the size limit, and a policy that is
  refused leaves the file alone.
\<close>

theorem saved_policy_loads:
  assumes "encode p = Some raw" "decode (raw @ [char_of (10 :: nat)]) = Some p" "length raw < maxPolicyBytes"
    and "savePolicy encode True None p file = (err, file')"
  shows "if err = None then loadPolicy decode (\<lambda>_. file') path = Inr p
         else file' = file \<and> validatePolicy p = Inl (the err)"
  using assms by (auto simp: savePolicy_def loadPolicy_def split: sum.splits)

theorem saved_policy_loads_witness:
  "\<exists>file'. savePolicy (\<lambda>_. Some ''policy'') True None samplePolicy None = (None, file')
     \<and> loadPolicy (\<lambda>_. Some samplePolicy) (\<lambda>_. file') ''/etc/edr/policy.json'' = Inr samplePolicy"
proof -
  obtain err file' where s: "savePolicy (\<lambda>_. Some ''policy'') True None samplePolicy None = (err, file')"
    by (metis surj_pair)
  obtain ws where "validatePolicy samplePolicy = Inr ws"
    using sample_wf validatePolicy_wf by blast
  then have "err = None" using s by (simp add: savePolicy_def)
  with saved_policy_loads [of "\<lambda>_. Some ''policy''" samplePolicy "''policy''" "\<lambda>_. Some samplePolicy" None err file' "''/etc/edr/policy.json''"] s
  show ?thesis by (simp add: maxPolicyBytes_def)
qed

end
