(* ===== verification/Suppress.thy ===== *)
theory Suppress
  imports Prelude
begin

text \<open>
  The event suppressor, \<open>src/internal/control/suppress.go\<close>: a cooldown per deduplication
  key, a token bucket per rule, the eviction of stale keys and the state that survives a
  restart.  Every operation that reads \<open>time.Now()\<close> takes the instant as an argument.
  The \<open>float64\<close> token counts are rationals and durations unbounded integers: rounding,
  and the overflow of twice a cooldown of more than 146 years, are not modelled.
\<close>

section \<open>State and operations\<close>

record tokenBucket =
  Tokens :: rat
  Last :: gotime

record Suppressor =
  processCooldown :: duration
  fileCooldown :: duration
  networkCooldown :: duration
  ratePerSec :: rat
  burst :: rat
  lastSeen :: "string \<rightharpoonup> gotime"
  buckets :: "string \<rightharpoonup> tokenBucket"
  evictCounter :: nat

record SuppressorOptions =
  opt_ProcessCooldown :: duration
  opt_FileCooldown :: duration
  opt_NetworkCooldown :: duration
  opt_RatePerSec :: nat
  opt_Burst :: nat

definition second :: duration where "second = 1000000000"
definition defaultProcessCooldown :: duration where "defaultProcessCooldown = 30 * second"
definition defaultFileCooldown :: duration where "defaultFileCooldown = 60 * second"
definition defaultNetworkCooldown :: duration where "defaultNetworkCooldown = 30 * second"

definition NewSuppressor :: "SuppressorOptions \<Rightarrow> Suppressor" where
  "NewSuppressor opts =
     (let rate = rat_of_nat (opt_RatePerSec opts);
          brst = rat_of_nat (opt_Burst opts)
      in \<lparr>processCooldown = (if opt_ProcessCooldown opts \<le> 0 then defaultProcessCooldown else opt_ProcessCooldown opts),
          fileCooldown = (if opt_FileCooldown opts \<le> 0 then defaultFileCooldown else opt_FileCooldown opts),
          networkCooldown = (if opt_NetworkCooldown opts \<le> 0 then defaultNetworkCooldown else opt_NetworkCooldown opts),
          ratePerSec = rate,
          burst = (if brst = 0 \<and> rate > 0 then rate else brst),
          lastSeen = Map.empty, buckets = Map.empty, evictCounter = 0\<rparr>)"

definition ReasonCooldown :: string where "ReasonCooldown = ''cooldown''"
definition ReasonRateLimit :: string where "ReasonRateLimit = ''rate_limit''"

definition cooldownFor :: "Suppressor \<Rightarrow> string \<Rightarrow> duration" where
  "cooldownFor s category =
     (if category = ''process'' then processCooldown s
      else if category = ''file'' then fileCooldown s
      else if category = ''network'' then networkCooldown s
      else 0)"

definition seconds :: "duration \<Rightarrow> rat" where
  "seconds d = rat_of_int d / 1000000000"

definition refill :: "Suppressor \<Rightarrow> tokenBucket \<Rightarrow> gotime \<Rightarrow> rat" where
  "refill s b now = min (burst s) (Tokens b + seconds (now - Last b) * ratePerSec s)"

definition consumeToken :: "Suppressor \<Rightarrow> string \<Rightarrow> gotime \<Rightarrow> bool \<times> Suppressor" where
  "consumeToken s ruleID now =
     (let bucket = (case buckets s ruleID of
                      Some b \<Rightarrow> b
                    | None \<Rightarrow> \<lparr>Tokens = burst s, Last = now\<rparr>);
          tokens = refill s bucket now
      in if tokens < 1
         then (False, s\<lparr>buckets := (buckets s)(ruleID \<mapsto> \<lparr>Tokens = tokens, Last = now\<rparr>)\<rparr>)
         else (True, s\<lparr>buckets := (buckets s)(ruleID \<mapsto> \<lparr>Tokens = tokens - 1, Last = now\<rparr>)\<rparr>))"

definition maxCooldown :: "Suppressor \<Rightarrow> duration" where
  "maxCooldown s =
     (let m = fileCooldown s;
          m = (if processCooldown s > m then processCooldown s else m)
      in if networkCooldown s > m then networkCooldown s else m)"

definition evictThreshold :: "Suppressor \<Rightarrow> duration" where
  "evictThreshold s = (if maxCooldown s * 2 = 0 then 120 * second else maxCooldown s * 2)"

definition evictStale :: "Suppressor \<Rightarrow> gotime \<Rightarrow> Suppressor" where
  "evictStale s now =
     s\<lparr>lastSeen := (\<lambda>key. case lastSeen s key of
        None \<Rightarrow> None
      | Some t \<Rightarrow> if now - t > evictThreshold s then None else Some t)\<rparr>"

text \<open>\<open>Allow\<close> on a non-nil receiver; the reason is empty when the event may be emitted.\<close>

definition allowS :: "Suppressor \<Rightarrow> gotime \<Rightarrow> string \<Rightarrow> string \<Rightarrow> string \<Rightarrow> (bool \<times> string) \<times> Suppressor" where
  "allowS s now category ruleID key =
     (let cooldown = cooldownFor s category in
      if cooldown > 0 \<and> (case lastSeen s key of Some t \<Rightarrow> now - t < cooldown | None \<Rightarrow> False)
      then ((False, ReasonCooldown), s)
      else
        (let (granted, s1) = (if ratePerSec s > 0 \<and> ruleID \<noteq> [] then consumeToken s ruleID now else (True, s))
         in if \<not> granted then ((False, ReasonRateLimit), s1)
            else (let s2 = s1\<lparr>lastSeen := (lastSeen s1)(key \<mapsto> now), evictCounter := evictCounter s1 + 1\<rparr>
                  in if evictCounter s2 \<ge> 1000
                     then ((True, []), evictStale (s2\<lparr>evictCounter := 0\<rparr>) now)
                     else ((True, []), s2))))"

text \<open>A nil suppressor lets everything through.\<close>

definition Allow :: "Suppressor option \<Rightarrow> gotime \<Rightarrow> string \<Rightarrow> string \<Rightarrow> string
    \<Rightarrow> (bool \<times> string) \<times> Suppressor option" where
  "Allow sp now category ruleID key =
     (case sp of
        None \<Rightarrow> ((True, []), None)
      | Some s \<Rightarrow> (case allowS s now category ruleID key of (r, s') \<Rightarrow> (r, Some s')))"

definition Stats :: "Suppressor option \<Rightarrow> nat \<times> nat" where
  "Stats sp = (case sp of None \<Rightarrow> (0, 0)
     | Some s \<Rightarrow> (card (dom (lastSeen s)), card (dom (buckets s))))"

record SuppressorSnapshot =
  snap_active :: bool
  snap_tracked_events :: "nat option"
  snap_active_rules :: "nat option"

text \<open>\<open>Snapshot\<close>: a nil suppressor reports only that it is inactive.\<close>

definition Snapshot :: "Suppressor option \<Rightarrow> SuppressorSnapshot" where
  "Snapshot sp = (case sp of
       None \<Rightarrow> \<lparr>snap_active = False, snap_tracked_events = None, snap_active_rules = None\<rparr>
     | Some s \<Rightarrow> \<lparr>snap_active = True, snap_tracked_events = Some (card (dom (lastSeen s))),
                  snap_active_rules = Some (card (dom (buckets s)))\<rparr>)"

fun dedupParts :: "string \<Rightarrow> string list \<Rightarrow> string" where
  "dedupParts out [] = out"
| "dedupParts out (p # ps) = (if p = [] then dedupParts out ps else dedupParts (out @ '':'' @ p) ps)"

definition DedupKey :: "string \<Rightarrow> string \<Rightarrow> string list \<Rightarrow> string" where
  "DedupKey category ruleID parts = dedupParts (category @ '':'' @ ruleID) parts"

section \<open>Persistence\<close>

record suppressorPersist =
  LastSeen :: "(string \<rightharpoonup> gotime) option"
  BucketTokens :: "(string \<rightharpoonup> tokenBucket) option"

datatype persist_error = MarshalFailed | MkdirFailed | WriteFailed | ReadFailed | UnmarshalFailed

text \<open>
  The file holding the state is the component \<open>file\<close> of the result; \<open>mkdirOK\<close> says
  whether the directory can be made, \<open>writeFault\<close> is \<^term>\<open>None\<close> when the write succeeds
  and otherwise what the failed write leaves of the file.
\<close>

definition SaveState :: "(suppressorPersist \<Rightarrow> string option) \<Rightarrow> bool \<Rightarrow> string option option \<Rightarrow> Suppressor option
    \<Rightarrow> string option \<Rightarrow> persist_error option \<times> string option" where
  "SaveState marshal mkdirOK writeFault sp file =
     (case sp of
        None \<Rightarrow> (None, file)
      | Some s \<Rightarrow>
          (case marshal \<lparr>LastSeen = Some (lastSeen s), BucketTokens = Some (buckets s)\<rparr> of
             None \<Rightarrow> (Some MarshalFailed, file)
           | Some raw \<Rightarrow>
               if \<not> mkdirOK then (Some MkdirFailed, file)
               else (case writeFault of
                       Some left \<Rightarrow> (Some WriteFailed, left)
                     | None \<Rightarrow> (None, Some raw))))"

text \<open>\<open>readErr\<close>: reading fails for another reason than a missing file.\<close>

definition LoadState :: "(string \<Rightarrow> suppressorPersist option) \<Rightarrow> bool \<Rightarrow> string option \<Rightarrow> Suppressor option
    \<Rightarrow> persist_error option \<times> Suppressor option" where
  "LoadState unmarshal readErr file sp =
     (case sp of
        None \<Rightarrow> (None, None)
      | Some s \<Rightarrow>
          if readErr then (Some ReadFailed, sp)
          else (case file of
                  None \<Rightarrow> (None, sp)
                | Some raw \<Rightarrow>
                    (case unmarshal raw of
                       None \<Rightarrow> (Some UnmarshalFailed, sp)
                     | Some st \<Rightarrow>
                         (None, Some (s\<lparr>lastSeen := (case LastSeen st of Some m \<Rightarrow> m | None \<Rightarrow> lastSeen s),
                                        buckets := (case BucketTokens st of Some m \<Rightarrow> m | None \<Rightarrow> buckets s)\<rparr>)))))"

section \<open>Runs\<close>

record AllowCall =
  c_now :: gotime
  c_category :: string
  c_rule :: string
  c_key :: string

fun runAllow :: "Suppressor \<Rightarrow> AllowCall list \<Rightarrow> bool list" where
  "runAllow s [] = []"
| "runAllow s (c # cs) =
     (case allowS s (c_now c) (c_category c) (c_rule c) (c_key c) of
        ((ok, _), s') \<Rightarrow> ok # runAllow s' cs)"

fun stateAfter :: "Suppressor \<Rightarrow> AllowCall list \<Rightarrow> Suppressor" where
  "stateAfter s [] = s"
| "stateAfter s (c # cs) =
     stateAfter (snd (allowS s (c_now c) (c_category c) (c_rule c) (c_key c))) cs"

definition grants :: "string \<Rightarrow> Suppressor \<Rightarrow> AllowCall list \<Rightarrow> nat" where
  "grants ruleID s cs =
     length (filter (\<lambda>(c, ok). ok \<and> c_rule c = ruleID) (zip cs (runAllow s cs)))"

section \<open>Invariant and frame\<close>

definition suppInv :: "Suppressor \<Rightarrow> bool" where
  "suppInv s \<longleftrightarrow> 0 < processCooldown s \<and> 0 < fileCooldown s \<and> 0 < networkCooldown s
     \<and> 0 \<le> ratePerSec s \<and> 0 \<le> burst s
     \<and> (\<forall>r b. buckets s r = Some b \<longrightarrow> 0 \<le> Tokens b \<and> Tokens b \<le> burst s)"

definition clockAfter :: "Suppressor \<Rightarrow> gotime \<Rightarrow> bool" where
  "clockAfter s now \<longleftrightarrow> (\<forall>r b. buckets s r = Some b \<longrightarrow> Last b \<le> now)"

definition sameConfig :: "Suppressor \<Rightarrow> Suppressor \<Rightarrow> bool" where
  "sameConfig s s' \<longleftrightarrow> processCooldown s' = processCooldown s \<and> fileCooldown s' = fileCooldown s
     \<and> networkCooldown s' = networkCooldown s \<and> ratePerSec s' = ratePerSec s \<and> burst s' = burst s"

lemma seconds_nonneg [simp]: "0 \<le> seconds d \<longleftrightarrow> 0 \<le> d"
  by (simp add: seconds_def zero_le_divide_iff)

lemma seconds_add: "seconds (a + b) = seconds a + seconds b"
  by (simp add: seconds_def add_divide_distrib)

lemma evictStale_frame [simp, frame]:
  "processCooldown (evictStale s now) = processCooldown s"
  "fileCooldown (evictStale s now) = fileCooldown s"
  "networkCooldown (evictStale s now) = networkCooldown s"
  "ratePerSec (evictStale s now) = ratePerSec s"
  "burst (evictStale s now) = burst s"
  "buckets (evictStale s now) = buckets s"
  by (simp_all add: evictStale_def)

lemma consumeToken_frame:
  assumes "consumeToken s r now = (ok, s')"
  shows "sameConfig s s'" "lastSeen s' = lastSeen s" "evictCounter s' = evictCounter s"
    "r' \<noteq> r \<Longrightarrow> buckets s' r' = buckets s r'"
  using assms by (auto simp: consumeToken_def sameConfig_def Let_def split: if_splits)

lemma allowS_cases [consumes 1, case_names cooldown limited granted]:
  assumes "allowS s now cat r k = ((ok, reason), s')"
  obtains "\<not> ok" "reason = ReasonCooldown" "s' = s" "0 < cooldownFor s cat"
      "\<exists>t. lastSeen s k = Some t \<and> now - t < cooldownFor s cat"
  | "\<not> ok" "reason = ReasonRateLimit" "0 < ratePerSec s" "r \<noteq> []" "consumeToken s r now = (False, s')"
  | s1 where "ok" "reason = []"
      "0 < cooldownFor s cat \<Longrightarrow> \<forall>t. lastSeen s k = Some t \<longrightarrow> cooldownFor s cat \<le> now - t"
      "(if 0 < ratePerSec s \<and> r \<noteq> [] then consumeToken s r now = (True, s1) else s1 = s)"
      "s' = (let s2 = s1\<lparr>lastSeen := (lastSeen s1)(k \<mapsto> now), evictCounter := evictCounter s1 + 1\<rparr>
             in if 1000 \<le> evictCounter s2 then evictStale (s2\<lparr>evictCounter := 0\<rparr>) now else s2)"
proof (cases "0 < cooldownFor s cat \<and> (case lastSeen s k of Some t \<Rightarrow> now - t < cooldownFor s cat | None \<Rightarrow> False)")
  case True
  with assms that(1) show ?thesis
    by (auto simp: allowS_def Let_def split: option.splits)
next
  case cd: False
  then have cd': "0 < cooldownFor s cat \<Longrightarrow> \<forall>t. lastSeen s k = Some t \<longrightarrow> cooldownFor s cat \<le> now - t"
    by auto
  obtain g s1 where g: "(if ratePerSec s > 0 \<and> r \<noteq> [] then consumeToken s r now else (True, s)) = (g, s1)"
    by (cases "if ratePerSec s > 0 \<and> r \<noteq> [] then consumeToken s r now else (True, s)")
  have eq: "allowS s now cat r k = (if \<not> g then ((False, ReasonRateLimit), s1)
      else ((True, []), (let s2 = s1\<lparr>lastSeen := (lastSeen s1)(k \<mapsto> now), evictCounter := evictCounter s1 + 1\<rparr>
             in if 1000 \<le> evictCounter s2 then evictStale (s2\<lparr>evictCounter := 0\<rparr>) now else s2)))"
    unfolding allowS_def Let_def g using cd by (simp only: if_False prod.case) simp
  show ?thesis
  proof (cases g)
    case True
    with eq assms g cd' show ?thesis by (intro that(3)) (auto split: if_splits)
  next
    case False
    with eq assms g show ?thesis by (intro that(2)) (auto split: if_splits)
  qed
qed

lemma allowS_frame:
  assumes "allowS s now cat r k = ((ok, reason), s')"
  shows "sameConfig s s'"
  using assms
proof (cases rule: allowS_cases)
  case limited
  then show ?thesis by (auto dest: consumeToken_frame(1))
next
  case (granted s1)
  then have "sameConfig s s1" by (auto simp: sameConfig_def dest: consumeToken_frame(1) split: if_splits)
  with granted show ?thesis by (simp add: sameConfig_def Let_def)
qed (simp add: sameConfig_def)

lemma allowS_buckets:
  assumes "allowS s now cat r k = ((ok, reason), s')"
  shows "buckets s' = buckets s \<or> (\<exists>ok s1. consumeToken s r now = (ok, s1) \<and> buckets s' = buckets s1)"
  using assms
proof (cases rule: allowS_cases)
  case (granted s1)
  then have "buckets s' = buckets s1" by (simp add: Let_def)
  with granted show ?thesis by (metis (full_types))
qed auto

lemma sameConfig_derived:
  assumes "sameConfig s s'"
  shows "cooldownFor s' cat = cooldownFor s cat" "maxCooldown s' = maxCooldown s"
    "evictThreshold s' = evictThreshold s"
  using assms by (simp_all add: sameConfig_def cooldownFor_def maxCooldown_def evictThreshold_def Let_def)

lemma consumeToken_inv:
  assumes "suppInv s" "clockAfter s now" "consumeToken s r now = (ok, s')"
  shows "suppInv s' \<and> clockAfter s' now"
proof -
  define b where "b = (case buckets s r of Some b \<Rightarrow> b | None \<Rightarrow> \<lparr>Tokens = burst s, Last = now\<rparr>)"
  have b: "0 \<le> Tokens b" "Last b \<le> now"
    using assms(1,2) by (auto simp: b_def suppInv_def clockAfter_def split: option.splits)
  have "0 \<le> refill s b now \<and> refill s b now \<le> burst s"
    using assms(1) b by (auto simp: refill_def suppInv_def)
  moreover have "s' = s\<lparr>buckets := (buckets s)(r \<mapsto> \<lparr>Tokens = refill s b now - (if ok then 1 else 0), Last = now\<rparr>)\<rparr>"
      "ok \<longleftrightarrow> 1 \<le> refill s b now"
    using assms(3) by (auto simp: consumeToken_def b_def Let_def split: if_splits)
  ultimately show ?thesis using assms(1,2) by (auto simp: suppInv_def clockAfter_def)
qed

lemma allowS_inv:
  assumes "suppInv s" "clockAfter s now" "allowS s now cat r k = ((ok, reason), s')"
  shows "suppInv s' \<and> clockAfter s' now"
proof -
  have "\<forall>q b. buckets s' q = Some b \<longrightarrow> 0 \<le> Tokens b \<and> Tokens b \<le> burst s \<and> Last b \<le> now"
    using allowS_buckets [OF assms(3)]
  proof
    assume "buckets s' = buckets s"
    with assms(1,2) show ?thesis by (auto simp: suppInv_def clockAfter_def)
  next
    assume "\<exists>ok s1. consumeToken s r now = (ok, s1) \<and> buckets s' = buckets s1"
    then obtain ok1 s1 where s1: "consumeToken s r now = (ok1, s1)" and b: "buckets s' = buckets s1"
      by auto
    from consumeToken_inv [OF assms(1,2) s1] consumeToken_frame(1) [OF s1] b show ?thesis
      by (auto simp: suppInv_def clockAfter_def sameConfig_def)
  qed
  with allowS_frame [OF assms(3)] assms(1) show ?thesis
    by (auto simp: suppInv_def clockAfter_def sameConfig_def)
qed

lemma clockAfter_mono: "clockAfter s t \<Longrightarrow> t \<le> t' \<Longrightarrow> clockAfter s t'"
  by (force simp: clockAfter_def)

lemma NewSuppressor_inv: "suppInv (NewSuppressor opts) \<and> clockAfter (NewSuppressor opts) now"
  by (simp add: NewSuppressor_def suppInv_def clockAfter_def Let_def second_def
      defaultProcessCooldown_def defaultFileCooldown_def defaultNetworkCooldown_def)

section \<open>The cooldown\<close>

text \<open>
  The key was last emitted at or after \<open>t\<close>, or it has been evicted and \<open>now\<close> is more
  than the eviction threshold after \<open>t\<close>.
\<close>

definition emittedAt :: "Suppressor \<Rightarrow> gotime \<Rightarrow> string \<Rightarrow> gotime \<Rightarrow> bool" where
  "emittedAt s now k t \<longleftrightarrow>
     (case lastSeen s k of Some l \<Rightarrow> t \<le> l | None \<Rightarrow> t + evictThreshold s < now)"

lemma cooldown_le_threshold: "suppInv s \<Longrightarrow> cooldownFor s cat \<le> evictThreshold s"
  by (auto simp: suppInv_def cooldownFor_def evictThreshold_def maxCooldown_def Let_def)

lemma emittedAt_mono: "emittedAt s now k t \<Longrightarrow> now \<le> now' \<Longrightarrow> emittedAt s now' k t"
  by (auto simp: emittedAt_def split: option.splits)

lemma emittedAt_evict:
  assumes "emittedAt s now k t"
  shows "emittedAt (evictStale s now) now k t"
proof -
  have "evictThreshold (evictStale s now) = evictThreshold s"
    by (simp add: evictThreshold_def maxCooldown_def Let_def)
  with assms show ?thesis by (auto simp: emittedAt_def evictStale_def split: option.splits)
qed

lemma emittedAt_step:
  assumes "emittedAt s now k t" "t \<le> now" "allowS s now cat r k' = ((ok, reason), s')"
  shows "emittedAt s' now k t"
  using assms(3)
proof (cases rule: allowS_cases)
  case limited
  then show ?thesis
    using assms(1) consumeToken_frame(1,2) [of s r now False s'] sameConfig_derived(3) [of s s']
    by (auto simp: emittedAt_def split: option.splits)
next
  case (granted s1)
  then have "lastSeen s1 = lastSeen s" "sameConfig s s1"
    by (auto simp: sameConfig_def dest: consumeToken_frame split: if_splits)
  then have "emittedAt (s1\<lparr>lastSeen := (lastSeen s1)(k' \<mapsto> now), evictCounter := n\<rparr>) now k t" for n
    using assms(1,2) by (auto simp: emittedAt_def evictThreshold_def maxCooldown_def sameConfig_def Let_def split: option.splits)
  with granted show ?thesis by (auto simp: Let_def intro: emittedAt_evict)
qed (use assms in simp)

lemma emittedAt_grant:
  assumes "allowS s now cat r k = ((True, reason), s')"
  shows "emittedAt s' now k now"
  using assms
proof (cases rule: allowS_cases)
  case (granted s1)
  have "emittedAt (s1\<lparr>lastSeen := (lastSeen s1)(k \<mapsto> now), evictCounter := n\<rparr>) now k now" for n
    by (simp add: emittedAt_def)
  with granted show ?thesis by (auto simp: Let_def intro: emittedAt_evict)
qed auto

lemma emittedAt_spacing:
  assumes "suppInv s" "emittedAt s now k t" "allowS s now cat r k = ((True, reason), s')"
  shows "cooldownFor s cat \<le> 0 \<or> cooldownFor s cat \<le> now - t"
  using assms(3)
proof (cases rule: allowS_cases)
  case (granted s1)
  with assms(2) cooldown_le_threshold [OF assms(1), of cat] show ?thesis
    by (auto simp: emittedAt_def not_le split: option.splits) force
qed auto

text \<open>From the state on, every later emission of the key keeps its distance from \<open>t\<close>.\<close>

lemma runAllow_spacing:
  assumes "suppInv s" "clockAfter s now" "emittedAt s now k t" "t \<le> now"
    and "sorted (map c_now cs)" "\<forall>c \<in> set cs. now \<le> c_now c"
    and "j < length cs" "runAllow s cs ! j" "c_key (cs ! j) = k"
  shows "cooldownFor s (c_category (cs ! j)) \<le> 0 \<or> cooldownFor s (c_category (cs ! j)) \<le> c_now (cs ! j) - t"
  using assms
proof (induction cs arbitrary: s now j)
  case Nil
  then show ?case by simp
next
  case (Cons c cs)
  obtain ok reason s' where st: "allowS s (c_now c) (c_category c) (c_rule c) (c_key c) = ((ok, reason), s')"
    by (metis surj_pair)
  have em: "emittedAt s (c_now c) k t" and ca: "clockAfter s (c_now c)"
    using Cons.prems emittedAt_mono clockAfter_mono by auto
  show ?case
  proof (cases j)
    case 0
    with Cons.prems st emittedAt_spacing [OF Cons.prems(1) em] show ?thesis by auto
  next
    case (Suc j')
    have "suppInv s'" "clockAfter s' (c_now c)" using allowS_inv [OF Cons.prems(1) ca st] by auto
    moreover have "emittedAt s' (c_now c) k t"
      using emittedAt_step [OF em _ st] Cons.prems by auto
    moreover have "t \<le> c_now c" "sorted (map c_now cs)" "\<forall>c' \<in> set cs. c_now c \<le> c_now c'"
      using Cons.prems by auto
    moreover have "j' < length cs" "runAllow s' cs ! j'" "c_key (cs ! j') = k"
      using Cons.prems st Suc by auto
    ultimately have "cooldownFor s' (c_category (cs ! j')) \<le> 0 \<or>
        cooldownFor s' (c_category (cs ! j')) \<le> c_now (cs ! j') - t"
      by (rule Cons.IH)
    with sameConfig_derived(1) [OF allowS_frame [OF st]] Suc show ?thesis by simp
  qed
qed


lemma runAllow_pairwise:
  assumes "suppInv s" "clockAfter s now"
    and "sorted (map c_now cs)" "\<forall>c \<in> set cs. now \<le> c_now c"
    and "i < j" "j < length cs" "runAllow s cs ! i" "runAllow s cs ! j"
    and "c_key (cs ! i) = c_key (cs ! j)"
  shows "cooldownFor s (c_category (cs ! j)) \<le> c_now (cs ! j) - c_now (cs ! i)"
  using assms
proof (induction cs arbitrary: s now i j)
  case Nil
  then show ?case by simp
next
  case (Cons c cs)
  obtain ok reason s' where st: "allowS s (c_now c) (c_category c) (c_rule c) (c_key c) = ((ok, reason), s')"
    by (metis surj_pair)
  have ca: "clockAfter s (c_now c)" using Cons.prems clockAfter_mono by auto
  have inv: "suppInv s'" "clockAfter s' (c_now c)" using allowS_inv [OF Cons.prems(1) ca st] by auto
  have cd: "cooldownFor s' cat = cooldownFor s cat" for cat
    using sameConfig_derived(1) [OF allowS_frame [OF st]] .
  have srt: "sorted (map c_now cs)" "\<forall>c' \<in> set cs. c_now c \<le> c_now c'" using Cons.prems by auto
  obtain j' where j: "j = Suc j'" using Cons.prems(5) by (cases j) auto
  have j': "j' < length cs" "runAllow s' cs ! j'" using Cons.prems j st by auto
  show ?case
  proof (cases i)
    case 0
    then have "ok" using Cons.prems st by auto
    with st have "emittedAt s' (c_now c) (c_key c) (c_now c)" by (auto intro: emittedAt_grant)
    moreover have "c_key (cs ! j') = c_key c" using Cons.prems 0 j by simp
    ultimately have "cooldownFor s' (c_category (cs ! j')) \<le> 0 \<or>
        cooldownFor s' (c_category (cs ! j')) \<le> c_now (cs ! j') - c_now c"
      by (intro runAllow_spacing [OF inv _ order_refl srt j']) auto
    moreover have "c_now c \<le> c_now (cs ! j')" using srt(2) j' by simp
    ultimately show ?thesis using cd 0 j by auto
  next
    case (Suc i')
    with Cons.prems j st have "i' < j'" "runAllow s' cs ! i'" "c_key (cs ! i') = c_key (cs ! j')" by auto
    from Cons.IH [OF inv srt this(1) j'(1) this(2) j'(2) this(3)] cd Suc j show ?thesis by simp
  qed
qed

section \<open>The rate limit\<close>

text \<open>The tokens the rule would have if its bucket were refilled at \<open>now\<close>.\<close>

definition available :: "Suppressor \<Rightarrow> string \<Rightarrow> gotime \<Rightarrow> rat" where
  "available s r now = (case buckets s r of None \<Rightarrow> burst s | Some b \<Rightarrow> refill s b now)"

lemma consumeToken_available:
  assumes "consumeToken s r now = (ok, s')" "0 \<le> burst s"
  shows "ok \<longleftrightarrow> 1 \<le> available s r now"
    "available s' r now = available s r now - (if ok then 1 else 0)"
  using assms
  by (auto simp: consumeToken_def available_def refill_def seconds_def Let_def min_def
      split: option.splits if_splits)

lemma available_elapse:
  assumes "0 \<le> ratePerSec s" "now \<le> now'"
  shows "available s r now' \<le> available s r now + ratePerSec s * seconds (now' - now)"
proof -
  have e: "seconds (now' - l) = seconds (now - l) + seconds (now' - now)" for l
    using seconds_add [of "now - l" "now' - now"] by simp
  have "seconds (now' - l) * ratePerSec s = seconds (now - l) * ratePerSec s + ratePerSec s * seconds (now' - now)" for l
    by (simp add: e [of l] distrib_left mult.commute)
  moreover have "0 \<le> ratePerSec s * seconds (now' - now)"
    using assms by simp
  ultimately show ?thesis
    by (auto simp: available_def refill_def min_def split: option.splits)
qed

lemma available_nonneg: "suppInv s \<Longrightarrow> clockAfter s now \<Longrightarrow> 0 \<le> available s r now"
  by (auto simp: available_def refill_def suppInv_def clockAfter_def split: option.splits)

lemma allowS_available:
  assumes "suppInv s" "0 < ratePerSec s" "r \<noteq> []"
    and "allowS s now cat r' k = ((ok, reason), s')"
  shows "available s' r now \<le> available s r now - (if ok \<and> r' = r then 1 else 0)"
  using assms(4)
proof (cases rule: allowS_cases)
  case limited
  with assms show ?thesis
    using consumeToken_available(2) [OF limited(5)] consumeToken_frame [OF limited(5)]
    by (cases "r' = r") (auto simp: available_def refill_def sameConfig_def suppInv_def split: option.splits)
next
  case (granted s1)
  have eq: "available s' r now = available s1 r now"
    using granted(5) by (auto simp: available_def refill_def Let_def split: option.splits)
  show ?thesis
  proof (cases "r' = r")
    case True
    with granted assms have "consumeToken s r now = (True, s1)" by simp
    with consumeToken_available(2) [OF this] eq assms(1) True granted show ?thesis
      by (simp add: suppInv_def)
  next
    case False
    then have "available s1 r now = available s r now"
      using granted(4) consumeToken_frame [of s r' now True s1]
      by (auto simp: available_def refill_def sameConfig_def split: if_splits option.splits)
    with eq False show ?thesis by simp
  qed
qed auto

lemma grants_Cons:
  assumes "allowS s (c_now c) (c_category c) (c_rule c) (c_key c) = ((ok, reason), s')"
  shows "grants r s (c # cs) = (if ok \<and> c_rule c = r then 1 else 0) + grants r s' cs"
  using assms by (simp add: grants_def)

lemma grants_bound:
  assumes "suppInv s" "clockAfter s now" "0 < ratePerSec s" "r \<noteq> []"
    and "sorted (map c_now cs)" "\<forall>c \<in> set cs. now \<le> c_now c \<and> c_now c \<le> tend" "now \<le> tend"
  shows "rat_of_nat (grants r s cs) \<le> available s r now + ratePerSec s * seconds (tend - now)"
  using assms
proof (induction cs arbitrary: s now)
  case Nil
  then show ?case using available_nonneg [of s now r] by (simp add: grants_def)
next
  case (Cons c cs)
  obtain ok reason s' where st: "allowS s (c_now c) (c_category c) (c_rule c) (c_key c) = ((ok, reason), s')"
    by (metis surj_pair)
  have ca: "clockAfter s (c_now c)" using Cons.prems clockAfter_mono by auto
  have inv: "suppInv s'" "clockAfter s' (c_now c)" using allowS_inv [OF Cons.prems(1) ca st] by auto
  have rate: "ratePerSec s' = ratePerSec s" using allowS_frame [OF st] by (simp add: sameConfig_def)
  have "rat_of_nat (grants r s' cs) \<le> available s' r (c_now c) + ratePerSec s' * seconds (tend - c_now c)"
    using Cons.prems rate by (intro Cons.IH inv) auto
  moreover have "available s' r (c_now c) \<le> available s r (c_now c) - (if ok \<and> c_rule c = r then 1 else 0)"
    using allowS_available [OF Cons.prems(1,3,4) st] .
  moreover have "available s r (c_now c) \<le> available s r now + ratePerSec s * seconds (c_now c - now)"
    using Cons.prems by (intro available_elapse) auto
  moreover have "ratePerSec s * seconds (tend - now)
      = ratePerSec s * seconds (tend - c_now c) + ratePerSec s * seconds (c_now c - now)"
    by (simp flip: seconds_add distrib_left)
  moreover have "rat_of_nat (grants r s (c # cs)) = (if ok \<and> c_rule c = r then 1 else 0) + rat_of_nat (grants r s' cs)"
    by (simp add: grants_Cons [OF st])
  ultimately show ?case using rate by (auto split: if_splits)
qed

lemma stateAfter_inv:
  assumes "suppInv s" "clockAfter s now" "sorted (map c_now cs)" "\<forall>c \<in> set cs. now \<le> c_now c"
    and "\<forall>c \<in> set cs. c_now c \<le> tend" "now \<le> tend"
  shows "suppInv (stateAfter s cs) \<and> clockAfter (stateAfter s cs) tend \<and> sameConfig s (stateAfter s cs)"
  using assms
proof (induction cs arbitrary: s now)
  case Nil
  then show ?case using clockAfter_mono by (auto simp: sameConfig_def)
next
  case (Cons c cs)
  obtain ok reason s' where st: "allowS s (c_now c) (c_category c) (c_rule c) (c_key c) = ((ok, reason), s')"
    by (metis surj_pair)
  have ca: "clockAfter s (c_now c)" using Cons.prems clockAfter_mono by auto
  from Cons.IH [OF allowS_inv [OF Cons.prems(1) ca st, THEN conjunct1]
      allowS_inv [OF Cons.prems(1) ca st, THEN conjunct2]] Cons.prems st allowS_frame [OF st]
  show ?case by (auto simp: sameConfig_def)
qed


section \<open>Interface to the agent\<close>

text \<open>
  What the agent relies on when it asks the gate before it writes an event: a granted event
  closes the gate for its key during a cooldown, whatever is asked in between, a denial
  always carries a reason and a grant none.
\<close>

locale emit_gate =
  fixes ask :: "'s \<Rightarrow> gotime \<Rightarrow> string \<Rightarrow> string \<Rightarrow> string \<Rightarrow> (bool \<times> string) \<times> 's"
    and ready :: "'s \<Rightarrow> gotime \<Rightarrow> bool"
    and closed :: "'s \<Rightarrow> gotime \<Rightarrow> string \<Rightarrow> gotime \<Rightarrow> bool"
    and window :: "'s \<Rightarrow> string \<Rightarrow> duration"
  assumes reason_iff: "ask s now cat r k = ((ok, reason), s') \<Longrightarrow> ok \<longleftrightarrow> reason = []"
    and ready_step: "ready s t \<Longrightarrow> t \<le> now \<Longrightarrow> ask s now cat r k = (res, s') \<Longrightarrow> ready s' now"
    and grant_closes: "ask s now cat r k = ((True, reason), s') \<Longrightarrow> closed s' now k now"
    and closed_step: "closed s t k t0 \<Longrightarrow> t0 \<le> t \<Longrightarrow> t \<le> now \<Longrightarrow> ask s now cat r k' = (res, s') \<Longrightarrow> closed s' now k t0"
    and closed_denies: "ready s t \<Longrightarrow> closed s t k t0 \<Longrightarrow> t0 \<le> t \<Longrightarrow> t \<le> now \<Longrightarrow> now - t0 < window s cat
        \<Longrightarrow> \<not> fst (fst (ask s now cat r k))"
    and window_step: "ask s now cat r k = (res, s') \<Longrightarrow> window s' cat' = window s cat'"
begin

lemma second_ask_denied:
  assumes "ready s t" "t \<le> now" "ask s now cat r k = ((True, reason), s1)"
    and "now \<le> now'" "now' - now < window s cat'"
  shows "\<exists>why s2. ask s1 now' cat' r' k = ((False, why), s2) \<and> why \<noteq> []"
proof -
  obtain ok why s2 where a: "ask s1 now' cat' r' k = ((ok, why), s2)" by (metis surj_pair)
  have "\<not> ok"
    using closed_denies [OF ready_step [OF assms(1-3)] grant_closes [OF assms(3)] order_refl assms(4),
        of cat' r'] assms(5) window_step [OF assms(3)] a by auto
  with a reason_iff [OF a] show ?thesis by auto
qed

end

definition gateReady :: "Suppressor option \<Rightarrow> gotime \<Rightarrow> bool" where
  "gateReady sp t = (case sp of None \<Rightarrow> True | Some s \<Rightarrow> suppInv s \<and> clockAfter s t)"

definition gateClosed :: "Suppressor option \<Rightarrow> gotime \<Rightarrow> string \<Rightarrow> gotime \<Rightarrow> bool" where
  "gateClosed sp t k t0 = (case sp of None \<Rightarrow> True | Some s \<Rightarrow> emittedAt s t k t0)"

definition gateWindow :: "Suppressor option \<Rightarrow> string \<Rightarrow> duration" where
  "gateWindow sp cat = (case sp of None \<Rightarrow> 0 | Some s \<Rightarrow> cooldownFor s cat)"

lemma Allow_SomeE:
  assumes "Allow sp now cat r k = ((ok, reason), sp')"
  obtains "sp = None" "sp' = None" "ok" "reason = []"
  | s s' where "sp = Some s" "sp' = Some s'" "allowS s now cat r k = ((ok, reason), s')"
  using assms by (auto simp: Allow_def split: option.splits prod.splits)

lemma allowS_reason: "allowS s now cat r k = ((ok, reason), s') \<Longrightarrow> ok \<longleftrightarrow> reason = []"
  by (erule allowS_cases) (auto simp: ReasonCooldown_def ReasonRateLimit_def)

interpretation suppressor_gate: emit_gate Allow gateReady gateClosed gateWindow
proof (unfold_locales, goal_cases)
  case (1 s now cat r k ok reason s')
  then show ?case by (cases rule: Allow_SomeE) (auto dest: allowS_reason)
next
  case (2 s t now cat r k res s')
  obtain ok reason where res: "res = (ok, reason)" by (cases res)
  from 2(3) [unfolded res] show ?case
    by (cases rule: Allow_SomeE)
      (use 2 in \<open>auto simp: gateReady_def dest: clockAfter_mono allowS_inv [rotated 2]\<close>)
next
  case (3 s now cat r k reason s')
  then show ?case by (cases rule: Allow_SomeE) (auto simp: gateClosed_def dest: emittedAt_grant)
next
  case (4 s t k t0 now cat r k' res s')
  obtain ok reason where res: "res = (ok, reason)" by (cases res)
  from 4(4) [unfolded res] show ?case
    by (cases rule: Allow_SomeE)
      (use 4 in \<open>auto simp: gateClosed_def intro: emittedAt_step [OF emittedAt_mono]\<close>)
next
  case (5 s t k t0 now cat r)
  obtain ok reason s' where a: "Allow s now cat r k = ((ok, reason), s')" by (metis surj_pair)
  then show ?case
  proof (cases rule: Allow_SomeE)
    case (2 sa sb)
    have "suppInv sa" "emittedAt sa now k t0"
      using 2 5 by (auto simp: gateReady_def gateClosed_def intro: emittedAt_mono)
    with 2 5 a show ?thesis
      using emittedAt_spacing [of sa now k t0 cat r reason sb] by (auto simp: gateWindow_def)
  qed (use 5 in \<open>auto simp: gateWindow_def\<close>)
next
  case (6 s now cat r k res s' cat')
  obtain ok reason where res: "res = (ok, reason)" by (cases res)
  from 6 [unfolded res] show ?case
    by (cases rule: Allow_SomeE)
      (auto simp: gateWindow_def dest: allowS_frame sameConfig_derived(1))
qed


section \<open>Properties\<close>

definition demoOptions :: SuppressorOptions where
  "demoOptions = \<lparr>opt_ProcessCooldown = 0, opt_FileCooldown = 0, opt_NetworkCooldown = 0,
     opt_RatePerSec = 1, opt_Burst = 2\<rparr>"

definition demoCall :: "int \<Rightarrow> string \<Rightarrow> AllowCall" where
  "demoCall t k = \<lparr>c_now = t * 1000000000, c_category = ''process'', c_rule = ''r1'', c_key = k\<rparr>"

lemmas demo_eval = demoOptions_def demoCall_def NewSuppressor_def allowS_def consumeToken_def
  refill_def seconds_def cooldownFor_def Let_def second_def defaultProcessCooldown_def
  defaultFileCooldown_def defaultNetworkCooldown_def ReasonCooldown_def ReasonRateLimit_def





lemma cooldownFor_counter: "cooldownFor (s\<lparr>evictCounter := n\<rparr>) cat = cooldownFor s cat"
  by (simp add: cooldownFor_def)

lemma consumeToken_counter:
  "consumeToken (s\<lparr>evictCounter := n\<rparr>) r now = apsnd (evictCounter_update (\<lambda>_. n)) (consumeToken s r now)"
  by (cases "buckets s r") (simp_all add: consumeToken_def refill_def Let_def)

lemma allowS_counter_irrelevant:
  assumes "allowS s now cat r k = ((ok, reason), s')" "evictCounter s + 1 < 1000" "n + 1 < 1000"
  shows "\<exists>m. allowS (s\<lparr>evictCounter := n\<rparr>) now cat r k = ((ok, reason), s'\<lparr>evictCounter := m\<rparr>)
     \<and> m \<le> n + 1 \<and> evictCounter s' \<le> evictCounter s + 1"
  using assms(1)
proof (cases rule: allowS_cases)
  case cooldown
  then show ?thesis
    by (intro exI [of _ n]) (auto simp: allowS_def Let_def cooldownFor_counter)
next
  case limited
  then have "allowS (s\<lparr>evictCounter := n\<rparr>) now cat r k = ((ok, reason), s'\<lparr>evictCounter := n\<rparr>)"
    using assms(1) by (auto simp: allowS_def Let_def cooldownFor_counter consumeToken_counter split: if_splits option.splits)
  with limited consumeToken_frame(3) [OF limited(5)] show ?thesis by auto
next
  case (granted s1)
  then have s1: "evictCounter s1 = evictCounter s"
    by (auto dest: consumeToken_frame(3) split: if_splits)
  with granted assms(2) have s': "s' = s1\<lparr>lastSeen := (lastSeen s1)(k \<mapsto> now), evictCounter := evictCounter s + 1\<rparr>"
    by (simp add: Let_def)
  have "allowS (s\<lparr>evictCounter := n\<rparr>) now cat r k
      = ((True, []), s1\<lparr>lastSeen := (lastSeen s1)(k \<mapsto> now), evictCounter := n + 1\<rparr>)"
    using granted assms(3)
    by (auto simp: allowS_def Let_def cooldownFor_counter consumeToken_counter split: option.splits if_splits)
  with granted(1,2) show ?thesis by (intro exI [of _ "n + 1"]) (simp add: s')
qed

lemma runAllow_counter_irrelevant:
  assumes "evictCounter s + length cs < 1000" "n + length cs < 1000"
  shows "runAllow (s\<lparr>evictCounter := n\<rparr>) cs = runAllow s cs"
  using assms
proof (induction cs arbitrary: s n)
  case Nil
  then show ?case by simp
next
  case (Cons c cs)
  obtain ok reason s' where st: "allowS s (c_now c) (c_category c) (c_rule c) (c_key c) = ((ok, reason), s')"
    by (metis surj_pair)
  from allowS_counter_irrelevant [OF st, of n] Cons.prems obtain m where
    m: "allowS (s\<lparr>evictCounter := n\<rparr>) (c_now c) (c_category c) (c_rule c) (c_key c) = ((ok, reason), s'\<lparr>evictCounter := m\<rparr>)"
      "m \<le> n + 1" "evictCounter s' \<le> evictCounter s + 1" by auto
  with Cons.prems have "runAllow (s'\<lparr>evictCounter := m\<rparr>) cs = runAllow s' cs"
    by (intro Cons.IH) auto
  with st m show ?case by simp
qed

text \<open>
  A restart does not reopen the gate.  When the state file is written and read
  back by a codec that returns what was encoded, a suppressor with the same configuration
  answers every sequence of calls exactly as the one that was saved would have (the count
  of calls since the last sweep is not saved, so the calls are fewer than the sweep interval).
\<close>

theorem saved_state_survives_restart:
  assumes "marshal \<lparr>LastSeen = Some (lastSeen s), BucketTokens = Some (buckets s)\<rparr> = Some raw"
    and "unmarshal raw = Some \<lparr>LastSeen = Some (lastSeen s), BucketTokens = Some (buckets s)\<rparr>"
    and "sameConfig s fresh" "evictCounter s + length cs < 1000" "evictCounter fresh + length cs < 1000"
  shows "\<exists>restored. SaveState marshal True None (Some s) file = (None, Some raw)
     \<and> LoadState unmarshal False (Some raw) (Some fresh) = (None, Some restored)
     \<and> runAllow restored cs = runAllow s cs"
proof -
  have "fresh\<lparr>lastSeen := lastSeen s, buckets := buckets s\<rparr> = s\<lparr>evictCounter := evictCounter fresh\<rparr>"
    using assms(3) by (cases s; cases fresh) (simp add: sameConfig_def)
  with assms(1,2) runAllow_counter_irrelevant [OF assms(4,5)] show ?thesis
    by (simp add: SaveState_def LoadState_def)
qed

theorem saved_state_survives_restart_witness:
  "\<exists>restored. SaveState (\<lambda>_. Some ''state'') True None
        (Some (stateAfter (NewSuppressor demoOptions) [demoCall 0 ''k''])) None = (None, Some ''state'')
     \<and> LoadState (\<lambda>_. Some \<lparr>LastSeen = Some (lastSeen (stateAfter (NewSuppressor demoOptions) [demoCall 0 ''k''])),
            BucketTokens = Some (buckets (stateAfter (NewSuppressor demoOptions) [demoCall 0 ''k'']))\<rparr>)
          False (Some ''state'') (Some (NewSuppressor demoOptions)) = (None, Some restored)
     \<and> runAllow restored [demoCall 1 ''k''] = [False]"
proof -
  let ?s = "stateAfter (NewSuppressor demoOptions) [demoCall 0 ''k'']"
  have "runAllow ?s [demoCall 1 ''k''] = [False]" by (simp add: demo_eval)
  moreover have "sameConfig ?s (NewSuppressor demoOptions)" "evictCounter ?s = 1"
      "evictCounter (NewSuppressor demoOptions) = 0"
    by (simp_all add: demo_eval sameConfig_def)
  ultimately show ?thesis
    using saved_state_survives_restart [of "\<lambda>_. Some ''state''" ?s "''state''" 
        "\<lambda>_. Some \<lparr>LastSeen = Some (lastSeen ?s), BucketTokens = Some (buckets ?s)\<rparr>"
        "NewSuppressor demoOptions" "[demoCall 1 ''k'']" None]
    by (simp del: runAllow.simps stateAfter.simps)
qed

end
