(* ===== verification/Filesys.thy ===== *)
theory Filesys
  imports Prelude
begin

text \<open>
  The part of the operating system the agent's logs live in: a store of regular files, from
  path to contents, with the operations of package \<open>os\<close> the sources call (read, write,
  append, remove, rename, list a directory).  Paths are compared as text, as the sources
  use them; permissions and directories as objects are not modelled, and failures of a
  call are arguments of the operations that make it.  Also the dynamically typed values
  (\<open>any\<close>) that events carry.
\<close>

section \<open>Dynamically typed values\<close>

datatype anyv =
    VStr string
  | VInt int
  | VInt64 int
  | VI32 int
  | VU32 "32 word"
  | VU64 "64 word"
  | VBool bool
  | VTime gotime
  | VZeroTime
  | VStruct "(string \<times> anyv) list"
  | VList "anyv list"

text \<open>A \<open>map[string]any\<close>, which may be nil.\<close>

type_synonym gomap = "(string \<times> anyv) list option"

definition lookupAny :: "gomap \<Rightarrow> string \<Rightarrow> anyv option" where
  "lookupAny m k = (case m of None \<Rightarrow> None | Some kvs \<Rightarrow> map_of kvs k)"

text \<open>The type assertions \<open>m[k].(string)\<close> and \<open>m[k].(int)\<close>.\<close>

definition getStr :: "gomap \<Rightarrow> string \<Rightarrow> string option" where
  "getStr m k = (case lookupAny m k of Some (VStr s) \<Rightarrow> Some s | _ \<Rightarrow> None)"

definition getInt :: "gomap \<Rightarrow> string \<Rightarrow> int option" where
  "getInt m k = (case lookupAny m k of Some (VInt i) \<Rightarrow> Some i | _ \<Rightarrow> None)"

section \<open>Files\<close>

type_synonym filesys = "(string \<times> string) list"

definition fsGet :: "filesys \<Rightarrow> string \<Rightarrow> string option" where
  "fsGet fs p = map_of fs p"

definition fsDel :: "filesys \<Rightarrow> string \<Rightarrow> filesys" where
  "fsDel fs p = filter (\<lambda>qc. fst qc \<noteq> p) fs"

definition fsPut :: "filesys \<Rightarrow> string \<Rightarrow> string \<Rightarrow> filesys" where
  "fsPut fs p c = (p, c) # fsDel fs p"

definition fsAppend :: "filesys \<Rightarrow> string \<Rightarrow> string \<Rightarrow> filesys" where
  "fsAppend fs p c = fsPut fs p ((case fsGet fs p of None \<Rightarrow> [] | Some old \<Rightarrow> old) @ c)"

text \<open>\<^term>\<open>None\<close>: the source does not exist.\<close>

definition fsRename :: "filesys \<Rightarrow> string \<Rightarrow> string \<Rightarrow> filesys option" where
  "fsRename fs a b = (case fsGet fs a of None \<Rightarrow> None | Some c \<Rightarrow> Some (fsPut (fsDel fs a) b c))"

text \<open>
  The names of the files in a directory, each once.  The directory \<open>.\<close> holds the paths
  without a slash; the empty path names no directory.
\<close>

definition nameIn :: "string \<Rightarrow> string \<Rightarrow> string option" where
  "nameIn dir p =
     (if dir = ''.'' then (if CHR ''/'' \<in> set p then None else Some p)
      else if dir \<noteq> [] \<and> hasPrefix p (dir @ ''/'') \<and> CHR ''/'' \<notin> set (drop (length dir + 1) p)
      then Some (drop (length dir + 1) p) else None)"

definition readDir :: "filesys \<Rightarrow> string \<Rightarrow> string list" where
  "readDir fs dir = remdups (List.map_filter (nameIn dir) (map fst fs))"

text \<open>What the logs need of the store, whatever it is.\<close>

locale file_store =
  fixes get :: "'fs \<Rightarrow> string \<Rightarrow> string option"
    and put :: "'fs \<Rightarrow> string \<Rightarrow> string \<Rightarrow> 'fs"
    and del :: "'fs \<Rightarrow> string \<Rightarrow> 'fs"
  assumes get_put: "get (put fs p c) q = (if q = p then Some c else get fs q)"
    and get_del: "get (del fs p) q = (if q = p then None else get fs q)"
begin

definition rename :: "'fs \<Rightarrow> string \<Rightarrow> string \<Rightarrow> 'fs" where
  "rename fs a b = (case get fs a of None \<Rightarrow> fs | Some c \<Rightarrow> put (del fs a) b c)"

lemma get_rename:
  "get fs a = Some c \<Longrightarrow> get (rename fs a b) q = (if q = b then Some c else if q = a then None else get fs q)"
  by (simp add: rename_def get_put get_del)

lemma rename_missing: "get fs a = None \<Longrightarrow> rename fs a b = fs"
  by (simp add: rename_def)

lemma get_append:
  "get (put fs p ((case get fs p of None \<Rightarrow> [] | Some old \<Rightarrow> old) @ c)) q
     = (if q = p then Some ((case get fs p of None \<Rightarrow> [] | Some old \<Rightarrow> old) @ c) else get fs q)"
  by (simp add: get_put)

end

lemma fsGet_Nil [simp]: "fsGet [] q = None"
  by (simp add: fsGet_def)

lemma fsGet_del: "fsGet (fsDel fs p) q = (if q = p then None else fsGet fs q)"
  by (induction fs) (auto simp: fsGet_def fsDel_def)

interpretation disk: file_store fsGet fsPut fsDel
proof unfold_locales
  show "fsGet (fsPut fs p c) q = (if q = p then Some c else fsGet fs q)" for fs p c q
    using fsGet_del [of fs p q] by (simp add: fsGet_def fsPut_def)
qed (rule fsGet_del)

lemma fsGet_put [simp]: "fsGet (fsPut fs p c) q = (if q = p then Some c else fsGet fs q)"
  by (rule disk.get_put)

lemma fsGet_append [simp]:
  "fsGet (fsAppend fs p c) q
     = (if q = p then Some ((case fsGet fs p of None \<Rightarrow> [] | Some old \<Rightarrow> old) @ c) else fsGet fs q)"
  unfolding fsAppend_def by (rule disk.get_append)

lemma fsRename_get:
  assumes "fsRename fs a b = Some fs'"
  shows "fsGet fs' q = (if q = b then fsGet fs a else if q = a then None else fsGet fs q)"
proof -
  from assms obtain c where c: "fsGet fs a = Some c" "fs' = disk.rename fs a b"
    by (auto simp: fsRename_def disk.rename_def split: option.splits)
  then show ?thesis by (simp add: disk.get_rename)
qed

lemma fsRename_None [simp]: "fsRename fs a b = None \<longleftrightarrow> fsGet fs a = None"
  by (auto simp: fsRename_def split: option.splits)

lemma dom_fsGet: "fst ` set fs = dom (fsGet fs)"
  by (simp add: fsGet_def [abs_def] dom_map_of_conv_image_fst)

lemma set_readDir: "set (readDir fs dir) = {n. \<exists>p \<in> dom (fsGet fs). nameIn dir p = Some n}"
  by (auto simp: readDir_def List.map_filter_def dom_fsGet [symmetric] image_iff
      intro!: bexI split: option.splits) force

lemma distinct_readDir [simp]: "distinct (readDir fs dir)"
  by (simp add: readDir_def)

lemma nameIn_Some:
  assumes "dir \<noteq> []" "dir \<noteq> ''.''" "CHR ''/'' \<notin> set name"
  shows "nameIn dir p = Some name \<longleftrightarrow> p = dir @ ''/'' @ name"
  using assms by (auto simp: nameIn_def hasPrefix_def prefix_def)

section \<open>Lines\<close>

text \<open>
  \<open>bufio.Scanner\<close> over lines with a buffer of \<open>limit\<close> bytes: a line of \<open>limit\<close> bytes or
  more stops the scan; one carriage return before the newline is dropped.
\<close>

definition nl :: char where [gostr]: "nl = char_of (10 :: nat)"
definition cr :: char where [gostr]: "cr = char_of (13 :: nat)"

definition linesOf :: "string \<Rightarrow> string list" where
  "linesOf s = (let ps = splitC nl s in if last ps = [] then butlast ps else ps)"

definition dropCR :: "string \<Rightarrow> string" where
  "dropCR l = (if l \<noteq> [] \<and> last l = cr then butlast l else l)"

definition scanLines :: "nat \<Rightarrow> string \<Rightarrow> string list" where
  "scanLines limit s = map dropCR (takeWhile (\<lambda>l. length l < limit) (linesOf s))"

text \<open>The text of a list of lines, each ended by a newline.\<close>

definition unlines :: "string list \<Rightarrow> string" where
  "unlines ls = concat (map (\<lambda>l. l @ [nl]) ls)"

lemma unlines_simps [simp]: "unlines [] = []" "unlines (l # ls) = l @ nl # unlines ls"
  "unlines (ls @ ms) = unlines ls @ unlines ms"
  by (simp_all add: unlines_def)

lemma splitC_line: "c \<notin> set l \<Longrightarrow> splitC c (l @ c # s) = l # splitC c s"
  by (induction l) auto

lemma splitC_unlines: "\<forall>l \<in> set ls. nl \<notin> set l \<Longrightarrow> splitC nl (unlines ls) = ls @ [[]]"
  by (induction ls) (auto simp: splitC_line)

lemma linesOf_unlines: "\<forall>l \<in> set ls. nl \<notin> set l \<Longrightarrow> linesOf (unlines ls) = ls"
  by (simp add: linesOf_def splitC_unlines Let_def)

lemma scanLines_unlines:
  assumes "\<forall>l \<in> set ls. nl \<notin> set l \<and> cr \<notin> set l \<and> length l < limit"
  shows "scanLines limit (unlines ls) = ls"
proof -
  have "dropCR l = l" if "l \<in> set ls" for l
    using assms that unfolding dropCR_def by (metis last_in_set)
  with assms show ?thesis
    by (auto simp: scanLines_def linesOf_unlines takeWhile_eq_all_conv [THEN iffD2] map_idI)
qed

lemma splitC_joinS:
  "ps \<noteq> [] \<Longrightarrow> \<forall>p \<in> set ps. c \<notin> set p \<Longrightarrow> splitC c (joinS [c] ps) = ps"
proof (induction "[c]" ps rule: joinS.induct)
  case (2 x)
  have "c \<notin> set l \<Longrightarrow> splitC c l = [l]" for l by (induction l) auto
  with 2 show ?case by simp
qed (auto simp: splitC_line)

end
