(* ===== verification/EventChain.thy ===== *)
theory EventChain
  imports Filesys
begin

text \<open>
  The hash chain of the event log, \<open>src/internal/eventlog/integrity.go\<close>, and the event
  type of \<open>src/internal/eventlog/event.go\<close>.  SHA-256, HMAC and the JSON codec are fields
  of a record of library functions: the chain needs only what they promise, and no
  function has the collision resistance the chain rests on.
\<close>

section \<open>Events and the library functions\<close>

record Event =
  e_SchemaVersion :: string
  e_IntegrityVersion :: string
  e_ChainID :: string
  e_Seq :: "64 word"
  e_PrevHash :: string
  e_Hash :: string
  e_HMAC :: string
  e_Timestamp :: "gotime option"  \<comment> \<open>\<^term>\<open>None\<close>: the zero time\<close>
  e_EventID :: string
  e_Host :: string
  e_Category :: string
  e_Severity :: string
  e_Subject :: gomap
  e_Object :: gomap
  e_Action :: string
  e_Decision :: string
  e_RuleID :: string
  e_Evidence :: gomap

definition zeroEvent :: Event where
  "zeroEvent = \<lparr>e_SchemaVersion = [], e_IntegrityVersion = [], e_ChainID = [], e_Seq = 0, e_PrevHash = [],
     e_Hash = [], e_HMAC = [], e_Timestamp = None, e_EventID = [], e_Host = [], e_Category = [],
     e_Severity = [], e_Subject = None, e_Object = None, e_Action = [], e_Decision = [], e_RuleID = [],
     e_Evidence = None\<rparr>"

record ChainState =
  cs_ChainID :: string
  cs_LastSeq :: "64 word"
  cs_LastHash :: string
  cs_LastHMAC :: string
  cs_Algorithm :: string
  cs_LegacyAck :: bool
  cs_HasHMACKey :: bool

definition zeroChainState :: ChainState where
  "zeroChainState = \<lparr>cs_ChainID = [], cs_LastSeq = 0, cs_LastHash = [], cs_LastHMAC = [],
     cs_Algorithm = [], cs_LegacyAck = False, cs_HasHMACKey = False\<rparr>"

text \<open>
  The functions of the standard library: the hexadecimal SHA-256 digest, the hexadecimal
  HMAC-SHA-256 of a key and a message, \<open>json.Marshal\<close> and \<open>json.Unmarshal\<close> (\<^term>\<open>Inl\<close> the
  error text) of events and chain states, the values a \<open>json.Decoder\<close> returns from a
  stream with the error that ends it (\<^term>\<open>None\<close> at the end of the stream), and
  \<open>Format(time.RFC3339)\<close>.
\<close>

record Lib =
  sha256hex :: "string \<Rightarrow> string"
  hmacHex :: "string \<Rightarrow> string \<Rightarrow> string"
  marshalEvent :: "Event \<Rightarrow> string option"
  unmarshalEvent :: "string \<Rightarrow> string + Event"
  decodeStream :: "string \<Rightarrow> string list \<times> string option"
  marshalState :: "ChainState \<Rightarrow> string option"
  unmarshalState :: "string \<Rightarrow> ChainState option"
  rfc3339 :: "gotime \<Rightarrow> string"

definition IntegrityVersion :: string where "IntegrityVersion = ''v0.15''"

record IntegrityOptions =
  io_EnableChain :: bool
  io_Algorithm :: string
  io_Key :: string
  io_StatePath :: string

definition algorithm :: "IntegrityOptions \<Rightarrow> string" where
  "algorithm opts = (if io_Algorithm opts = [] then ''sha256'' else io_Algorithm opts)"

definition statePathFor :: "IntegrityOptions \<Rightarrow> string \<Rightarrow> string" where
  "statePathFor opts eventPath = (if io_StatePath opts \<noteq> [] then io_StatePath opts else eventPath @ ''.state'')"

datatype chain_error =
    UnsupportedAlgorithm string
  | MarshalError
  | ChainDisabled
  | IOError string

section \<open>The state file\<close>

text \<open>\<open>readFault\<close>: reading fails for another reason than a missing file.\<close>

definition loadState :: "Lib \<Rightarrow> bool \<Rightarrow> filesys \<Rightarrow> string \<Rightarrow> chain_error + ChainState" where
  "loadState lib readFault fs path =
     (if readFault then Inl (IOError ''read'')
      else (case fsGet fs path of
              None \<Rightarrow> Inr zeroChainState
            | Some b \<Rightarrow>
                if b = [] then Inr zeroChainState
                else (case unmarshalState lib b of
                        None \<Rightarrow> Inl (IOError ''parse chain state'')
                      | Some s \<Rightarrow> Inr s)))"

text \<open>What goes wrong when the state is saved: nothing, or one of the calls in turn; a failed write leaves part of the file.\<close>

datatype save_fault = SaveOK | SaveMkdir | SaveWrite nat | SaveRename

definition saveState :: "Lib \<Rightarrow> save_fault \<Rightarrow> filesys \<Rightarrow> string \<Rightarrow> ChainState \<Rightarrow> chain_error option \<times> filesys" where
  "saveState lib fault fs path s =
     (if fault = SaveMkdir then (Some (IOError ''mkdir''), fs)
      else (case marshalState lib s of
              None \<Rightarrow> (Some MarshalError, fs)
            | Some raw \<Rightarrow>
                (let tmp = path @ ''.tmp'' in
                 case fault of
                   SaveWrite n \<Rightarrow> (Some (IOError ''write''), fsPut fs tmp (take n raw))
                 | SaveRename \<Rightarrow> (Some (IOError ''rename''), fsDel (fsPut fs tmp raw) tmp)
                 | _ \<Rightarrow> (case fsRename (fsPut fs tmp raw) tmp path of
                           Some fs' \<Rightarrow> (None, fs')
                         | None \<Rightarrow> (Some (IOError ''rename''), fsDel (fsPut fs tmp raw) tmp)))))"

definition parentDir :: "string \<Rightarrow> string" where
  "parentDir p = (case lastIndexC (CHR ''/'') p of Some i \<Rightarrow> take i p | None \<Rightarrow> ''.'')"

section \<open>Sealing\<close>

definition stripIntegrity :: "Event \<Rightarrow> Event" where
  "stripIntegrity e = e\<lparr>e_Hash := [], e_HMAC := []\<rparr>"

definition chainEventBytes :: "Lib \<Rightarrow> Event \<Rightarrow> string option" where
  "chainEventBytes lib e = marshalEvent lib (stripIntegrity e)"

definition newHasher :: "string \<Rightarrow> bool" where
  "newHasher algo = (algo = [] \<or> algo = ''sha256'')"

text \<open>\<open>rnd\<close>: 16 random bytes in hexadecimal, \<^term>\<open>None\<close> when the source of randomness fails.\<close>

definition newChainID :: "string option \<Rightarrow> string" where
  "newChainID rnd = (case rnd of None \<Rightarrow> ''edr-chain-fallback'' | Some h \<Rightarrow> ''edr-'' @ h)"

text \<open>The line to write, the next state, and the event as \<open>sealChain\<close> leaves it in its argument.\<close>

definition sealChain :: "Lib \<Rightarrow> string option \<Rightarrow> ChainState \<Rightarrow> Event \<Rightarrow> string \<Rightarrow> string
    \<Rightarrow> chain_error + string \<times> ChainState \<times> Event" where
  "sealChain lib rnd state e key algo =
     (if \<not> newHasher algo then Inl (UnsupportedAlgorithm algo)
      else
        (let state = (if cs_ChainID state = [] then state\<lparr>cs_ChainID := newChainID rnd\<rparr> else state);
             state = (if cs_Algorithm state = [] then state\<lparr>cs_Algorithm := algo\<rparr> else state);
             state = state\<lparr>cs_LastSeq := cs_LastSeq state + 1\<rparr>;
             e = e\<lparr>e_IntegrityVersion := IntegrityVersion, e_ChainID := cs_ChainID state,
                   e_Seq := cs_LastSeq state, e_PrevHash := cs_LastHash state\<rparr>
         in case chainEventBytes lib e of
              None \<Rightarrow> Inl MarshalError
            | Some payload \<Rightarrow>
                (let digest = sha256hex lib (cs_LastHash state @ payload);
                     e = e\<lparr>e_Hash := digest\<rparr>;
                     e = (if key \<noteq> [] then e\<lparr>e_HMAC := hmacHex lib key digest\<rparr> else e);
                     state = (if key \<noteq> [] then state\<lparr>cs_LastHMAC := e_HMAC e, cs_HasHMACKey := True\<rparr> else state)
                 in case marshalEvent lib e of
                      None \<Rightarrow> Inl MarshalError
                    | Some out \<Rightarrow> Inr (out @ [nl], state\<lparr>cs_LastHash := digest\<rparr>, e))))"

definition recomputeHash :: "Lib \<Rightarrow> Event \<Rightarrow> string \<Rightarrow> string option" where
  "recomputeHash lib e prevHash =
     (case chainEventBytes lib e of
        None \<Rightarrow> None
      | Some payload \<Rightarrow> Some (sha256hex lib (prevHash @ payload)))"

section \<open>Verification\<close>

record IntegrityIssue =
  i_Line :: nat
  i_Seq :: "64 word"
  i_Kind :: string
  i_Detail :: string
  i_Expected :: string
  i_Actual :: string

record LegacySegment =
  FromLine :: nat
  ToLine :: nat
  Count :: nat

record VerifyResult =
  OK :: bool
  vr_ChainID :: string
  LastSeq :: "64 word"
  LastHash :: string
  vr_Algorithm :: string
  vr_HasHMACKey :: bool
  LinesScanned :: nat
  ChainLines :: nat
  LegacyLines :: nat
  LegacySegments :: "LegacySegment list"
  Issues :: "IntegrityIssue list"

definition zeroVerifyResult :: VerifyResult where
  "zeroVerifyResult = \<lparr>OK = False, vr_ChainID = [], LastSeq = 0, LastHash = [], vr_Algorithm = [],
     vr_HasHMACKey = False, LinesScanned = 0, ChainLines = 0, LegacyLines = 0, LegacySegments = [], Issues = []\<rparr>"

text \<open>The result under construction and the five values \<open>verifyOneFile\<close> threads through the files.\<close>

record VerifyState =
  v_res :: VerifyResult
  v_prevHash :: string
  v_currentSeq :: "64 word"
  v_chainOpen :: bool
  v_legacyOpen :: "LegacySegment option"
  v_line :: nat

definition issue :: "nat \<Rightarrow> string \<Rightarrow> string \<Rightarrow> IntegrityIssue" where
  "issue l kind detail = \<lparr>i_Line = l, i_Seq = 0, i_Kind = kind, i_Detail = detail, i_Expected = [], i_Actual = []\<rparr>"

definition addIssue :: "IntegrityIssue \<Rightarrow> VerifyState \<Rightarrow> VerifyState" where
  "addIssue i v = v\<lparr>v_res := (v_res v)\<lparr>Issues := Issues (v_res v) @ [i]\<rparr>\<rparr>"

definition extendLegacy :: "VerifyState \<Rightarrow> VerifyState" where
  "extendLegacy v =
     v\<lparr>v_legacyOpen := Some (case v_legacyOpen v of
         Some seg \<Rightarrow> seg\<lparr>ToLine := v_line v, Count := Count seg + 1\<rparr>
       | None \<Rightarrow> \<lparr>FromLine = v_line v, ToLine = v_line v, Count = 1\<rparr>)\<rparr>"

definition closeLegacy :: "VerifyState \<Rightarrow> VerifyState" where
  "closeLegacy v =
     (case v_legacyOpen v of
        None \<Rightarrow> v
      | Some seg \<Rightarrow> v\<lparr>v_res := (v_res v)\<lparr>LegacySegments := LegacySegments (v_res v) @ [seg]\<rparr>, v_legacyOpen := None\<rparr>)"

definition checkPrev :: "Event \<Rightarrow> VerifyState \<Rightarrow> VerifyState" where
  "checkPrev e v =
     (if e_PrevHash e \<noteq> v_prevHash v
      then addIssue \<lparr>i_Line = v_line v, i_Seq = e_Seq e, i_Kind = ''prev_hash_break'',
             i_Detail = ''prev_hash does not match predecessor'', i_Expected = v_prevHash v, i_Actual = e_PrevHash e\<rparr> v
      else v)"

definition checkHash :: "Lib \<Rightarrow> Event \<Rightarrow> VerifyState \<Rightarrow> VerifyState" where
  "checkHash lib e v =
     (case recomputeHash lib e (v_prevHash v) of
        None \<Rightarrow> addIssue \<lparr>i_Line = v_line v, i_Seq = e_Seq e, i_Kind = ''malformed'', i_Detail = ''marshal'',
                  i_Expected = [], i_Actual = []\<rparr> v
      | Some expected \<Rightarrow>
          if expected \<noteq> e_Hash e
          then addIssue \<lparr>i_Line = v_line v, i_Seq = e_Seq e, i_Kind = ''hash_mismatch'', i_Detail = [],
                 i_Expected = expected, i_Actual = e_Hash e\<rparr> v
          else v)"

definition checkHMAC :: "Lib \<Rightarrow> string \<Rightarrow> Event \<Rightarrow> VerifyState \<Rightarrow> VerifyState" where
  "checkHMAC lib key e v =
     (if key \<noteq> [] \<and> hmacHex lib key (e_Hash e) \<noteq> e_HMAC e
      then addIssue \<lparr>i_Line = v_line v, i_Seq = e_Seq e, i_Kind = ''hmac_mismatch'', i_Detail = [],
             i_Expected = hmacHex lib key (e_Hash e), i_Actual = e_HMAC e\<rparr> v
      else v)"

text \<open>The body of the decoding loop for one JSON value.\<close>

definition verifyLine :: "Lib \<Rightarrow> string \<Rightarrow> string \<Rightarrow> VerifyState \<Rightarrow> VerifyState" where
  "verifyLine lib key raw v0 =
     (let v = v0\<lparr>v_line := v_line v0 + 1, v_res := (v_res v0)\<lparr>LinesScanned := LinesScanned (v_res v0) + 1\<rparr>\<rparr> in
      case unmarshalEvent lib raw of
        Inl err \<Rightarrow> extendLegacy (addIssue (issue (v_line v) ''malformed'' err) v)
      | Inr e \<Rightarrow>
          if e_IntegrityVersion e \<noteq> IntegrityVersion
          then (extendLegacy (v\<lparr>v_res := (v_res v)\<lparr>LegacyLines := LegacyLines (v_res v) + 1\<rparr>\<rparr>))\<lparr>v_chainOpen := False\<rparr>
          else
            (let v = (closeLegacy v)\<lparr>v_chainOpen := True\<rparr>;
                 v = v\<lparr>v_res := (v_res v)\<lparr>ChainLines := ChainLines (v_res v) + 1\<rparr>\<rparr>;
                 v = checkHMAC lib key e (checkHash lib e (checkPrev e v))
             in v\<lparr>v_prevHash := e_Hash e, v_currentSeq := e_Seq e,
                  v_res := (v_res v)\<lparr>vr_Algorithm := e_IntegrityVersion e\<rparr>\<rparr>))"

fun verifyLines :: "Lib \<Rightarrow> string \<Rightarrow> string list \<Rightarrow> VerifyState \<Rightarrow> VerifyState" where
  "verifyLines lib key [] v = v"
| "verifyLines lib key (raw # raws) v = verifyLines lib key raws (verifyLine lib key raw v)"

definition verifyOneFile :: "Lib \<Rightarrow> filesys \<Rightarrow> string \<Rightarrow> string \<Rightarrow> VerifyState \<Rightarrow> VerifyState" where
  "verifyOneFile lib fs key fpath v =
     (case fsGet fs fpath of
        None \<Rightarrow> addIssue (issue (v_line v + 1) ''malformed''
                  (''open '' @ fpath @ '': open '' @ fpath @ '': no such file or directory'')) v
      | Some content \<Rightarrow>
          (case decodeStream lib content of
             (raws, err) \<Rightarrow>
               (let v' = verifyLines lib key raws v in
                case err of
                  None \<Rightarrow> v'
                | Some msg \<Rightarrow> addIssue (issue (v_line v' + 1) ''malformed'' msg) v')))"

text \<open>The numbers of the rotated files, largest first, then the file itself.\<close>

definition rotationNumber :: "string \<Rightarrow> string \<Rightarrow> int option" where
  "rotationNumber base name =
     (if \<not> hasPrefix name (base @ ''.'') \<or> name = base then None
      else (case atoi (drop (length base + 1) name) of
              Some n \<Rightarrow> if n > 0 then Some n else None
            | None \<Rightarrow> None))"

definition rotatedFiles :: "filesys \<Rightarrow> string \<Rightarrow> string list" where
  "rotatedFiles fs path =
     (let dir = parentDir path;
          base = (if dir \<noteq> ''.'' then drop (length dir + 1) path else path)
      in if dir = [] then []
         else
           (let nums = List.map_filter (rotationNumber base) (readDir fs dir)
            in map (\<lambda>n. path @ ''.'' @ itoa n) (rev (sort nums))
               @ (if fsGet fs path \<noteq> None then [path] else [])))"

definition initialVerifyState :: "string \<Rightarrow> VerifyState" where
  "initialVerifyState key = \<lparr>v_res = zeroVerifyResult\<lparr>vr_HasHMACKey := key \<noteq> []\<rparr>, v_prevHash = [],
     v_currentSeq = 0, v_chainOpen = False, v_legacyOpen = None, v_line = 0\<rparr>"

text \<open>\<open>dirFault\<close>: the directory exists and cannot be listed.\<close>

definition Verify :: "Lib \<Rightarrow> bool \<Rightarrow> filesys \<Rightarrow> string \<Rightarrow> string \<Rightarrow> chain_error + VerifyResult" where
  "Verify lib dirFault fs path key =
     (if dirFault \<and> parentDir path \<noteq> [] then Inl (IOError ''readdir'')
      else
        (let files = rotatedFiles fs path;
             v0 = initialVerifyState key
         in if files = [] then Inr ((v_res v0)\<lparr>OK := True\<rparr>)
            else
              (let v = closeLegacy (fold (verifyOneFile lib fs key) files v0);
                   res = (v_res v)\<lparr>vr_ChainID := [], LastHash := v_prevHash v, LastSeq := v_currentSeq v\<rparr>
               in Inr (res\<lparr>OK := (Issues res = [])\<rparr>))))"

text \<open>The verdict on one line: overall, sequence number, hash, HMAC.\<close>

definition VerifyOne :: "Lib \<Rightarrow> string \<Rightarrow> string \<Rightarrow> bool \<times> 64 word \<times> bool \<times> bool" where
  "VerifyOne lib line key =
     (if line = [] then (True, 0, True, True)
      else (case unmarshalEvent lib line of
              Inl _ \<Rightarrow> (False, 0, False, False)
            | Inr e \<Rightarrow>
                if e_IntegrityVersion e \<noteq> IntegrityVersion then (True, e_Seq e, True, True)
                else (case recomputeHash lib e (e_PrevHash e) of
                        None \<Rightarrow> (False, e_Seq e, False, False)
                      | Some expected \<Rightarrow>
                          (let hashMatch = (expected = e_Hash e);
                               hmacMatch = (key = [] \<or> hmacHex lib key (e_Hash e) = e_HMAC e)
                           in (hashMatch \<and> hmacMatch, e_Seq e, hashMatch, hmacMatch)))))"


section \<open>The chain writer\<close>

record chainWriter =
  cw_enabled :: bool
  cw_key :: string
  cw_algo :: string
  cw_state :: ChainState
  cw_statePth :: string

text \<open>What the writer reports through \<open>onError\<close>.\<close>

datatype report = LoadFailed chain_error | StateRecovered | SaveFailed chain_error

definition recoverStep :: "Lib \<Rightarrow> string \<Rightarrow> string \<Rightarrow> string \<Rightarrow> ChainState option \<Rightarrow> ChainState option" where
  "recoverStep lib key algo line found =
     (case unmarshalEvent lib line of
        Inl _ \<Rightarrow> found
      | Inr ev \<Rightarrow>
          if e_IntegrityVersion ev \<noteq> IntegrityVersion then found
          else if e_Hash ev = [] \<or> e_ChainID ev = [] then found
          else Some \<lparr>cs_ChainID = e_ChainID ev, cs_LastSeq = e_Seq ev, cs_LastHash = e_Hash ev,
                     cs_LastHMAC = e_HMAC ev, cs_Algorithm = algo, cs_LegacyAck = False,
                     cs_HasHMACKey = (key \<noteq> [])\<rparr>)"

definition recoverFile :: "Lib \<Rightarrow> filesys \<Rightarrow> string \<Rightarrow> string \<Rightarrow> string \<Rightarrow> ChainState option \<Rightarrow> ChainState option" where
  "recoverFile lib fs key algo fpath found =
     (case fsGet fs fpath of
        None \<Rightarrow> found
      | Some content \<Rightarrow> fold (recoverStep lib key algo) (scanLines (2 ^ 20) content) found)"

definition recoverFromLog :: "Lib \<Rightarrow> bool \<Rightarrow> filesys \<Rightarrow> string \<Rightarrow> string \<Rightarrow> string \<Rightarrow> ChainState option" where
  "recoverFromLog lib dirFault fs key algo logPath =
     fold (recoverFile lib fs key algo)
       ((if dirFault \<and> parentDir logPath \<noteq> [] then [] else rotatedFiles fs logPath) @ [logPath]) None"

definition newChainWriter :: "Lib \<Rightarrow> bool \<Rightarrow> bool \<Rightarrow> filesys \<Rightarrow> string \<Rightarrow> IntegrityOptions \<Rightarrow> chainWriter \<times> report list" where
  "newChainWriter lib readFault dirFault fs path opts =
     (if \<not> io_EnableChain opts
      then (\<lparr>cw_enabled = False, cw_key = [], cw_algo = [], cw_state = zeroChainState, cw_statePth = []\<rparr>, [])
      else
        (let algo = algorithm opts;
             pth = statePathFor opts path;
             (s, r1) = (case loadState lib readFault fs pth of
                          Inl err \<Rightarrow> (zeroChainState, [LoadFailed err])
                        | Inr s \<Rightarrow> (s, []));
             (s, r2) = (if cs_ChainID s = [] \<or> cs_LastHash s = []
                        then (case recoverFromLog lib dirFault fs (io_Key opts) algo path of
                                Some rec \<Rightarrow> (rec, [StateRecovered])
                              | None \<Rightarrow> (s, []))
                        else (s, []))
         in (\<lparr>cw_enabled = True, cw_key = io_Key opts, cw_algo = algo, cw_state = s, cw_statePth = pth\<rparr>, r1 @ r2)))"

text \<open>The writer advances its state before the line is on disk; a state that cannot be saved is only reported.\<close>

definition Seal :: "Lib \<Rightarrow> string option \<Rightarrow> save_fault \<Rightarrow> filesys \<Rightarrow> chainWriter \<Rightarrow> Event
    \<Rightarrow> (chain_error + string \<times> Event) \<times> chainWriter \<times> filesys \<times> report list" where
  "Seal lib rnd fault fs cw e =
     (if \<not> cw_enabled cw then (Inl ChainDisabled, cw, fs, [])
      else (case sealChain lib rnd (cw_state cw) e (cw_key cw) (cw_algo cw) of
              Inl err \<Rightarrow> (Inl err, cw, fs, [])
            | Inr (raw, next, e') \<Rightarrow>
                (case saveState lib fault fs (cw_statePth cw) next of
                   (err, fs') \<Rightarrow>
                     (Inr (raw, e'), cw\<lparr>cw_state := next\<rparr>, fs',
                      (case err of None \<Rightarrow> [] | Some x \<Rightarrow> [SaveFailed x])))))"

section \<open>Specification of a verified log\<close>

text \<open>
  The events of the current integrity version among a list of JSON values, and the
  condition that they form one chain from a given head.
\<close>

fun chainEvents :: "Lib \<Rightarrow> string list \<Rightarrow> Event list" where
  "chainEvents lib [] = []"
| "chainEvents lib (raw # raws) =
     (case unmarshalEvent lib raw of
        Inr e \<Rightarrow> if e_IntegrityVersion e = IntegrityVersion then e # chainEvents lib raws else chainEvents lib raws
      | Inl _ \<Rightarrow> chainEvents lib raws)"

definition goodLink :: "Lib \<Rightarrow> string \<Rightarrow> string \<Rightarrow> Event \<Rightarrow> bool" where
  "goodLink lib key prev e \<longleftrightarrow> e_PrevHash e = prev \<and> recomputeHash lib e prev = Some (e_Hash e)
     \<and> (key \<noteq> [] \<longrightarrow> e_HMAC e = hmacHex lib key (e_Hash e))"

fun chained :: "Lib \<Rightarrow> string \<Rightarrow> string \<Rightarrow> Event list \<Rightarrow> bool" where
  "chained lib key prev [] = True"
| "chained lib key prev (e # es) = (goodLink lib key prev e \<and> chained lib key (e_Hash e) es)"

fun headHash :: "string \<Rightarrow> Event list \<Rightarrow> string" where
  "headHash prev [] = prev"
| "headHash prev (e # es) = headHash (e_Hash e) es"

fun headSeq :: "64 word \<Rightarrow> Event list \<Rightarrow> 64 word" where
  "headSeq q [] = q"
| "headSeq q (e # es) = headSeq (e_Seq e) es"

definition parses :: "Lib \<Rightarrow> string \<Rightarrow> bool" where
  "parses lib raw \<longleftrightarrow> (case unmarshalEvent lib raw of Inr _ \<Rightarrow> True | Inl _ \<Rightarrow> False)"

definition cleanFile :: "Lib \<Rightarrow> filesys \<Rightarrow> string \<Rightarrow> bool" where
  "cleanFile lib fs f \<longleftrightarrow>
     (case fsGet fs f of
        None \<Rightarrow> False
      | Some content \<Rightarrow> (case decodeStream lib content of (raws, err) \<Rightarrow> err = None \<and> list_all (parses lib) raws))"

definition valuesOf :: "Lib \<Rightarrow> filesys \<Rightarrow> string \<Rightarrow> string list" where
  "valuesOf lib fs f = (case fsGet fs f of None \<Rightarrow> [] | Some content \<Rightarrow> fst (decodeStream lib content))"

definition logValues :: "Lib \<Rightarrow> filesys \<Rightarrow> string \<Rightarrow> string list" where
  "logValues lib fs path = concat (map (valuesOf lib fs) (rotatedFiles fs path))"

lemma chainEvents_append [simp]: "chainEvents lib (xs @ ys) = chainEvents lib xs @ chainEvents lib ys"
  by (induction xs) (auto split: sum.splits)

lemma chained_append [simp]:
  "chained lib key prev (xs @ ys) \<longleftrightarrow> chained lib key prev xs \<and> chained lib key (headHash prev xs) ys"
  by (induction xs arbitrary: prev) auto

lemma headHash_append [simp]: "headHash prev (xs @ ys) = headHash (headHash prev xs) ys"
  by (induction xs arbitrary: prev) auto

lemma headSeq_append [simp]: "headSeq q (xs @ ys) = headSeq (headSeq q xs) ys"
  by (induction xs arbitrary: q) auto


section \<open>The verifier implements the specification\<close>

lemma addIssue_simps [simp]:
  "Issues (v_res (addIssue i v)) = Issues (v_res v) @ [i]"
  "v_prevHash (addIssue i v) = v_prevHash v" "v_currentSeq (addIssue i v) = v_currentSeq v"
  "v_line (addIssue i v) = v_line v" "ChainLines (v_res (addIssue i v)) = ChainLines (v_res v)"
  "vr_HasHMACKey (v_res (addIssue i v)) = vr_HasHMACKey (v_res v)"
  by (simp_all add: addIssue_def)

lemma legacy_simps [simp]:
  "Issues (v_res (extendLegacy v)) = Issues (v_res v)" "v_prevHash (extendLegacy v) = v_prevHash v"
  "v_currentSeq (extendLegacy v) = v_currentSeq v" "ChainLines (v_res (extendLegacy v)) = ChainLines (v_res v)"
  "Issues (v_res (closeLegacy v)) = Issues (v_res v)" "v_prevHash (closeLegacy v) = v_prevHash v"
  "v_currentSeq (closeLegacy v) = v_currentSeq v" "ChainLines (v_res (closeLegacy v)) = ChainLines (v_res v)"
  "v_line (closeLegacy v) = v_line v"
  by (simp_all add: extendLegacy_def closeLegacy_def split: option.splits)

lemma check_simps [simp]:
  "v_prevHash (checkPrev e v) = v_prevHash v" "v_prevHash (checkHash lib e v) = v_prevHash v"
  "v_prevHash (checkHMAC lib key e v) = v_prevHash v"
  "ChainLines (v_res (checkPrev e v)) = ChainLines (v_res v)"
  "ChainLines (v_res (checkHash lib e v)) = ChainLines (v_res v)"
  "ChainLines (v_res (checkHMAC lib key e v)) = ChainLines (v_res v)"
  by (simp_all add: checkPrev_def checkHash_def checkHMAC_def split: option.splits)

lemma check_issues:
  "Issues (v_res (checkPrev e v)) = [] \<longleftrightarrow> Issues (v_res v) = [] \<and> e_PrevHash e = v_prevHash v"
  "Issues (v_res (checkHash lib e v)) = [] \<longleftrightarrow>
     Issues (v_res v) = [] \<and> recomputeHash lib e (v_prevHash v) = Some (e_Hash e)"
  "Issues (v_res (checkHMAC lib key e v)) = [] \<longleftrightarrow>
     Issues (v_res v) = [] \<and> (key \<noteq> [] \<longrightarrow> e_HMAC e = hmacHex lib key (e_Hash e))"
  by (auto simp: checkPrev_def checkHash_def checkHMAC_def split: option.splits)

lemma verifyLine_spec:
  "v_prevHash (verifyLine lib key raw v) = headHash (v_prevHash v) (chainEvents lib [raw])"
  "v_currentSeq (verifyLine lib key raw v) = headSeq (v_currentSeq v) (chainEvents lib [raw])"
  "ChainLines (v_res (verifyLine lib key raw v)) = ChainLines (v_res v) + length (chainEvents lib [raw])"
  "Issues (v_res (verifyLine lib key raw v)) = [] \<longleftrightarrow>
     Issues (v_res v) = [] \<and> parses lib raw \<and> chained lib key (v_prevHash v) (chainEvents lib [raw])"
  by (auto simp: verifyLine_def parses_def Let_def check_issues goodLink_def split: sum.splits)

lemma verifyLines_spec:
  "v_prevHash (verifyLines lib key raws v) = headHash (v_prevHash v) (chainEvents lib raws)
   \<and> v_currentSeq (verifyLines lib key raws v) = headSeq (v_currentSeq v) (chainEvents lib raws)
   \<and> ChainLines (v_res (verifyLines lib key raws v)) = ChainLines (v_res v) + length (chainEvents lib raws)
   \<and> (Issues (v_res (verifyLines lib key raws v)) = [] \<longleftrightarrow>
     Issues (v_res v) = [] \<and> list_all (parses lib) raws \<and> chained lib key (v_prevHash v) (chainEvents lib raws))"
proof (induction raws arbitrary: v)
  case Nil
  then show ?case by simp
next
  case (Cons raw raws)
  have split: "chainEvents lib (raw # raws) = chainEvents lib [raw] @ chainEvents lib raws"
    using chainEvents_append [of lib "[raw]" raws] by simp
  show ?case
    unfolding split verifyLines.simps
    using Cons.IH [of "verifyLine lib key raw v"]
    by (auto simp: verifyLine_spec simp del: chainEvents.simps)
qed

lemma verifyOneFile_spec:
  "v_prevHash (verifyOneFile lib fs key f v) = headHash (v_prevHash v) (chainEvents lib (valuesOf lib fs f))
   \<and> v_currentSeq (verifyOneFile lib fs key f v) = headSeq (v_currentSeq v) (chainEvents lib (valuesOf lib fs f))
   \<and> ChainLines (v_res (verifyOneFile lib fs key f v)) = ChainLines (v_res v) + length (chainEvents lib (valuesOf lib fs f))
   \<and> (Issues (v_res (verifyOneFile lib fs key f v)) = [] \<longleftrightarrow>
     Issues (v_res v) = [] \<and> cleanFile lib fs f \<and> chained lib key (v_prevHash v) (chainEvents lib (valuesOf lib fs f)))"
proof (cases "fsGet fs f")
  case None
  then show ?thesis by (simp add: verifyOneFile_def valuesOf_def cleanFile_def)
next
  case (Some content)
  obtain raws err where d: "decodeStream lib content = (raws, err)" by (cases "decodeStream lib content")
  have "verifyOneFile lib fs key f v = (case err of None \<Rightarrow> verifyLines lib key raws v
      | Some msg \<Rightarrow> addIssue (issue (v_line (verifyLines lib key raws v) + 1) ''malformed'' msg) (verifyLines lib key raws v))"
    using Some d by (cases err) (simp_all add: verifyOneFile_def Let_def)
  with Some d verifyLines_spec [of lib key raws v] show ?thesis
    by (cases err) (simp_all add: valuesOf_def cleanFile_def)
qed

lemma verifyFiles_spec:
  "v_prevHash (fold (verifyOneFile lib fs key) files v)
     = headHash (v_prevHash v) (chainEvents lib (concat (map (valuesOf lib fs) files)))
   \<and> v_currentSeq (fold (verifyOneFile lib fs key) files v)
     = headSeq (v_currentSeq v) (chainEvents lib (concat (map (valuesOf lib fs) files)))
   \<and> ChainLines (v_res (fold (verifyOneFile lib fs key) files v))
     = ChainLines (v_res v) + length (chainEvents lib (concat (map (valuesOf lib fs) files)))
   \<and> (Issues (v_res (fold (verifyOneFile lib fs key) files v)) = [] \<longleftrightarrow>
     Issues (v_res v) = [] \<and> list_all (cleanFile lib fs) files
     \<and> chained lib key (v_prevHash v) (chainEvents lib (concat (map (valuesOf lib fs) files))))"
proof (induction files arbitrary: v)
  case Nil
  then show ?case by simp
next
  case (Cons f files)
  show ?case
    unfolding fold_simps list.map concat.simps
    using Cons.IH [of "verifyOneFile lib fs key f v"] verifyOneFile_spec [of lib fs key f v]
    by auto
qed

lemma Verify_result:
  assumes "Verify lib False fs path key = Inr res"
  shows "OK res \<longleftrightarrow> list_all (cleanFile lib fs) (rotatedFiles fs path)
        \<and> chained lib key [] (chainEvents lib (logValues lib fs path))"
    "LastHash res = headHash [] (chainEvents lib (logValues lib fs path))"
    "LastSeq res = headSeq 0 (chainEvents lib (logValues lib fs path))"
    "ChainLines res = length (chainEvents lib (logValues lib fs path))"
proof -
  let ?v = "fold (verifyOneFile lib fs key) (rotatedFiles fs path) (initialVerifyState key)"
  have init: "v_prevHash (initialVerifyState key) = []" "v_currentSeq (initialVerifyState key) = 0"
      "ChainLines (v_res (initialVerifyState key)) = 0" "Issues (v_res (initialVerifyState key)) = []"
    by (simp_all add: initialVerifyState_def zeroVerifyResult_def)
  have "(OK res \<longleftrightarrow> list_all (cleanFile lib fs) (rotatedFiles fs path)
        \<and> chained lib key [] (chainEvents lib (logValues lib fs path)))
     \<and> LastHash res = headHash [] (chainEvents lib (logValues lib fs path))
     \<and> LastSeq res = headSeq 0 (chainEvents lib (logValues lib fs path))
     \<and> ChainLines res = length (chainEvents lib (logValues lib fs path))"
  proof (cases "rotatedFiles fs path = []")
    case True
    with assms show ?thesis
      by (auto simp: Verify_def logValues_def initialVerifyState_def zeroVerifyResult_def)
  next
    case False
    with assms verifyFiles_spec [of lib fs key "rotatedFiles fs path" "initialVerifyState key"]
    show ?thesis by (auto simp: Verify_def Let_def logValues_def init)
  qed
  then show "OK res \<longleftrightarrow> list_all (cleanFile lib fs) (rotatedFiles fs path)
        \<and> chained lib key [] (chainEvents lib (logValues lib fs path))"
    "LastHash res = headHash [] (chainEvents lib (logValues lib fs path))"
    "LastSeq res = headSeq 0 (chainEvents lib (logValues lib fs path))"
    "ChainLines res = length (chainEvents lib (logValues lib fs path))"
    by blast+
qed

lemma Verify_total: "\<exists>res. Verify lib False fs path key = Inr res"
  by (simp add: Verify_def Let_def)

text \<open>
  Claim C2.  The verifier decides exactly the specification: it reports no issue if and
  only if every file of the log can be read, every value in it is an event, and the events
  of the current integrity version, over all rotated files in order, form one unbroken
  chain from the empty head, with valid HMACs when a key is given.  It then reports the
  hash and the sequence number of the last chained event and the length of the chain.
\<close>

theorem Verify_decides_chain:
  "\<exists>res. Verify lib False fs path key = Inr res
     \<and> (OK res \<longleftrightarrow> list_all (cleanFile lib fs) (rotatedFiles fs path)
        \<and> chained lib key [] (chainEvents lib (logValues lib fs path)))
     \<and> LastHash res = headHash [] (chainEvents lib (logValues lib fs path))
     \<and> LastSeq res = headSeq 0 (chainEvents lib (logValues lib fs path))
     \<and> ChainLines res = length (chainEvents lib (logValues lib fs path))"
  using Verify_total [of lib fs path key] Verify_result [of lib fs path key] by blast


section \<open>Tamper evidence\<close>

definition isHexC :: "char \<Rightarrow> bool" where
  "isHexC c \<longleftrightarrow> c \<in> set ''0123456789abcdef''"

text \<open>What the chain needs of the library: digests are 64 hexadecimal digits, and the JSON text of an
  event is a one-line object.\<close>

definition hexDigests :: "Lib \<Rightarrow> bool" where
  "hexDigests lib \<longleftrightarrow> (\<forall>s. length (sha256hex lib s) = 64 \<and> list_all isHexC (sha256hex lib s))"

definition objectTexts :: "Lib \<Rightarrow> bool" where
  "objectTexts lib \<longleftrightarrow> (\<forall>e p. marshalEvent lib e = Some p \<longrightarrow>
     p \<noteq> [] \<and> hd p = CHR ''{'' \<and> nl \<notin> set p \<and> cr \<notin> set p)"

text \<open>The texts a verifier hashes along a chain.\<close>

fun hashedInputs :: "Lib \<Rightarrow> string \<Rightarrow> Event list \<Rightarrow> string list" where
  "hashedInputs lib prev [] = []"
| "hashedInputs lib prev (e # es) =
     (case chainEventBytes lib e of None \<Rightarrow> [] | Some p \<Rightarrow> [prev @ p]) @ hashedInputs lib (e_Hash e) es"

lemma hashedInputs_append [simp]:
  "hashedInputs lib prev (xs @ ys) = hashedInputs lib prev xs @ hashedInputs lib (headHash prev xs) ys"
  by (induction xs arbitrary: prev) (auto split: option.splits)

lemma goodLinkD:
  assumes "goodLink lib key prev e"
  shows "\<exists>p. chainEventBytes lib e = Some p \<and> e_Hash e = sha256hex lib (prev @ p)"
  using assms by (auto simp: goodLink_def recomputeHash_def split: option.splits)

lemma chained_head:
  assumes "hexDigests lib" "chained lib key [] es"
  shows "if es = [] then headHash [] es = [] else length (headHash [] es) = 64 \<and> list_all isHexC (headHash [] es)"
proof (cases es rule: rev_cases)
  case (snoc ys y)
  with assms obtain p where "e_Hash y = sha256hex lib (headHash [] ys @ p)"
    by (auto dest!: goodLinkD)
  with snoc assms(1) show ?thesis by (simp add: hexDigests_def)
qed simp

lemma hash_text_unique:
  assumes lib: "hexDigests lib" "objectTexts lib" and xs: "chained lib key [] xs" and ys: "chained lib key' [] ys"
    and p: "chainEventBytes lib x = Some p" and q: "chainEventBytes lib y = Some q"
    and eq: "headHash [] xs @ p = headHash [] ys @ q"
  shows "headHash [] xs = headHash [] ys \<and> p = q"
proof -
  have hd: "p \<noteq> []" "q \<noteq> []" "hd p = CHR ''{''" "hd q = CHR ''{''"
    using p q lib(2) by (auto simp: chainEventBytes_def objectTexts_def)
  have nohex: "headHash [] es = [] \<or> length (headHash [] es) = 64 \<and> isHexC (hd (headHash [] es))"
    if "chained lib k [] es" for k es
    using chained_head [OF lib(1) that] by (cases "headHash [] es") (auto split: if_splits)
  have brace: "\<not> isHexC (CHR ''{'')" by (simp add: isHexC_def)
  have "length (headHash [] xs) = length (headHash [] ys)"
    using nohex [OF xs] nohex [OF ys] eq hd brace
    by (metis (no_types, lifting) append_Nil hd_append2 list.size(3) zero_neq_numeral)
  with eq show ?thesis by simp
qed

lemma chain_binding:
  assumes lib: "hexDigests lib" "objectTexts lib"
    and inj: "inj_on (sha256hex lib) (set (hashedInputs lib [] xs) \<union> set (hashedInputs lib [] ys))"
    and "chained lib key [] xs" "chained lib key' [] ys" "headHash [] xs = headHash [] ys"
  shows "map (chainEventBytes lib) xs = map (chainEventBytes lib) ys"
  using assms(3-)
proof (induction xs arbitrary: ys rule: rev_induct)
  case Nil
  with chained_head [OF lib(1) Nil(3)] show ?case by (auto split: if_splits)
next
  case (snoc x xs)
  from chained_head [OF lib(1) snoc.prems(2)] chained_head [OF lib(1) snoc.prems(3)] snoc.prems(4)
  have "ys \<noteq> []" by auto
  then obtain ys' y where ys: "ys = ys' @ [y]" by (cases ys rule: rev_cases) auto
  from snoc.prems(2) ys snoc.prems(3) obtain p q where
    p: "chainEventBytes lib x = Some p" "e_Hash x = sha256hex lib (headHash [] xs @ p)" and
    q: "chainEventBytes lib y = Some q" "e_Hash y = sha256hex lib (headHash [] ys' @ q)"
    by (auto dest!: goodLinkD)
  have "headHash [] xs @ p = headHash [] ys' @ q"
    by (rule inj_onD [OF snoc.prems(1)]) (use snoc.prems(4) p q ys in simp_all)
  from hash_text_unique [OF lib _ _ p(1) q(1) this] snoc.prems ys
  have eq: "headHash [] xs = headHash [] ys'" "p = q" by auto
  have "map (chainEventBytes lib) xs = map (chainEventBytes lib) ys'"
  proof (rule snoc.IH)
    show "inj_on (sha256hex lib) (set (hashedInputs lib [] xs) \<union> set (hashedInputs lib [] ys'))"
      using snoc.prems(1) ys by (auto elim!: inj_on_subset)
  qed (use snoc.prems ys eq in auto)
  with p q eq ys show ?case by simp
qed

lemma unmarshal_in_chain:
  assumes "raw \<in> set raws" "unmarshalEvent lib raw = Inr e" "e_IntegrityVersion e = IntegrityVersion"
  shows "e \<in> set (chainEvents lib raws)"
  using assms by (induction raws) (auto split: sum.splits)

lemma chained_member:
  assumes "chained lib key prev es" "e \<in> set es"
  shows "\<exists>prev'. goodLink lib key prev' e"
  using assms by (induction es arbitrary: prev) auto

lemma logValues_parse:
  assumes "list_all (cleanFile lib fs) (rotatedFiles fs path)" "raw \<in> set (logValues lib fs path)"
  shows "parses lib raw"
proof -
  from assms(2) obtain f where f: "f \<in> set (rotatedFiles fs path)" "raw \<in> set (valuesOf lib fs f)"
    by (auto simp: logValues_def)
  with assms(1) have "cleanFile lib fs f" by (auto simp: list_all_iff)
  with f(2) show ?thesis
    by (auto simp: cleanFile_def valuesOf_def list_all_iff split: option.splits prod.splits)
qed

section \<open>A concrete library\<close>

text \<open>
  An executable instance of the library functions, for the concrete cases below: a codec
  that writes seven of the fields as comma-separated text, and a digest of the length.
\<close>

fun encField :: "string \<Rightarrow> string" where
  "encField [] = []"
| "encField (c # cs) = char_of (97 + (of_char c :: nat) div 16) # char_of (97 + (of_char c :: nat) mod 16) # encField cs"

fun decField :: "string \<Rightarrow> string" where
  "decField (a # b # cs) = char_of (((of_char a :: nat) - 97) * 16 + ((of_char b :: nat) - 97)) # decField cs"
| "decField cs = []"

definition demoMarshal :: "Event \<Rightarrow> string" where
  "demoMarshal e = CHR ''{'' # joinS '','' [encField (e_IntegrityVersion e), encField (e_ChainID e),
     natStr (unat (e_Seq e)), encField (e_PrevHash e), encField (e_Hash e), encField (e_HMAC e), encField (e_EventID e)]"

definition demoUnmarshal :: "string \<Rightarrow> string + Event" where
  "demoUnmarshal raw =
     (case splitC (CHR '','') (drop 1 raw) of
        [iv, cid, q, prev, h, m, i] \<Rightarrow>
          (case parseNat q of
             Some n \<Rightarrow> Inr (zeroEvent\<lparr>e_IntegrityVersion := decField iv, e_ChainID := decField cid, e_Seq := word_of_nat n,
                             e_PrevHash := decField prev, e_Hash := decField h, e_HMAC := decField m, e_EventID := decField i\<rparr>)
           | None \<Rightarrow> Inl ''seq'')
      | _ \<Rightarrow> Inl ''syntax'')"

definition demoDigest :: "string \<Rightarrow> string" where
  "demoDigest s = replicate 63 (CHR ''0'') @ [''0123456789'' ! (length s mod 10)]"

definition demoLib :: Lib where
  "demoLib = \<lparr>sha256hex = demoDigest, hmacHex = (\<lambda>k m. demoDigest (k @ m)),
     marshalEvent = (\<lambda>e. Some (demoMarshal e)), unmarshalEvent = demoUnmarshal,
     decodeStream = (\<lambda>s. (linesOf s, None)), marshalState = (\<lambda>_. Some ''{}''),
     unmarshalState = (\<lambda>_. Some zeroChainState), rfc3339 = (\<lambda>t. itoa t)\<rparr>"

lemma demoLib_sel [simp]:
  "sha256hex demoLib = demoDigest" "hmacHex demoLib = (\<lambda>k m. demoDigest (k @ m))"
  "marshalEvent demoLib e = Some (demoMarshal e)" "unmarshalEvent demoLib = demoUnmarshal"
  "decodeStream demoLib s = (linesOf s, None)" "marshalState demoLib c = Some ''{}''"
  by (simp_all add: demoLib_def)

lemma decField_encField [simp]: "decField (encField s) = s"
proof (induction s)
  case (Cons c cs)
  have "(of_char c :: nat) div 16 < 16" by (simp add: less_mult_imp_div_less)
  with Cons show ?case by simp
qed simp

lemma encField_chars: "x \<in> set (encField s) \<Longrightarrow> 97 \<le> (of_char x :: nat) \<and> (of_char x :: nat) \<le> 112"
proof (induction s)
  case (Cons c cs)
  have "(of_char c :: nat) div 16 < 16" by (simp add: less_mult_imp_div_less)
  with Cons show ?case by auto
qed simp

lemma encField_no [simp]:
  "CHR '','' \<notin> set (encField s)" "nl \<notin> set (encField s)" "cr \<notin> set (encField s)"
  by (auto dest!: encField_chars simp: nl_def cr_def)

lemma natStr_no_sep [simp]:
  "CHR '','' \<notin> set (natStr n)" "nl \<notin> set (natStr n)" "cr \<notin> set (natStr n)"
  by (auto intro!: natStr_no simp: isDigitC_def nl_def cr_def)

lemma length_encField [simp]: "length (encField s) = 2 * length s"
  by (induction s) auto

definition demoNorm :: "Event \<Rightarrow> Event" where
  "demoNorm e = zeroEvent\<lparr>e_IntegrityVersion := e_IntegrityVersion e, e_ChainID := e_ChainID e, e_Seq := e_Seq e,
     e_PrevHash := e_PrevHash e, e_Hash := e_Hash e, e_HMAC := e_HMAC e, e_EventID := e_EventID e\<rparr>"

lemma demo_roundtrip: "demoUnmarshal (demoMarshal e) = Inr (demoNorm e)"
proof -
  have "splitC (CHR '','') (drop 1 (demoMarshal e)) = [encField (e_IntegrityVersion e), encField (e_ChainID e),
     natStr (unat (e_Seq e)), encField (e_PrevHash e), encField (e_Hash e), encField (e_HMAC e), encField (e_EventID e)]"
    unfolding demoMarshal_def drop_Suc_Cons One_nat_def drop0 by (rule splitC_joinS) auto
  then show ?thesis by (simp add: demoUnmarshal_def demoNorm_def)
qed

lemma demo_text: "nl \<notin> set (demoMarshal e)" "cr \<notin> set (demoMarshal e)" "hd (demoMarshal e) = CHR ''{''" "demoMarshal e \<noteq> []"
  by (simp_all add: demoMarshal_def) (simp_all add: gostr)

lemma demo_hexDigests: "hexDigests demoLib"
proof -
  have "isHexC (''0123456789'' ! d)" if "d < 10" for d
    using nth_mem [of d "''0123456789''"] that by (auto simp: isHexC_def simp del: nth_mem)
  moreover have "isHexC (CHR ''0'')" by (simp add: isHexC_def)
  ultimately show ?thesis by (simp add: hexDigests_def demoDigest_def list_all_iff)
qed

lemma demo_objectTexts: "objectTexts demoLib"
  by (auto simp: objectTexts_def demo_text)

definition demoSeal :: "string \<Rightarrow> 64 word \<Rightarrow> string \<Rightarrow> Event" where
  "demoSeal prev q i =
     (let e = zeroEvent\<lparr>e_IntegrityVersion := IntegrityVersion, e_ChainID := ''edr-c'', e_Seq := q, e_PrevHash := prev, e_EventID := i\<rparr>
      in e\<lparr>e_Hash := demoDigest (prev @ demoMarshal e)\<rparr>)"

definition demoE1 :: Event where "demoE1 = demoSeal [] 1 ''a''"
definition demoE2 :: Event where "demoE2 = demoSeal (e_Hash demoE1) 2 ''b''"

text \<open>The same two events in one file, and in a rotated file and the current one.\<close>

definition demoFs1 :: filesys where "demoFs1 = [(''/l/e'', unlines [demoMarshal demoE1, demoMarshal demoE2])]"
definition demoFs2 :: filesys where
  "demoFs2 = [(''/l/e'', unlines [demoMarshal demoE2]), (''/l/e.1'', unlines [demoMarshal demoE1])]"

lemma demoSeal_chain:
  "demoNorm (demoSeal prev q i) = demoSeal prev q i"
  "goodLink demoLib [] prev (demoSeal prev q i)" "e_IntegrityVersion (demoSeal prev q i) = IntegrityVersion"
proof -
  show 1: "demoNorm (demoSeal prev q i) = demoSeal prev q i"
    by (simp add: demoNorm_def demoSeal_def Let_def zeroEvent_def)
  show "goodLink demoLib [] prev (demoSeal prev q i)"
    by (simp add: goodLink_def demoSeal_def Let_def recomputeHash_def chainEventBytes_def stripIntegrity_def zeroEvent_def)
  show "e_IntegrityVersion (demoSeal prev q i) = IntegrityVersion" by (simp add: demoSeal_def Let_def)
qed

lemma demo_rotated: "rotatedFiles demoFs1 ''/l/e'' = [''/l/e'']" "rotatedFiles demoFs2 ''/l/e'' = [''/l/e.1'', ''/l/e'']"
  by (simp_all add: rotatedFiles_def demoFs1_def demoFs2_def parentDir_def readDir_def nameIn_def
      rotationNumber_def List.map_filter_def fsGet_def hasPrefix_def atoi_def parseNat_def isDigitC_def digitsVal_def digitVal_def
      itoa_def natStr.simps digitC_def gostr del: unlines_simps)

lemma demo_files [simp]:
  "fsGet demoFs1 ''/l/e'' = Some (unlines [demoMarshal demoE1, demoMarshal demoE2])"
  "fsGet demoFs2 ''/l/e'' = Some (unlines [demoMarshal demoE2])"
  "fsGet demoFs2 ''/l/e.1'' = Some (unlines [demoMarshal demoE1])"
  by (simp_all add: fsGet_def demoFs1_def demoFs2_def)

lemma demo_lines [simp]:
  "linesOf (unlines [demoMarshal e]) = [demoMarshal e]"
  "linesOf (unlines [demoMarshal e, demoMarshal e']) = [demoMarshal e, demoMarshal e']"
  by (rule linesOf_unlines, simp add: demo_text)+

lemma demo_values:
  "logValues demoLib demoFs1 ''/l/e'' = [demoMarshal demoE1, demoMarshal demoE2]"
  "logValues demoLib demoFs2 ''/l/e'' = [demoMarshal demoE1, demoMarshal demoE2]"
  by (simp_all add: logValues_def demo_rotated valuesOf_def del: unlines_simps)

lemma demo_events: "chainEvents demoLib [demoMarshal demoE1, demoMarshal demoE2] = [demoE1, demoE2]"
  by (simp add: demo_roundtrip demoE1_def demoE2_def demoSeal_chain)

lemma demo_verifies:
  assumes "fs = demoFs1 \<or> fs = demoFs2"
  shows "\<exists>res. Verify demoLib False fs ''/l/e'' [] = Inr res \<and> OK res \<and> LastHash res = e_Hash demoE2"
proof -
  obtain res where res: "Verify demoLib False fs ''/l/e'' [] = Inr res" using Verify_total by blast
  have vals: "logValues demoLib fs ''/l/e'' = [demoMarshal demoE1, demoMarshal demoE2]"
    using assms demo_values by auto
  have "list_all (cleanFile demoLib fs) (rotatedFiles fs ''/l/e'')"
    using assms by (auto simp: demo_rotated cleanFile_def parses_def demo_roundtrip simp del: unlines_simps)
  moreover have "chained demoLib [] [] [demoE1, demoE2]"
    by (simp add: demoE1_def demoE2_def demoSeal_chain)
  ultimately show ?thesis
    using res Verify_result(1,2) [OF res] by (simp add: vals demo_events del: chainEvents.simps)
qed

lemma length_demoMarshal:
  "length (demoMarshal e) = 7 + 2 * (length (e_IntegrityVersion e) + length (e_ChainID e) + length (e_PrevHash e)
     + length (e_Hash e) + length (e_HMAC e) + length (e_EventID e)) + length (natStr (unat (e_Seq e)))"
  by (simp add: demoMarshal_def)

lemma length_natStr_digit: "n < 10 \<Longrightarrow> length (natStr n) = 1"
  by (subst natStr.simps) simp

lemma demo_collision_free:
  "inj_on (sha256hex demoLib) (set (hashedInputs demoLib [] [demoE1, demoE2]))"
proof -
  let ?i1 = "demoMarshal (stripIntegrity demoE1)"
  let ?i2 = "e_Hash demoE1 @ demoMarshal (stripIntegrity demoE2)"
  have "length (e_Hash demoE1) = 64" by (simp add: demoE1_def demoSeal_def Let_def demoDigest_def)
  then have "length ?i1 = 30" "length ?i2 = 222"
    by (simp_all add: length_demoMarshal stripIntegrity_def length_natStr_digit)
      (simp_all add: demoE1_def demoE2_def demoSeal_def Let_def zeroEvent_def IntegrityVersion_def length_natStr_digit)
  then have "demoDigest ?i1 \<noteq> demoDigest ?i2" by (simp add: demoDigest_def)
  then show ?thesis by (auto simp: chainEventBytes_def inj_on_def)
qed

section \<open>Properties\<close>

text \<open>
  Claim C16.  Tamper evidence.  Two logs that both verify and end in the same head hash
  (the one the writer keeps, or the one anchored elsewhere) carry the same chained events,
  in the same order and number, up to the fields that are recomputed, unless two of the
  texts hashed along the way collide.  Nothing chained can be edited, dropped, reordered
  or inserted without changing the head or failing the verification.
\<close>

theorem equal_heads_equal_logs:
  assumes "hexDigests lib" "objectTexts lib"
    and "Verify lib False fs1 path1 key1 = Inr res1" "OK res1"
    and "Verify lib False fs2 path2 key2 = Inr res2" "OK res2"
    and "LastHash res1 = LastHash res2"
    and "inj_on (sha256hex lib) (set (hashedInputs lib [] (chainEvents lib (logValues lib fs1 path1)))
            \<union> set (hashedInputs lib [] (chainEvents lib (logValues lib fs2 path2))))"
  shows "map (chainEventBytes lib) (chainEvents lib (logValues lib fs1 path1))
       = map (chainEventBytes lib) (chainEvents lib (logValues lib fs2 path2))"
  using assms Verify_result(1,2) [OF assms(3)] Verify_result(1,2) [OF assms(5)]
  by (intro chain_binding [where key = key1 and key' = key2]) auto


theorem equal_heads_equal_logs_witness:
  "map (chainEventBytes demoLib) (chainEvents demoLib (logValues demoLib demoFs1 ''/l/e''))
   = map (chainEventBytes demoLib) (chainEvents demoLib (logValues demoLib demoFs2 ''/l/e''))"
proof -
  obtain r1 where r1: "Verify demoLib False demoFs1 ''/l/e'' [] = Inr r1" "OK r1" "LastHash r1 = e_Hash demoE2"
    using demo_verifies [of demoFs1] by blast
  obtain r2 where r2: "Verify demoLib False demoFs2 ''/l/e'' [] = Inr r2" "OK r2" "LastHash r2 = e_Hash demoE2"
    using demo_verifies [of demoFs2] by blast
  show ?thesis
    by (rule equal_heads_equal_logs [OF demo_hexDigests demo_objectTexts r1(1,2) r2(1,2)])
      (simp_all add: r1(3) r2(3) demo_values demo_events demo_collision_free del: hashedInputs.simps chainEvents.simps demoLib_sel)
qed

text \<open>
  The one-line check agrees with the full verification: in a log that verifies,
  every value passes \<open>VerifyOne\<close> with the same key, on the hash and on the HMAC.
\<close>

theorem VerifyOne_agrees:
  assumes "Verify lib False fs path key = Inr res" "OK res" "raw \<in> set (logValues lib fs path)"
  shows "\<exists>seq. VerifyOne lib raw key = (True, seq, True, True)"
proof -
  have ok: "list_all (cleanFile lib fs) (rotatedFiles fs path)" "chained lib key [] (chainEvents lib (logValues lib fs path))"
    using Verify_result(1) [OF assms(1)] assms(2) by auto
  from logValues_parse [OF ok(1) assms(3)] obtain e where e: "unmarshalEvent lib raw = Inr e"
    by (auto simp: parses_def split: sum.splits)
  show ?thesis
  proof (cases "e_IntegrityVersion e = IntegrityVersion")
    case True
    from chained_member [OF ok(2) unmarshal_in_chain [OF assms(3) e True]]
    obtain prev where "goodLink lib key prev e" by auto
    with e True show ?thesis by (auto simp: VerifyOne_def goodLink_def Let_def)
  qed (use e in \<open>simp add: VerifyOne_def\<close>)
qed

theorem VerifyOne_agrees_witness: "\<exists>seq. VerifyOne demoLib (demoMarshal demoE2) [] = (True, seq, True, True)"
proof -
  obtain r1 where r1: "Verify demoLib False demoFs1 ''/l/e'' [] = Inr r1" "OK r1" "LastHash r1 = e_Hash demoE2"
    using demo_verifies [of demoFs1] by blast
  show ?thesis by (rule VerifyOne_agrees [OF r1(1,2)]) (simp add: demo_values)
qed

text \<open>
  A log whose first chained event has a non-empty previous hash never verifies,
  tampered with or not: the verifier starts from the empty head.  That is the situation
  after a rotation that has removed the oldest file, or after the chain was continued from
  the state file with the log itself moved away.
\<close>

theorem truncated_log_rejected:
  assumes "chainEvents lib (logValues lib fs path) = e # es" "e_PrevHash e \<noteq> []"
    and "Verify lib False fs path key = Inr res"
  shows "\<not> OK res"
  using Verify_result(1) [OF assms(3)] assms(1,2) by (auto simp: goodLink_def)

text \<open>The current file alone, after the rotated one was removed.\<close>

definition demoFs3 :: filesys where "demoFs3 = [(''/l/e'', unlines [demoMarshal demoE2])]"

theorem truncated_log_rejected_witness:
  "\<exists>res. Verify demoLib False demoFs3 ''/l/e'' [] = Inr res \<and> \<not> OK res"
proof -
  obtain res where res: "Verify demoLib False demoFs3 ''/l/e'' [] = Inr res" using Verify_total by blast
  have "rotatedFiles demoFs3 ''/l/e'' = [''/l/e'']"
    by (simp add: rotatedFiles_def demoFs3_def parentDir_def readDir_def nameIn_def
      rotationNumber_def List.map_filter_def fsGet_def hasPrefix_def del: unlines_simps)
  then have "logValues demoLib demoFs3 ''/l/e'' = [demoMarshal demoE2]"
    by (simp add: logValues_def valuesOf_def fsGet_def demoFs3_def del: unlines_simps)
  moreover have "chainEvents demoLib [demoMarshal demoE2] = [demoE2]"
    by (simp add: demo_roundtrip demoE2_def demoSeal_chain)
  moreover have "e_PrevHash demoE2 \<noteq> []"
    by (simp add: demoE2_def demoE1_def demoSeal_def Let_def demoDigest_def)
  ultimately show ?thesis
    using res truncated_log_rejected [of demoLib demoFs3 "''/l/e''" demoE2 "[]" "[]" res] by auto
qed

end
