(* ===== verification/Procutil.thy ===== *)
theory Procutil
  imports Filesys
begin

text \<open>
  Reading the files of one process under \<open>/proc\<close>: \<open>internal/procutil/proc.go\<close>, and the
  parent id, which \<open>killtree.go\<close> and \<open>collector.go\<close> read with the same code.
\<close>

text \<open>\<open>procutil.StartTicksFromStat\<close>: field 22 of \<open>/proc/PID/stat\<close>, counted after the command name.\<close>

definition StartTicksFromStat :: "string \<Rightarrow> string" where
  "StartTicksFromStat statLine =
     (case lastIndexC (CHR '')'') statLine of
        None \<Rightarrow> []
      | Some idx \<Rightarrow>
          if idx + 2 \<ge> length statLine then []
          else (let fields = fieldsS (drop (idx + 2) statLine)
                in if length fields < 20 then [] else fields ! 19))"

definition readPPIDFromStat :: "string \<Rightarrow> int" where
  "readPPIDFromStat stat =
     (case lastIndexC (CHR '')'') stat of
        None \<Rightarrow> 0
      | Some i \<Rightarrow>
          if i + 2 \<ge> length stat then 0
          else (let fields = fieldsS (drop (i + 2) stat)
                in if length fields < 2 then 0
                   else (case atoi (fields ! 1) of Some n \<Rightarrow> n | None \<Rightarrow> 0)))"

text \<open>
  \<open>UserFromPID\<close>: the login id of a process, looked up in the user database; \<open>data\<close> is the
  content of its \<open>loginuid\<close> file when it can be read.
\<close>

definition UserFromPID :: "(string \<Rightarrow> string option) \<Rightarrow> string option \<Rightarrow> string" where
  "UserFromPID userName data =
     (case data of
        None \<Rightarrow> []
      | Some d \<Rightarrow>
          (case atoi (trimSpace d) of
             None \<Rightarrow> []
           | Some uid \<Rightarrow>
               if uid \<ge> 2 ^ 31 \<or> uid < 0 then []
               else (case userName (itoa uid) of Some u \<Rightarrow> u | None \<Rightarrow> [])))"

end
