(* ===== verification/Response.thy ===== *)
theory Response
  imports Procutil "HOL-Library.List_Lexorder" "HOL-Library.Char_ord"
begin

text \<open>
  The response engine, \<open>src/internal/response\<close>: the dispatcher (\<open>response.go\<close>), killing a
  process tree (\<open>killtree.go\<close>), freezing and thawing (\<open>suspend.go\<close>), nftables
  (\<open>nft.go\<close>) and the quarantine (\<open>quarantine.go\<close>).  What the kernel answers is a record
  of functions, one per system call the code makes; what the engine does to the host
  (signals delivered, commands run, files moved, modes changed, the registry of frozen
  processes) is the state it returns.
\<close>

section \<open>Requests, results, and the host\<close>

record ActionRequest =
  a_Action :: string
  a_PID :: int
  a_Path :: string
  a_RuleID :: string
  a_RemoteAddr :: string
  a_LocalPort :: int
  a_Protocol :: string
  a_ProcessPath :: string
  a_StartTicks :: string

definition zeroRequest :: ActionRequest where
  "zeroRequest = \<lparr>a_Action = [], a_PID = 0, a_Path = [], a_RuleID = [], a_RemoteAddr = [], a_LocalPort = 0,
     a_Protocol = [], a_ProcessPath = [], a_StartTicks = []\<rparr>"

record Result =
  res_Action :: string
  res_Success :: bool
  res_Detail :: string

definition result :: "string \<Rightarrow> bool \<Rightarrow> string \<Rightarrow> Result" where
  "result a ok d = \<lparr>res_Action = a, res_Success = ok, res_Detail = d\<rparr>"

record NFTProvider =
  nft_Enabled :: bool
  nft_DryRun :: bool
  nft_Table :: string
  nft_Chain :: string

record QuarantineProvider =
  q_Dir :: string
  q_DryRun :: bool

record SoftResponder =
  DryRun :: bool
  NFT :: NFTProvider
  Quarantine :: QuarantineProvider

datatype errno = ENOSYS | EPERM | ESRCH | EINVAL | ELOOP | Errno string

fun errnoStr :: "errno \<Rightarrow> string" where
  "errnoStr ENOSYS = ''function not implemented''"
| "errnoStr EPERM = ''operation not permitted''"
| "errnoStr ESRCH = ''no such process''"
| "errnoStr EINVAL = ''invalid argument''"
| "errnoStr ELOOP = ''too many levels of symbolic links''"
| "errnoStr (Errno s) = s"

datatype signal = SIGKILL | SIGSTOP | SIGCONT

fun signalNum :: "signal \<Rightarrow> int" where
  "signalNum SIGKILL = 9" | "signalNum SIGSTOP = 19" | "signalNum SIGCONT = 18"

text \<open>
  The kernel's answers.  \<open>k_exe\<close> and \<open>k_exeNow\<close> are \<open>/proc/PID/exe\<close> as the identity check
  and as the later check through the pidfd read it: the two reads may differ.
\<close>

record Kernel =
  k_exe :: "int \<Rightarrow> string option"
  k_stat :: "int \<Rightarrow> string option"
  k_pidfdOpen :: "int \<Rightarrow> errno + nat"
  k_fdLink :: "nat \<Rightarrow> string option"
  k_exeNow :: "int \<Rightarrow> string option"
  k_pidfdSend :: "int \<Rightarrow> signal \<Rightarrow> errno option"
  k_findProcess :: "int \<Rightarrow> string option"  \<comment> \<open>the error of \<open>os.FindProcess\<close>\<close>
  k_signal :: "int \<Rightarrow> signal \<Rightarrow> string option"  \<comment> \<open>the error of \<open>Process.Kill\<close> or \<open>Process.Signal\<close>\<close>
  k_procDir :: "string + (string \<times> bool) list"  \<comment> \<open>\<open>/proc\<close>: names and whether they are directories\<close>
  k_openNoFollow :: "string \<Rightarrow> errno option"
  k_fchmod :: "string \<Rightarrow> errno option"
  k_nftPresent :: bool
  k_run :: "string list \<Rightarrow> string \<times> string option"  \<comment> \<open>combined output and error\<close>
  k_mkdir :: "string \<Rightarrow> string option"
  k_fstat :: "string \<Rightarrow> errno + nat \<times> int"  \<comment> \<open>inode and size\<close>
  k_renameErr :: "string \<Rightarrow> errno option"
  k_writeErr :: "string \<Rightarrow> string option"
  k_chmodErr :: "string \<Rightarrow> string option"
  k_listErr :: "string \<Rightarrow> (bool \<times> string) option"  \<comment> \<open>listing fails: whether the directory is missing, and the text\<close>
  k_now :: gotime

record Host =
  h_signals :: "(int \<times> signal) list"
  h_commands :: "string list list"
  h_fs :: filesys
  h_modes :: "(string \<times> nat) list"
  h_suspended :: "int \<rightharpoonup> string"

definition setMode :: "string \<Rightarrow> nat \<Rightarrow> Host \<Rightarrow> Host" where
  "setMode p m h = h\<lparr>h_modes := (p, m) # filter (\<lambda>x. fst x \<noteq> p) (h_modes h)\<rparr>"

definition deliver :: "int \<Rightarrow> signal \<Rightarrow> Host \<Rightarrow> Host" where
  "deliver pid sig h = h\<lparr>h_signals := h_signals h @ [(pid, sig)]\<rparr>"

section \<open>Process identity\<close>

definition sameProcess :: "Kernel \<Rightarrow> ActionRequest \<Rightarrow> bool" where
  "sameProcess k req =
     (if a_PID req \<le> 0 then False
      else if a_ProcessPath req = [] \<and> a_StartTicks req = [] then False
      else if a_ProcessPath req \<noteq> [] \<and> k_exe k (a_PID req) \<noteq> Some (a_ProcessPath req) then False
      else if a_StartTicks req \<noteq> []
      then (case k_stat k (a_PID req) of
              None \<Rightarrow> False
            | Some st \<Rightarrow> StartTicksFromStat st = a_StartTicks req)
      else True)"

section \<open>Signals\<close>

datatype pidfd_error = PidfdNotSupported | PidfdError string

definition PidfdKill :: "Kernel \<Rightarrow> int \<Rightarrow> Host \<Rightarrow> pidfd_error option \<times> Host" where
  "PidfdKill k pid h =
     (case k_pidfdOpen k pid of
        Inl e \<Rightarrow>
          if e = ENOSYS \<or> e = EPERM then (Some PidfdNotSupported, h)
          else (Some (PidfdError (''pidfd_open('' @ itoa pid @ ''): '' @ errnoStr e)), h)
      | Inr fd \<Rightarrow>
          (case (k_fdLink k fd, k_exeNow k pid) of
             (Some fdExe, Some procExe) \<Rightarrow>
               if fdExe \<noteq> procExe
               then (Some (PidfdError (''pidfd identity mismatch: fd='' @ fdExe @ '' proc='' @ procExe)), h)
               else (case k_pidfdSend k pid SIGKILL of
                       Some e \<Rightarrow> (Some (PidfdError (''pidfd_send_signal('' @ itoa pid @ ''): '' @ errnoStr e)), h)
                     | None \<Rightarrow> (None, deliver pid SIGKILL h))
           | _ \<Rightarrow>
               (case k_pidfdSend k pid SIGKILL of
                  Some e \<Rightarrow> (Some (PidfdError (''pidfd_send_signal('' @ itoa pid @ ''): '' @ errnoStr e)), h)
                | None \<Rightarrow> (None, deliver pid SIGKILL h))))"

definition pidfdSignal :: "Kernel \<Rightarrow> int \<Rightarrow> signal \<Rightarrow> Host \<Rightarrow> pidfd_error option \<times> Host" where
  "pidfdSignal k pid sig h =
     (case k_pidfdOpen k pid of
        Inl e \<Rightarrow>
          if e = ENOSYS \<or> e = EPERM then (Some PidfdNotSupported, h)
          else (Some (PidfdError (''pidfd_open('' @ itoa pid @ ''): '' @ errnoStr e)), h)
      | Inr fd \<Rightarrow>
          (case k_pidfdSend k pid sig of
             Some e \<Rightarrow> (Some (PidfdError (''pidfd_send_signal('' @ itoa pid @ '', '' @ itoa (signalNum sig) @ ''): '' @ errnoStr e)), h)
           | None \<Rightarrow> (None, deliver pid sig h)))"

text \<open>The traditional path, when pidfd is not supported: \<^term>\<open>None\<close> on success.\<close>

definition plainSignal :: "Kernel \<Rightarrow> int \<Rightarrow> signal \<Rightarrow> Host \<Rightarrow> string option \<times> Host" where
  "plainSignal k pid sig h =
     (case k_findProcess k pid of
        Some err \<Rightarrow> (Some err, h)
      | None \<Rightarrow> (case k_signal k pid sig of Some err \<Rightarrow> (Some err, h) | None \<Rightarrow> (None, deliver pid sig h)))"

text \<open>Killing by pidfd with the fallback, as both \<open>Apply\<close> and \<open>killSingleProcess\<close> do it.\<close>

definition killNow :: "Kernel \<Rightarrow> string \<Rightarrow> int \<Rightarrow> Host \<Rightarrow> Result \<times> Host" where
  "killNow k action pid h =
     (case PidfdKill k pid h of
        (None, h') \<Rightarrow> (result action True (''killed pid '' @ itoa pid @ '' via pidfd''), h')
      | (Some (PidfdError d), h') \<Rightarrow> (result action False d, h')
      | (Some PidfdNotSupported, h') \<Rightarrow>
          (case plainSignal k pid SIGKILL h' of
             (Some d, h'') \<Rightarrow> (result action False d, h'')
           | (None, h'') \<Rightarrow> (result action True (''killed pid '' @ itoa pid), h'')))"

definition killSingleProcess :: "Kernel \<Rightarrow> int \<Rightarrow> string \<Rightarrow> string \<Rightarrow> Host \<Rightarrow> Result \<times> Host" where
  "killSingleProcess k pid processPath startTicks h =
     (if pid \<le> 1 then (result ''kill'' False ''refusing to kill protected pid'', h)
      else if (processPath \<noteq> [] \<or> startTicks \<noteq> [])
           \<and> \<not> sameProcess k (zeroRequest\<lparr>a_PID := pid, a_ProcessPath := processPath, a_StartTicks := startTicks\<rparr>)
      then (result ''kill'' False ''process identity changed'', h)
      else killNow k ''kill'' pid h)"

section \<open>Process trees\<close>

record procNode =
  n_pid :: int
  n_ppid :: int
  n_depth :: nat

text \<open>The map from pid to parent, in the order the code ranges over it.\<close>

type_synonym ptree = "(int \<times> int) list"

fun treeEntries :: "Kernel \<Rightarrow> (string \<times> bool) list \<Rightarrow> ptree" where
  "treeEntries k [] = []"
| "treeEntries k ((name, isDir) # es) =
     (if \<not> isDir then treeEntries k es
      else (case atoi name of
              None \<Rightarrow> treeEntries k es
            | Some pid \<Rightarrow>
                (case k_stat k pid of
                   None \<Rightarrow> treeEntries k es
                 | Some st \<Rightarrow> (pid, readPPIDFromStat st) # filter (\<lambda>e. fst e \<noteq> pid) (treeEntries k es))))"

definition buildProcessTree :: "Kernel \<Rightarrow> string + ptree" where
  "buildProcessTree k = (case k_procDir k of Inl err \<Rightarrow> Inl err | Inr es \<Rightarrow> Inr (treeEntries k es))"

text \<open>The unvisited children of a node, in the order of the map.\<close>

definition newChildren :: "ptree \<Rightarrow> int list \<Rightarrow> procNode \<Rightarrow> procNode list" where
  "newChildren tree visited c =
     map (\<lambda>e. \<lparr>n_pid = fst e, n_ppid = snd e, n_depth = n_depth c + 1\<rparr>)
       (filter (\<lambda>e. snd e = n_pid c \<and> fst e \<notin> set visited) tree)"

function descend :: "ptree \<Rightarrow> procNode list \<Rightarrow> int list \<Rightarrow> procNode list \<Rightarrow> procNode list" where
  "descend tree [] visited out = out"
| "descend tree (c # q) visited out =
     descend tree (q @ newChildren tree visited c) (map n_pid (newChildren tree visited c) @ visited) (out @ [c])"
  by pat_completeness auto

lemma newChildren_decrease:
  "length (filter (\<lambda>e. fst e \<notin> set (map n_pid (newChildren tree visited c) @ visited)) tree)
     + length (newChildren tree visited c) \<le> length (filter (\<lambda>e. fst e \<notin> set visited) tree)"
proof -
  have "length (filter (\<lambda>e. fst e \<notin> set visited) tree) =
      length (filter (\<lambda>e. fst e \<notin> set visited \<and> snd e = n_pid c) tree)
      + length (filter (\<lambda>e. fst e \<notin> set visited \<and> snd e \<noteq> n_pid c) tree)"
    by (induction tree) auto
  moreover have "length (newChildren tree visited c) = length (filter (\<lambda>e. fst e \<notin> set visited \<and> snd e = n_pid c) tree)"
    by (simp add: newChildren_def conj_commute)
  moreover have "length (filter (\<lambda>e. fst e \<notin> set (map n_pid (newChildren tree visited c) @ visited)) tree)
      \<le> length (filter (\<lambda>e. fst e \<notin> set visited \<and> snd e \<noteq> n_pid c) tree)"
    by (rule length_filter_mono) (auto simp: newChildren_def)
  ultimately show ?thesis by simp
qed

termination descend
proof (relation "measure (\<lambda>(tree, q, visited, out). length (filter (\<lambda>e. fst e \<notin> set visited) tree) + length q)")
  fix tree :: ptree and c :: procNode and q visited out
  show "((tree, q @ newChildren tree visited c, map n_pid (newChildren tree visited c) @ visited, out @ [c]), (tree, c # q, visited, out))
    \<in> measure (\<lambda>(tree, q, visited, out). length (filter (\<lambda>e. fst e \<notin> set visited) tree) + length q)"
    using newChildren_decrease [of tree visited c] by simp
qed simp

definition findDescendants :: "ptree \<Rightarrow> int \<Rightarrow> procNode list" where
  "findDescendants tree target = descend tree [\<lparr>n_pid = target, n_ppid = 0, n_depth = 0\<rparr>] [target] []"

text \<open>Deepest first; \<open>sort.Slice\<close> leaves the order of nodes of one depth open, here it is that of the search.\<close>

definition killOrder :: "procNode list \<Rightarrow> procNode list" where
  "killOrder ns = sort_key (\<lambda>n. - int (n_depth n)) ns"

text \<open>The loop over the descendants: how many were killed, and what went wrong.\<close>

fun killEach :: "Kernel \<Rightarrow> int \<Rightarrow> procNode list \<Rightarrow> nat \<times> string list \<times> Host \<Rightarrow> nat \<times> string list \<times> Host" where
  "killEach k rootPid [] acc = acc"
| "killEach k rootPid (d # ds) (killed, errors, h) =
     (if n_pid d = rootPid then killEach k rootPid ds (killed, errors, h)
      else (case killSingleProcess k (n_pid d) [] [] h of
              (r, h') \<Rightarrow>
                killEach k rootPid ds
                  (if res_Success r then (killed + 1, errors, h')
                   else (killed, errors @ [''pid '' @ itoa (n_pid d) @ '': '' @ res_Detail r], h'))))"

definition KillTree :: "Kernel \<Rightarrow> int \<Rightarrow> string \<Rightarrow> string \<Rightarrow> Host \<Rightarrow> Result \<times> Host" where
  "KillTree k pid processPath startTicks h =
     (if pid \<le> 1 then (result ''kill_tree'' False ''refusing to kill protected pid'', h)
      else (case buildProcessTree k of
              Inl err \<Rightarrow> (result ''kill_tree'' False (''build process tree: '' @ err), h)
            | Inr tree \<Rightarrow>
                (let descendants = findDescendants tree pid in
                 if descendants = [] then killSingleProcess k pid processPath startTicks h
                 else
                   (case killEach k pid (killOrder descendants) (0, [], h) of
                      (killed, errors, h1) \<Rightarrow>
                        (case killSingleProcess k pid processPath startTicks h1 of
                           (r, h2) \<Rightarrow>
                             (let killed = (if res_Success r then killed + 1 else killed);
                                  errors = (if res_Success r then errors
                                            else errors @ [''root pid '' @ itoa pid @ '': '' @ res_Detail r]);
                                  detail = ''killed '' @ natStr killed @ '' processes (root='' @ itoa pid @ '')'';
                                  detail = (if errors \<noteq> [] then detail @ ''; errors: '' @ joinS ''; '' errors else detail)
                              in (result ''kill_tree'' (killed > 0) detail, h2)))))))"

section \<open>Freezing\<close>

definition Suspend :: "Kernel \<Rightarrow> int \<Rightarrow> string \<Rightarrow> string \<Rightarrow> Host \<Rightarrow> Result \<times> Host" where
  "Suspend k pid processPath startTicks h =
     (if pid \<le> 1 then (result ''process_suspend'' False ''refusing to suspend protected pid'', h)
      else if (processPath \<noteq> [] \<or> startTicks \<noteq> [])
           \<and> \<not> sameProcess k (zeroRequest\<lparr>a_PID := pid, a_ProcessPath := processPath, a_StartTicks := startTicks\<rparr>)
      then (result ''process_suspend'' False ''process identity changed'', h)
      else
        (let sent = (case pidfdSignal k pid SIGSTOP h of
                       (None, h') \<Rightarrow> (None, h')
                     | (Some (PidfdError d), h') \<Rightarrow> (Some d, h')
                     | (Some PidfdNotSupported, h') \<Rightarrow> plainSignal k pid SIGSTOP h')
         in case sent of
              (Some d, h') \<Rightarrow> (result ''process_suspend'' False d, h')
            | (None, h') \<Rightarrow> (result ''process_suspend'' True (''suspended pid '' @ itoa pid),
                            h'\<lparr>h_suspended := (h_suspended h')(pid \<mapsto> processPath)\<rparr>)))"

definition Resume :: "Kernel \<Rightarrow> int \<Rightarrow> Host \<Rightarrow> Result \<times> Host" where
  "Resume k pid h =
     (let sent = (case pidfdSignal k pid SIGCONT h of
                    (None, h') \<Rightarrow> (None, h')
                  | (Some (PidfdError d), h') \<Rightarrow> (Some d, h')
                  | (Some PidfdNotSupported, h') \<Rightarrow> plainSignal k pid SIGCONT h')
      in case sent of
           (Some d, h') \<Rightarrow> (result ''process_resume'' False d, h')
         | (None, h') \<Rightarrow> (result ''process_resume'' True (''resumed pid '' @ itoa pid),
                         h'\<lparr>h_suspended := (h_suspended h')(pid := None)\<rparr>))"

definition SuspendedPIDs :: "Host \<Rightarrow> int \<rightharpoonup> string" where
  "SuspendedPIDs h = h_suspended h"


section \<open>nftables\<close>

definition isAlpha :: "char \<Rightarrow> bool" where
  "isAlpha c = ((65 \<le> (of_char c :: nat) \<and> (of_char c :: nat) \<le> 90) \<or> (97 \<le> (of_char c :: nat) \<and> (of_char c :: nat) \<le> 122))"

text \<open>The regular expressions \<open>reNFTIdent\<close>, \<open>reNFTAddr\<close>, \<open>reNFTProto\<close> and \<open>reNFTPort\<close>.\<close>

definition reNFTIdent :: "string \<Rightarrow> bool" where
  "reNFTIdent s = (s \<noteq> [] \<and> length s \<le> 31 \<and> isAlpha (hd s)
     \<and> list_all (\<lambda>c. isAlpha c \<or> isDigitC c \<or> c = CHR ''_'' \<or> c = CHR ''-'') (tl s))"

definition reNFTAddr :: "string \<Rightarrow> bool" where
  "reNFTAddr s = (s \<noteq> [] \<and> length s \<le> 255 \<and> list_all (\<lambda>c. c \<in> set ''0123456789abcdefABCDEF.:/[]%'') s)"

definition reNFTProto :: "string \<Rightarrow> bool" where
  "reNFTProto s = oneOf s [''tcp'', ''udp'', ''udplite'', ''sctp'', ''dccp'', ''icmp'', ''icmpv6'', ''ip'', ''ip6'']"

definition reNFTPort :: "string \<Rightarrow> bool" where
  "reNFTPort s = (s \<noteq> [] \<and> length s \<le> 5 \<and> list_all isDigitC s)"

definition sanitizeNFTIdent :: "string \<Rightarrow> string \<Rightarrow> string" where
  "sanitizeNFTIdent v fallback = (if reNFTIdent v then v else fallback)"

definition valueOr :: "string \<Rightarrow> string \<Rightarrow> string" where
  "valueOr v fallback = (if trimSpace v = [] then fallback else v)"

definition nftCommands :: "string \<Rightarrow> string \<Rightarrow> ActionRequest \<Rightarrow> string list list" where
  "nftCommands table0 chain0 req =
     (let table = sanitizeNFTIdent table0 ''edr'';
          chain = sanitizeNFTIdent chain0 ''blocklist'';
          proto = toLower (a_Protocol req);
          proto = (if proto = [] \<or> \<not> reNFTProto proto then ''tcp'' else proto);
          port = itoa (a_LocalPort req)
      in [[''nft'', ''add'', ''table'', ''inet'', table],
          [''nft'', ''add'', ''chain'', ''inet'', table, chain, ''{'', ''type'', ''filter'', ''hook'', ''output'',
           ''priority'', ''0'', '';'', ''policy'', ''accept'', '';'', ''}''],
          [''nft'', ''add'', ''rule'', ''inet'', table, chain, proto]
          @ (if a_RemoteAddr req \<noteq> [] \<and> reNFTAddr (a_RemoteAddr req) then [''daddr'', a_RemoteAddr req] else [])
          @ (if a_LocalPort req \<noteq> 0 \<and> reNFTPort port then [''dport'', port] else [])
          @ [''drop'']])"

text \<open>The loop that runs the commands until one fails: the failure's text.\<close>

fun runCommands :: "Kernel \<Rightarrow> string list list \<Rightarrow> Host \<Rightarrow> string option \<times> Host" where
  "runCommands k [] h = (None, h)"
| "runCommands k (args # cmds) h =
     (if args = [] then runCommands k cmds h
      else (let h' = h\<lparr>h_commands := h_commands h @ [args]\<rparr> in
            case k_run k args of
              (out, Some err) \<Rightarrow> (Some (trimSpace out @ '': '' @ err), h')
            | (out, None) \<Rightarrow> runCommands k cmds h'))"

definition dryDetail :: "string list list \<Rightarrow> string" where
  "dryDetail cmds = ''nft dry-run: '' @ joinS '' && '' (map (joinS '' '') cmds)"

definition ApplyBlock :: "Kernel \<Rightarrow> NFTProvider \<Rightarrow> ActionRequest \<Rightarrow> Host \<Rightarrow> Result \<times> Host" where
  "ApplyBlock k p req h =
     (if a_Action req \<noteq> ''nft_block'' then (result (a_Action req) False ''not an nft action'', h)
      else
        (let table = sanitizeNFTIdent (valueOr (nft_Table p) ''edr'') ''edr'';
             chain = sanitizeNFTIdent (valueOr (nft_Chain p) ''blocklist'') ''blocklist'';
             cmds = nftCommands table chain req
         in if nft_DryRun p \<or> \<not> nft_Enabled p then (result (a_Action req) True (dryDetail cmds), h)
            else if \<not> k_nftPresent k then (result (a_Action req) False ''nft binary not found'', h)
            else (case runCommands k cmds h of
                    (Some d, h') \<Rightarrow> (result (a_Action req) False d, h')
                  | (None, h') \<Rightarrow> (result (a_Action req) True (''nft block applied table='' @ table @ '' chain='' @ chain), h'))))"

definition isolateCommands :: "string \<Rightarrow> string list list" where
  "isolateCommands table =
     [[''nft'', ''add'', ''table'', ''inet'', table],
      [''nft'', ''add'', ''chain'', ''inet'', table, ''isolate'', ''{'', ''type'', ''filter'', ''hook'', ''output'',
       ''priority'', ''0'', '';'', ''policy'', ''drop'', '';'', ''}''],
      [''nft'', ''add'', ''rule'', ''inet'', table, ''isolate'', ''oifname'', ''lo'', ''accept''],
      [''nft'', ''add'', ''rule'', ''inet'', table, ''isolate'', ''ct'', ''state'', ''established,related'', ''accept''],
      [''nft'', ''add'', ''rule'', ''inet'', table, ''isolate'', ''udp'', ''dport'', ''53'', ''accept''],
      [''nft'', ''add'', ''rule'', ''inet'', table, ''isolate'', ''tcp'', ''dport'', ''53'', ''accept'']]"

definition ApplyIsolate :: "Kernel \<Rightarrow> NFTProvider \<Rightarrow> Host \<Rightarrow> Result \<times> Host" where
  "ApplyIsolate k p h =
     (let table = sanitizeNFTIdent (valueOr (nft_Table p) ''edr'') ''edr'';
          cmds = isolateCommands table
      in if nft_DryRun p \<or> \<not> nft_Enabled p then (result ''network_isolate'' True (dryDetail cmds), h)
         else if \<not> k_nftPresent k then (result ''network_isolate'' False ''nft binary not found'', h)
         else (case runCommands k cmds h of
                 (Some d, h') \<Rightarrow> (result ''network_isolate'' False d, h')
               | (None, h') \<Rightarrow> (result ''network_isolate'' True
                               (''network isolation applied (table='' @ table @ '', default DROP)''), h')))"

definition ListRules :: "Kernel \<Rightarrow> NFTProvider \<Rightarrow> Host \<Rightarrow> Result \<times> Host" where
  "ListRules k p h =
     (let table = sanitizeNFTIdent (valueOr (nft_Table p) ''edr'') ''edr'';
          cmd = [''nft'', ''list'', ''table'', ''inet'', table]
      in if nft_DryRun p \<or> \<not> nft_Enabled p then (result ''nft_list'' True (''nft dry-run: nft list table inet '' @ table), h)
         else (case k_run k cmd of
                 (out, Some err) \<Rightarrow> (result ''nft_list'' False (trimSpace out @ '': '' @ err), h\<lparr>h_commands := h_commands h @ [cmd]\<rparr>)
               | (out, None) \<Rightarrow> (result ''nft_list'' True out, h\<lparr>h_commands := h_commands h @ [cmd]\<rparr>)))"

definition Rollback :: "Kernel \<Rightarrow> NFTProvider \<Rightarrow> Host \<Rightarrow> Result \<times> Host" where
  "Rollback k p h =
     (let table = sanitizeNFTIdent (valueOr (nft_Table p) ''edr'') ''edr'';
          cmd = [''nft'', ''delete'', ''table'', ''inet'', table]
      in if nft_DryRun p \<or> \<not> nft_Enabled p then (result ''nft_rollback'' True (''nft dry-run: nft delete table inet '' @ table), h)
         else (case k_run k cmd of
                 (out, Some err) \<Rightarrow> (result ''nft_rollback'' False (trimSpace out @ '': '' @ err), h\<lparr>h_commands := h_commands h @ [cmd]\<rparr>)
               | (out, None) \<Rightarrow> (result ''nft_rollback'' True ''nft table removed'', h\<lparr>h_commands := h_commands h @ [cmd]\<rparr>)))"

section \<open>Quarantine\<close>

record QuarantineMeta =
  OriginalPath :: string
  QuarantineAt :: gotime
  Inode :: nat
  Size :: int
  qm_RuleID :: string

text \<open>The JSON codec of the metadata is a pair of functions.\<close>

type_synonym metaCodec = "(QuarantineMeta \<Rightarrow> string) \<times> (string \<Rightarrow> QuarantineMeta option)"

definition qFail :: "string \<Rightarrow> Result" where
  "qFail d = result ''quarantine'' False d"

definition ApplyQuarantine :: "metaCodec \<Rightarrow> Kernel \<Rightarrow> QuarantineProvider \<Rightarrow> string \<Rightarrow> string \<Rightarrow> Host \<Rightarrow> Result \<times> Host" where
  "ApplyQuarantine codec k q path ruleID h =
     (if q_DryRun q then (result ''quarantine'' True (''dry-run: would quarantine '' @ path), h)
      else (case k_mkdir k (q_Dir q) of
        Some err \<Rightarrow> (qFail (''mkdir quarantine dir: '' @ err), h)
      | None \<Rightarrow>
      (case k_openNoFollow k path of
        Some ELOOP \<Rightarrow> (qFail ''refusing to quarantine symlink'', h)
      | Some e \<Rightarrow> (qFail (''open: '' @ errnoStr e), h)
      | None \<Rightarrow>
      (case k_fstat k path of
        Inl e \<Rightarrow> (qFail (''fstat: '' @ errnoStr e), h)
      | Inr (ino, sz) \<Rightarrow>
        (let qPath = q_Dir q @ ''/'' @ natStr ino @ ''_'' @ itoa (k_now k) in
        (case (k_renameErr k path, fsRename (h_fs h) path qPath) of
          (Some e, _) \<Rightarrow> (qFail (''rename: '' @ errnoStr e), h)
        | (None, None) \<Rightarrow> (qFail ''rename: no such file or directory'', h)
        | (None, Some fs') \<Rightarrow>
          (let h1 = h\<lparr>h_fs := fs'\<rparr> in
          (case k_openNoFollow k qPath of
            Some e \<Rightarrow> (qFail (''open quarantined file: '' @ errnoStr e), h1)
          | None \<Rightarrow>
          (case k_fchmod k qPath of
            Some e \<Rightarrow> (qFail (''fchmod: '' @ errnoStr e), h1)
          | None \<Rightarrow>
            (let h2 = setMode qPath 0 h1;
                 meta = \<lparr>OriginalPath = path, QuarantineAt = k_now k, Inode = ino, Size = sz, qm_RuleID = ruleID\<rparr>;
                 metaPath = qPath @ ''.meta''
             in case k_writeErr k metaPath of
                  Some err \<Rightarrow> (result ''quarantine'' True (''quarantined to '' @ qPath @ '' (meta write failed: '' @ err @ '')''), h2)
                | None \<Rightarrow> (result ''quarantine'' True (''quarantined '' @ path @ '' -> '' @ qPath),
                           h2\<lparr>h_fs := fsPut (h_fs h2) metaPath (fst codec meta)\<rparr>)))))))))))"

text \<open>The metadata of the entries of the quarantine that have readable metadata, with their names.\<close>

definition quarantined :: "metaCodec \<Rightarrow> QuarantineProvider \<Rightarrow> filesys \<Rightarrow> (string \<times> QuarantineMeta) list" where
  "quarantined codec q fs =
     List.map_filter (\<lambda>name.
       if hasSuffix name ''.meta'' then None
       else (case fsGet fs (q_Dir q @ ''/'' @ name @ ''.meta'') of
               None \<Rightarrow> None
             | Some data \<Rightarrow> (case snd codec data of None \<Rightarrow> None | Some meta \<Rightarrow> Some (name, meta))))
       (sort (readDir fs (q_Dir q)))"

definition ListQuarantined :: "metaCodec \<Rightarrow> Kernel \<Rightarrow> QuarantineProvider \<Rightarrow> filesys \<Rightarrow> string + QuarantineMeta list" where
  "ListQuarantined codec k q fs =
     (case k_listErr k (q_Dir q) of
        Some (missing, err) \<Rightarrow> if missing then Inr [] else Inl err
      | None \<Rightarrow> Inr (map snd (quarantined codec q fs)))"

definition Restore :: "metaCodec \<Rightarrow> Kernel \<Rightarrow> QuarantineProvider \<Rightarrow> string \<Rightarrow> Host \<Rightarrow> Result \<times> Host" where
  "Restore codec k q originalPath h =
     (case k_listErr k (q_Dir q) of Some (_, err) \<Rightarrow> (result ''quarantine_restore'' False err, h) | None \<Rightarrow>
     (case find (\<lambda>nm. OriginalPath (snd nm) = originalPath) (quarantined codec q (h_fs h)) of
        None \<Rightarrow> (result ''quarantine_restore'' False (''no quarantined file found for '' @ originalPath), h)
      | Some (name, meta) \<Rightarrow>
          (let qPath = q_Dir q @ ''/'' @ name in
           case k_chmodErr k qPath of
             Some err \<Rightarrow> (result ''quarantine_restore'' False (''chmod: '' @ err), h)
           | None \<Rightarrow>
               (let h1 = setMode qPath 384 h in
                case (k_renameErr k qPath, fsRename (h_fs h1) qPath originalPath) of
                  (None, Some fs') \<Rightarrow>
                    (result ''quarantine_restore'' True (''restored '' @ originalPath),
                     (setMode originalPath 384 h1)\<lparr>h_fs := fsDel fs' (qPath @ ''.meta'')\<rparr>)
                | (Some e, _) \<Rightarrow> (result ''quarantine_restore'' False (''rename: '' @ errnoStr e), h1)
                | (None, None) \<Rightarrow> (result ''quarantine_restore'' False ''rename: no such file or directory'', h1)))))"

section \<open>The dispatcher\<close>

definition chmodNoFollow :: "Kernel \<Rightarrow> string \<Rightarrow> nat \<Rightarrow> Host \<Rightarrow> string option \<times> Host" where
  "chmodNoFollow k path mode h =
     (case k_openNoFollow k path of
        Some ELOOP \<Rightarrow> (Some ''refusing to chmod symlink'', h)
      | Some e \<Rightarrow> (Some (errnoStr e), h)
      | None \<Rightarrow> (case k_fchmod k path of Some e \<Rightarrow> (Some (errnoStr e), h) | None \<Rightarrow> (None, setMode path mode h)))"

definition Apply :: "metaCodec \<Rightarrow> Kernel \<Rightarrow> SoftResponder \<Rightarrow> ActionRequest \<Rightarrow> Host \<Rightarrow> Result \<times> Host" where
  "Apply codec k r req h =
     (let act = a_Action req in
      if DryRun r \<or> act = [] \<or> act = ''none'' then (result act True ''recorded only'', h)
      else if act = ''kill'' then
        (if a_PID req \<le> 1 then (result act False ''refusing to kill protected pid'', h)
         else if \<not> sameProcess k req then (result act False ''process identity changed before kill'', h)
         else killNow k act (a_PID req) h)
      else if act = ''fix_permissions'' then
        (if a_Path req = [] then (result act False ''path required'', h)
         else (case chmodNoFollow k (a_Path req) 384 h of
                 (Some d, h') \<Rightarrow> (result act False d, h')
               | (None, h') \<Rightarrow> (result act True ''chmod 0600 applied'', h')))
      else if act = ''quarantine'' then
        (if a_Path req = [] then (result act False ''path required for quarantine'', h)
         else ApplyQuarantine codec k (Quarantine r) (a_Path req) (a_RuleID req) h)
      else if act = ''kill_tree'' then
        (if a_PID req \<le> 1 then (result act False ''refusing to kill protected pid'', h)
         else KillTree k (a_PID req) (a_ProcessPath req) (a_StartTicks req) h)
      else if act = ''process_suspend'' then
        (if a_PID req \<le> 1 then (result act False ''refusing to suspend protected pid'', h)
         else Suspend k (a_PID req) (a_ProcessPath req) (a_StartTicks req) h)
      else if act = ''network_isolate'' then ApplyIsolate k (NFT r) h
      else if act = ''nft_block'' then ApplyBlock k (NFT r) req h
      else if act = ''fanotify_deny'' then (result act True ''fanotify deny recorded'', h)
      else (result act False ''unsupported action'', h))"


section \<open>Protected processes\<close>

text \<open>An operation may only add signals, and only to the process \<open>P\<close> allows.\<close>

definition signalsOnly :: "(int \<Rightarrow> bool) \<Rightarrow> Host \<Rightarrow> Host \<Rightarrow> bool" where
  "signalsOnly P h h' \<longleftrightarrow> (\<exists>new. h_signals h' = h_signals h @ new \<and> (\<forall>(p, s) \<in> set new. P p))"

lemma signalsOnly_refl [simp, intro]: "signalsOnly P h h"
  by (simp add: signalsOnly_def)

lemma signalsOnly_same: "h_signals h' = h_signals h \<Longrightarrow> signalsOnly P h h'"
  by (simp add: signalsOnly_def)

lemma signalsOnly_trans: "signalsOnly P h h' \<Longrightarrow> signalsOnly P h' h'' \<Longrightarrow> signalsOnly P h h''"
  by (auto simp: signalsOnly_def ball_Un)

lemma signalsOnly_mono: "signalsOnly P h h' \<Longrightarrow> (\<And>p. P p \<Longrightarrow> Q p) \<Longrightarrow> signalsOnly Q h h'"
  by (fastforce simp: signalsOnly_def)

lemma signalsOnly_deliver: "P pid \<Longrightarrow> signalsOnly P h (deliver pid sig h)"
  by (simp add: signalsOnly_def deliver_def)

lemma PidfdKill_only: "PidfdKill k pid h = (e, h') \<Longrightarrow> signalsOnly (\<lambda>p. p = pid) h h'"
  by (auto simp: PidfdKill_def signalsOnly_deliver split: sum.splits option.splits if_splits)

lemma pidfdSignal_only: "pidfdSignal k pid sig h = (e, h') \<Longrightarrow> signalsOnly (\<lambda>p. p = pid) h h'"
  by (auto simp: pidfdSignal_def signalsOnly_deliver split: sum.splits option.splits if_splits)

lemma plainSignal_only: "plainSignal k pid sig h = (e, h') \<Longrightarrow> signalsOnly (\<lambda>p. p = pid) h h'"
  by (auto simp: plainSignal_def signalsOnly_deliver split: option.splits)

lemma killNow_only: "killNow k a pid h = (r, h') \<Longrightarrow> signalsOnly (\<lambda>p. p = pid) h h'"
  by (auto simp: killNow_def split: prod.splits option.splits pidfd_error.splits
      dest!: PidfdKill_only plainSignal_only intro: signalsOnly_trans)

lemma killSingleProcess_only:
  "killSingleProcess k pid path ticks h = (r, h') \<Longrightarrow> signalsOnly (\<lambda>p. p = pid \<and> 1 < p) h h'"
  by (auto simp: killSingleProcess_def split: if_splits dest!: killNow_only elim!: signalsOnly_mono)

lemma killEach_only:
  "killEach k rootPid ds (n, es, h) = (n', es', h') \<Longrightarrow> signalsOnly (\<lambda>p. p \<in> n_pid ` set ds \<and> 1 < p) h h'"
proof (induction ds arbitrary: n es h)
  case (Cons d ds)
  show ?case
  proof (cases "n_pid d = rootPid")
    case True
    with Cons.prems have "signalsOnly (\<lambda>p. p \<in> n_pid ` set ds \<and> 1 < p) h h'" by (intro Cons.IH) simp
    then show ?thesis by (rule signalsOnly_mono) auto
  next
    case False
    obtain r h1 where k1: "killSingleProcess k (n_pid d) [] [] h = (r, h1)" by (metis surj_pair)
    have "\<exists>n1 es1. killEach k rootPid ds (n1, es1, h1) = (n', es', h')"
      using Cons.prems False k1 by (auto split: if_splits)
    then have "signalsOnly (\<lambda>p. p \<in> n_pid ` set ds \<and> 1 < p) h1 h'" using Cons.IH by blast
    then have "signalsOnly (\<lambda>p. p \<in> n_pid ` set (d # ds) \<and> 1 < p) h1 h'" by (rule signalsOnly_mono) auto
    moreover have "signalsOnly (\<lambda>p. p \<in> n_pid ` set (d # ds) \<and> 1 < p) h h1"
      using killSingleProcess_only [OF k1] by (rule signalsOnly_mono) auto
    ultimately show ?thesis using signalsOnly_trans by blast
  qed
qed simp

lemma KillTree_only: "KillTree k pid path ticks h = (r, h') \<Longrightarrow> signalsOnly (\<lambda>p. 1 < p) h h'"
proof -
  assume kt: "KillTree k pid path ticks h = (r, h')"
  have single: "killSingleProcess k p a b x = (y, z) \<Longrightarrow> signalsOnly (\<lambda>p. 1 < p) x z" for p a b x y z
    using killSingleProcess_only signalsOnly_mono by blast
  have each: "killEach k pid ds (n, es, x) = (n', es', z) \<Longrightarrow> signalsOnly (\<lambda>p. 1 < p) x z" for ds n es x n' es' z
    using killEach_only signalsOnly_mono by blast
  from kt show ?thesis
    by (auto simp: KillTree_def Let_def split: if_splits sum.splits prod.splits dest!: single each intro: signalsOnly_trans)
qed

lemma Suspend_only: "Suspend k pid path ticks h = (r, h') \<Longrightarrow> signalsOnly (\<lambda>p. p = pid \<and> 1 < p) h h'"
proof -
  assume su: "Suspend k pid path ticks h = (r, h')"
  have upd: "signalsOnly P a (b\<lparr>h_suspended := m\<rparr>) = signalsOnly P a b" for P a b m by (simp add: signalsOnly_def)
  from su show ?thesis
    by (auto simp: Suspend_def Let_def upd split: if_splits prod.splits option.splits pidfd_error.splits
        dest!: pidfdSignal_only plainSignal_only elim!: signalsOnly_mono [OF signalsOnly_trans] signalsOnly_mono)
qed

lemma runCommands_signals: "runCommands k cmds h = (e, h') \<Longrightarrow> h_signals h' = h_signals h"
  by (induction cmds arbitrary: h) (auto simp: Let_def split: if_splits prod.splits option.splits)

lemma setMode_signals [simp]: "h_signals (setMode p m h) = h_signals h"
  by (simp add: setMode_def)

lemma ApplyQuarantine_signals: "h_signals (snd (ApplyQuarantine codec k q path rid h)) = h_signals h"
  by (simp add: ApplyQuarantine_def Let_def split: option.splits sum.splits prod.splits errno.splits)

lemma nft_signals:
  "h_signals (snd (ApplyBlock k p req h)) = h_signals h" "h_signals (snd (ApplyIsolate k p h)) = h_signals h"
  by (auto simp: ApplyBlock_def ApplyIsolate_def Let_def split: prod.splits option.splits dest: runCommands_signals)

lemma signalsOnly_if:
  "(c \<Longrightarrow> signalsOnly P h (snd a)) \<Longrightarrow> (\<not> c \<Longrightarrow> signalsOnly P h (snd b)) \<Longrightarrow> signalsOnly P h (snd (if c then a else b))"
  by simp

lemma Apply_only: "signalsOnly (\<lambda>p. 1 < p) h (snd (Apply codec k r req h))"
proof -
  have kt: "signalsOnly (\<lambda>p. 1 < p) h (snd (KillTree k a b c h))" for a b c
    using KillTree_only by (cases "KillTree k a b c h") auto
  have su: "signalsOnly (\<lambda>p. 1 < p) h (snd (Suspend k a b c h))" for a b c
    using signalsOnly_mono [OF Suspend_only, of k a b c h _ _ "\<lambda>p. 1 < p"] by (cases "Suspend k a b c h") simp
  have kn: "1 < pid \<Longrightarrow> signalsOnly (\<lambda>p. 1 < p) h (snd (killNow k act pid h))" for act pid
    using signalsOnly_mono [OF killNow_only, of k act pid h _ _ "\<lambda>p. 1 < p"] by (cases "killNow k act pid h") simp
  have cm: "signalsOnly (\<lambda>p. 1 < p) h (snd (case chmodNoFollow k a b h of
      (Some d, h') \<Rightarrow> (result x False d, h') | (None, h') \<Rightarrow> (result x True y, h')))" for a b x y
    by (simp add: chmodNoFollow_def signalsOnly_same split: option.splits errno.splits)
  show ?thesis
    unfolding Apply_def Let_def
    by (intro signalsOnly_if kt su cm signalsOnly_same [OF ApplyQuarantine_signals] signalsOnly_same [OF nft_signals(1)]
        signalsOnly_same [OF nft_signals(2)]) (simp_all only: snd_conv signalsOnly_refl kn not_le)
qed

section \<open>Interface to the agent\<close>

text \<open>
  What the agent relies on when it hands a request to a responder: protected processes are
  never signalled, and a responder told to record only leaves the host alone.
\<close>

locale responder =
  fixes app :: "'cfg \<Rightarrow> ActionRequest \<Rightarrow> Host \<Rightarrow> Result \<times> Host"
    and recordOnly :: "'cfg \<Rightarrow> bool"
  assumes spares: "signalsOnly (\<lambda>p. 1 < p) h (snd (app cfg req h))"
    and recordOnly_noop: "recordOnly cfg \<Longrightarrow> snd (app cfg req h) = h"
    and none_noop: "a_Action req = ''none'' \<Longrightarrow> app cfg req h = (result ''none'' True ''recorded only'', h)"
begin

lemma run_spares: "signalsOnly (\<lambda>p. 1 < p) h (fold (\<lambda>req h. snd (app cfg req h)) reqs h)"
proof (induction reqs arbitrary: h)
  case (Cons req reqs)
  from signalsOnly_trans [OF spares [of h cfg req] Cons [of "snd (app cfg req h)"]] show ?case by simp
qed simp

lemma run_recordOnly: "recordOnly cfg \<Longrightarrow> fold (\<lambda>req h. snd (app cfg req h)) reqs h = h"
  by (induction reqs arbitrary: h) (simp_all add: recordOnly_noop)

end

interpretation soft: responder "\<lambda>(codec, k, r). Apply codec k r" "\<lambda>(codec, k, r). DryRun r"
  by unfold_locales (auto simp: Apply_only, auto simp: Apply_def)

section \<open>The search for descendants\<close>

definition childRel :: "ptree \<Rightarrow> (int \<times> int) set" where
  "childRel tree = {(p, c). (c, p) \<in> set tree}"

text \<open>The invariant of the search: what has been put in the output or the queue.\<close>

definition searchInv :: "ptree \<Rightarrow> int \<Rightarrow> procNode list \<Rightarrow> int list \<Rightarrow> procNode list \<Rightarrow> bool" where
  "searchInv tree root0 q visited out \<longleftrightarrow>
     set visited = n_pid ` set (out @ q) \<and> distinct (map n_pid (out @ q)) \<and> root0 \<in> set visited
     \<and> (\<forall>n \<in> set (out @ q). (root0, n_pid n) \<in> (childRel tree)\<^sup>*
          \<and> (n_pid n = root0 \<or> (\<exists>m \<in> set out. n_pid m = n_ppid n \<and> n_depth n = n_depth m + 1)))
     \<and> (\<forall>n \<in> set out. \<forall>c. (n_pid n, c) \<in> childRel tree \<longrightarrow> c \<in> set visited)"

lemma set_newChildren:
  "n \<in> set (newChildren tree visited c) \<longleftrightarrow>
     (n_pid n, n_ppid n) \<in> set tree \<and> n_ppid n = n_pid c \<and> n_pid n \<notin> set visited \<and> n_depth n = n_depth c + 1"
  by (cases n) (auto simp: newChildren_def image_iff)

lemma distinct_newChildren: "distinct (map fst tree) \<Longrightarrow> distinct (map n_pid (newChildren tree visited c))"
  by (simp add: newChildren_def comp_def distinct_map_filterI)

lemma searchInv_step:
  assumes inv: "searchInv tree root0 (c # q) visited out" and d: "distinct (map fst tree)"
  shows "searchInv tree root0 (q @ newChildren tree visited c) (map n_pid (newChildren tree visited c) @ visited) (out @ [c])"
proof -
  note I = inv [unfolded searchInv_def]
  let ?new = "newChildren tree visited c"
  have reach: "(root0, n_pid n) \<in> (childRel tree)\<^sup>*" if "n \<in> set ?new" for n
  proof -
    have "(root0, n_pid c) \<in> (childRel tree)\<^sup>*" using I by simp
    moreover have "(n_pid c, n_pid n) \<in> childRel tree" using that by (auto simp: set_newChildren childRel_def)
    ultimately show ?thesis by (rule rtrancl.rtrancl_into_rtrancl)
  qed
  have dis: "distinct (map n_pid ?new)" by (rule distinct_newChildren [OF d])
  have disj: "n_pid ` set ?new \<inter> set visited = {}" by (auto simp: set_newChildren)
  have par: "\<forall>n \<in> set ?new. n_ppid n = n_pid c \<and> n_depth n = n_depth c + 1" by (simp add: set_newChildren)
  have kids: "x \<in> n_pid ` set ?new \<union> set visited" if "(n_pid c, x) \<in> childRel tree" for x
  proof (cases "x \<in> set visited")
    case False
    with that have "\<lparr>n_pid = x, n_ppid = n_pid c, n_depth = n_depth c + 1\<rparr> \<in> set ?new"
      by (simp add: set_newChildren childRel_def)
    then show ?thesis by force
  qed simp
  show ?thesis
    unfolding searchInv_def
  proof (intro conjI)
    show "set (map n_pid ?new @ visited) = n_pid ` set ((out @ [c]) @ q @ ?new)" using I by auto
    show "distinct (map n_pid ((out @ [c]) @ q @ ?new))" using I dis disj by auto
    have "root0 \<in> set visited" using I by blast
    then show "root0 \<in> set (map n_pid ?new @ visited)" by simp
    show "\<forall>n \<in> set ((out @ [c]) @ q @ ?new). (root0, n_pid n) \<in> (childRel tree)\<^sup>* \<and>
        (n_pid n = root0 \<or> (\<exists>m \<in> set (out @ [c]). n_pid m = n_ppid n \<and> n_depth n = n_depth m + 1))"
    proof
      fix n assume "n \<in> set ((out @ [c]) @ q @ ?new)"
      then consider "n \<in> set ?new" | "n \<in> set (out @ c # q)" by auto
      then show "(root0, n_pid n) \<in> (childRel tree)\<^sup>* \<and>
        (n_pid n = root0 \<or> (\<exists>m \<in> set (out @ [c]). n_pid m = n_ppid n \<and> n_depth n = n_depth m + 1))"
      proof cases
        case 1
        then show ?thesis using reach par by auto
      next
        case 2
        then have "(root0, n_pid n) \<in> (childRel tree)\<^sup>* \<and>
          (n_pid n = root0 \<or> (\<exists>m \<in> set out. n_pid m = n_ppid n \<and> n_depth n = n_depth m + 1))" using I by blast
        then show ?thesis by auto
      qed
    qed
    show "\<forall>n \<in> set (out @ [c]). \<forall>x. (n_pid n, x) \<in> childRel tree \<longrightarrow> x \<in> set (map n_pid ?new @ visited)"
      using I kids by auto
  qed
qed

lemma descend_inv:
  assumes "searchInv tree root0 q visited out" "distinct (map fst tree)"
  shows "\<exists>visited'. searchInv tree root0 [] visited' (descend tree q visited out)"
  using assms
proof (induction tree q visited out rule: descend.induct)
  case (2 tree c q visited out)
  then show ?case using searchInv_step by simp
qed auto

lemma search_complete:
  assumes "distinct (map fst tree)"
  shows "\<exists>visited. searchInv tree target [] visited (findDescendants tree target)"
  unfolding findDescendants_def by (rule descend_inv [OF _ assms]) (simp add: searchInv_def)

lemma searchInv_closed:
  assumes "searchInv tree root0 [] visited out" "(root0, x) \<in> (childRel tree)\<^sup>*"
  shows "x \<in> n_pid ` set out"
  using assms(2)
proof (induction rule: rtrancl_induct)
  case base
  then show ?case using assms(1) by (auto simp: searchInv_def)
next
  case (step y z)
  then show ?case using assms(1) unfolding searchInv_def by fastforce
qed

lemma treeEntries_distinct: "distinct (map fst (treeEntries k es))"
  by (induction k es rule: treeEntries.induct)
    (auto split: option.splits simp: distinct_map_filterI)


lemma killOrder_sorted: "sorted (map (\<lambda>n. - int (n_depth n)) (killOrder ns))"
  by (simp add: killOrder_def)

lemma set_killOrder [simp]: "set (killOrder ns) = set ns"
  by (simp add: killOrder_def)

lemma deeper_first:
  assumes "i < length (killOrder ns)" "j < length (killOrder ns)" "n_depth (killOrder ns ! j) < n_depth (killOrder ns ! i)"
  shows "i < j"
proof (rule ccontr)
  assume "\<not> i < j"
  with sorted_nth_mono [OF killOrder_sorted, of j i ns] assms show False by simp
qed

section \<open>Properties\<close>

text \<open>
  Claim C12.  No response ever signals a protected process: whatever the request, the
  configuration and the kernel's answers, a sequence of requests adds only signals to
  processes with a pid above 1, and a responder in dry-run mode changes nothing on the host.
\<close>

theorem responses_spare_protected:
  "signalsOnly (\<lambda>p. 1 < p) h (fold (\<lambda>req h. snd (Apply codec k r req h)) reqs h)
   \<and> fold (\<lambda>req h. snd (Apply codec k r req h)) reqs h
       = (if DryRun r then h else fold (\<lambda>req h. snd (Apply codec k r req h)) reqs h)"
  using soft.run_spares [of h "(codec, k, r)" reqs] soft.run_recordOnly [of "(codec, k, r)" reqs h] by auto

text \<open>
  Claim C17.  A kill request is carried out only on the process the rule matched: when a
  signal is delivered, the pid is the requested one, it still had the recorded executable
  and start time when they were checked, and at least one of the two was recorded.
\<close>

theorem kill_checks_identity:
  assumes "a_Action req = ''kill''" "Apply codec k r req h = (res, h')" "h_signals h' \<noteq> h_signals h"
  shows "h_signals h' = h_signals h @ [(a_PID req, SIGKILL)] \<and> 1 < a_PID req \<and> res_Success res
    \<and> (a_ProcessPath req \<noteq> [] \<or> a_StartTicks req \<noteq> [])
    \<and> (a_ProcessPath req = [] \<or> k_exe k (a_PID req) = Some (a_ProcessPath req))
    \<and> (a_StartTicks req = [] \<or> (\<exists>st. k_stat k (a_PID req) = Some st \<and> StartTicksFromStat st = a_StartTicks req))"
proof -
  have kn: "killNow k ''kill'' (a_PID req) h = (res, h')" and pid: "1 < a_PID req" and same: "sameProcess k req"
    using assms by (auto simp: Apply_def Let_def split: if_splits)
  have "h_signals h' = h_signals h @ [(a_PID req, SIGKILL)] \<and> res_Success res"
    using kn assms(3)
    by (auto simp: killNow_def PidfdKill_def plainSignal_def deliver_def result_def
        split: prod.splits option.splits pidfd_error.splits sum.splits if_splits)
  with pid same show ?thesis
    by (auto simp: sameProcess_def split: if_splits option.splits)
qed

text \<open>A kernel without pidfd on which process 7 runs \<open>/bin/nc\<close>.\<close>

definition demoKernel :: Kernel where
  "demoKernel = \<lparr>k_exe = (\<lambda>p. if p = 7 then Some ''/bin/nc'' else None), k_stat = (\<lambda>_. None),
     k_pidfdOpen = (\<lambda>_. Inl ENOSYS), k_fdLink = (\<lambda>_. None), k_exeNow = (\<lambda>p. if p = 7 then Some ''/bin/nc'' else None),
     k_pidfdSend = (\<lambda>_ _. None), k_findProcess = (\<lambda>_. None), k_signal = (\<lambda>_ _. None), k_procDir = Inr [],
     k_openNoFollow = (\<lambda>_. None), k_fchmod = (\<lambda>_. None), k_nftPresent = True, k_run = (\<lambda>_. ([], None)),
     k_mkdir = (\<lambda>_. None), k_fstat = (\<lambda>_. Inr (11, 4)), k_renameErr = (\<lambda>_. None), k_writeErr = (\<lambda>_. None),
     k_chmodErr = (\<lambda>_. None), k_listErr = (\<lambda>_. None), k_now = 5\<rparr>"

definition demoHost :: Host where
  "demoHost = \<lparr>h_signals = [], h_commands = [], h_fs = [(''/tmp/x'', ''data'')], h_modes = [], h_suspended = Map.empty\<rparr>"

definition demoResponder :: SoftResponder where
  "demoResponder = \<lparr>DryRun = False, NFT = \<lparr>nft_Enabled = True, nft_DryRun = False, nft_Table = [], nft_Chain = []\<rparr>,
     Quarantine = \<lparr>q_Dir = ''/q'', q_DryRun = False\<rparr>\<rparr>"

text \<open>A codec that keeps the original path only.\<close>

definition demoCodec :: metaCodec where
  "demoCodec = (OriginalPath, \<lambda>s. Some \<lparr>OriginalPath = s, QuarantineAt = 0, Inode = 0, Size = 0, qm_RuleID = []\<rparr>)"

definition demoKill :: ActionRequest where
  "demoKill = zeroRequest\<lparr>a_Action := ''kill'', a_PID := 7, a_ProcessPath := ''/bin/nc''\<rparr>"

theorem kill_checks_identity_witness:
  "\<exists>res h'. Apply demoCodec demoKernel demoResponder demoKill demoHost = (res, h')
     \<and> h_signals h' = [(7, SIGKILL)] \<and> res_Success res"
proof -
  obtain res h' where a: "Apply demoCodec demoKernel demoResponder demoKill demoHost = (res, h')" by (metis surj_pair)
  have "h_signals h' \<noteq> h_signals demoHost"
    using a by (auto simp: Apply_def demoKill_def zeroRequest_def demoResponder_def sameProcess_def demoKernel_def
        killNow_def PidfdKill_def plainSignal_def deliver_def demoHost_def)
  with kill_checks_identity [OF _ a] show ?thesis
    using a by (simp add: demoKill_def zeroRequest_def demoHost_def)
qed

text \<open>
  The identity check through the pidfd can never succeed on a kernel that names
  the file behind a pidfd as Linux does: the link of the descriptor is the anonymous inode,
  not the executable, so for every process whose executable can be read the kill is refused
  and nothing is signalled.
\<close>

theorem pidfd_kill_always_refused:
  assumes "k_pidfdOpen k pid = Inr fd" "k_fdLink k fd = Some ''anon_inode:[pidfd]''"
    and "k_exeNow k pid = Some exe" "hasPrefix exe ''/''"
  shows "\<exists>d. PidfdKill k pid h = (Some (PidfdError d), h)"
  using assms by (auto simp: PidfdKill_def hasPrefix_def)

theorem pidfd_kill_always_refused_witness:
  "\<exists>d. PidfdKill (demoKernel\<lparr>k_pidfdOpen := (\<lambda>_. Inr 9), k_fdLink := (\<lambda>_. Some ''anon_inode:[pidfd]'')\<rparr>) 7 demoHost
     = (Some (PidfdError d), demoHost)"
  by (rule pidfd_kill_always_refused [where fd = 9 and exe = "''/bin/nc''"]) (simp_all add: demoKernel_def hasPrefix_def)

text \<open>
  Claim C18.  The search for descendants terminates on every process table, even one with
  cycles, and finds exactly the target and the processes below it, each once.
\<close>

theorem descendants_exact:
  assumes "distinct (map fst tree)"
  shows "n_pid ` set (findDescendants tree target) = {p. (target, p) \<in> (childRel tree)\<^sup>*}
    \<and> distinct (map n_pid (findDescendants tree target))"
proof -
  obtain visited where inv: "searchInv tree target [] visited (findDescendants tree target)"
    using search_complete [OF assms] by blast
  then have "n_pid n \<in> {p. (target, p) \<in> (childRel tree)\<^sup>*}" if "n \<in> set (findDescendants tree target)" for n
    using that by (auto simp: searchInv_def)
  with searchInv_closed [OF inv] inv show ?thesis by (auto simp: searchInv_def)
qed

theorem descendants_exact_witness:
  "n_pid ` set (findDescendants [(3, 2), (2, 3), (4, 2), (9, 1)] 2)
     = {p. (2, p) \<in> (childRel [(3, 2), (2, 3), (4, 2), (9, 1)])\<^sup>*}
   \<and> map n_pid (findDescendants [(3, 2), (2, 3), (4, 2), (9, 1)] 2) = [2, 3, 4]"
  using descendants_exact [of "[(3, 2), (2, 3), (4, 2), (9, 1)]" 2]
  by (simp add: findDescendants_def newChildren_def)

text \<open>
  In the order in which \<open>KillTree\<close> goes through the table it has read, every
  descendant comes before its parent, so a parent is still there to be killed but cannot
  see its children die and replace them first.
\<close>

theorem children_before_parents:
  assumes "buildProcessTree k = Inr tree" "ns = killOrder (findDescendants tree target)"
    and "i < length ns" "j < length ns" "n_ppid (ns ! i) = n_pid (ns ! j)" "n_pid (ns ! i) \<noteq> target"
  shows "i < j"
proof -
  have "distinct (map fst tree)"
    using assms(1) treeEntries_distinct by (auto simp: buildProcessTree_def split: sum.splits)
  from search_complete [OF this] obtain visited where
    inv: "searchInv tree target [] visited (findDescendants tree target)" by blast
  have mem: "ns ! i \<in> set (findDescendants tree target)" "ns ! j \<in> set (findDescendants tree target)"
  proof -
    have "set ns = set (findDescendants tree target)" using assms(2) by simp
    with nth_mem [OF assms(3)] nth_mem [OF assms(4)]
    show "ns ! i \<in> set (findDescendants tree target)" "ns ! j \<in> set (findDescendants tree target)" by blast+
  qed
  from inv have "\<forall>n \<in> set (findDescendants tree target). n_pid n = target
      \<or> (\<exists>m \<in> set (findDescendants tree target). n_pid m = n_ppid n \<and> n_depth n = n_depth m + 1)"
    unfolding searchInv_def by simp
  with mem(1) assms(6) obtain m where m: "m \<in> set (findDescendants tree target)" "n_pid m = n_ppid (ns ! i)" "n_depth (ns ! i) = n_depth m + 1"
    by blast
  have "inj_on n_pid (set (findDescendants tree target))" using inv by (simp add: searchInv_def distinct_map)
  with m mem(2) assms(5) have "m = ns ! j" by (simp add: inj_on_def)
  then have "n_depth (ns ! j) < n_depth (ns ! i)" using m(3) by simp
  then show ?thesis using deeper_first [of i "findDescendants tree target" j] assms(3,4) unfolding assms(2) by blast
qed

theorem children_before_parents_witness:
  "let k = demoKernel\<lparr>k_procDir := Inr [(''2'', True), (''3'', True)], k_stat := (\<lambda>p. if p = 3 then Some ''3 (b) S 2 0'' else Some ''2 (a) S 1 0'')\<rparr>;
       ns = killOrder (findDescendants [(2, 1), (3, 2)] 2)
   in buildProcessTree k = Inr [(2, 1), (3, 2)] \<and> map n_pid ns = [3, 2] \<and> (0::nat) < 1"
proof -
  let ?k = "demoKernel\<lparr>k_procDir := Inr [(''2'', True), (''3'', True)], k_stat := (\<lambda>p. if p = 3 then Some ''3 (b) S 2 0'' else Some ''2 (a) S 1 0'')\<rparr>"
  let ?ns = "killOrder (findDescendants [(2, 1), (3, 2)] 2)"
  have t: "buildProcessTree ?k = Inr [(2, 1), (3, 2)]"
    by (simp add: buildProcessTree_def atoi_def parseNat_def isDigitC_def digitsVal_def digitVal_def readPPIDFromStat_def
        fieldsS_def isSpace_def)
  have ns: "?ns = [\<lparr>n_pid = 3, n_ppid = 2, n_depth = 1\<rparr>, \<lparr>n_pid = 2, n_ppid = 0, n_depth = 0\<rparr>]"
    by (simp add: killOrder_def findDescendants_def newChildren_def)
  have "(0::nat) < 1"
    by (rule children_before_parents [OF t refl, of 0 2 1]) (simp_all add: ns)
  with t ns show ?thesis by simp
qed

end
