(* ===== verification/BpfEvent.thy ===== *)
theory BpfEvent
  imports Filesys
begin

text \<open>
  The kernel events: \<open>internal/bpf/event.go\<close> (the event), \<open>event_parse.go\<close> (the decoder of
  one ring buffer record), and the record the probes write (\<open>probes/common.bpf.h\<close>).
  The printed form of an IP address is that of Go's \<open>net.IP\<close>.  Afterwards the in-memory
  loader \<open>fake.go\<close> and the delivery callback of \<open>loader_libbpf.go\<close>, as step relations
  over their channels.
\<close>

section \<open>Events\<close>

datatype EventType =
    EventUnknown | EventExec | EventFork | EventExit | EventConnect
  | EventSelfProtect | EventPtraceEnh | EventLDPreload | EventInstrument

text \<open>The numbering by \<open>iota\<close>; the numbers that name no constant are \<^term>\<open>None\<close>.\<close>

definition eventTypes :: "EventType list" where
  "eventTypes = [EventUnknown, EventExec, EventFork, EventExit, EventConnect,
     EventSelfProtect, EventPtraceEnh, EventLDPreload, EventInstrument]"

definition eventTypeOf :: "byte \<Rightarrow> EventType option" where
  "eventTypeOf b = (if unat b < length eventTypes then Some (eventTypes ! unat b) else None)"

fun typeString :: "EventType \<Rightarrow> string" where
  "typeString EventExec = ''exec''"
| "typeString EventFork = ''fork''"
| "typeString EventExit = ''exit''"
| "typeString EventConnect = ''connect''"
| "typeString EventSelfProtect = ''selfprotect''"
| "typeString EventPtraceEnh = ''ptrace_enh''"
| "typeString EventLDPreload = ''ldpreload''"
| "typeString EventInstrument = ''instrument''"
| "typeString EventUnknown = ''unknown''"

record BpfEvent =
  b_Type :: EventType
  b_Timestamp :: "gotime option"  \<comment> \<open>\<^term>\<open>None\<close>: the zero time\<close>
  b_PID :: "32 word"
  b_PPID :: "32 word"
  b_TGID :: "32 word"
  b_UID :: "32 word"
  b_Reserved :: "32 word"
  b_Comm :: string
  b_Filename :: string
  b_DAddr :: string
  b_DPort :: "16 word"
  b_Family :: byte

definition zeroBpfEvent :: BpfEvent where
  "zeroBpfEvent = \<lparr>b_Type = EventUnknown, b_Timestamp = None, b_PID = 0, b_PPID = 0, b_TGID = 0, b_UID = 0,
     b_Reserved = 0, b_Comm = [], b_Filename = [], b_DAddr = [], b_DPort = 0, b_Family = 0\<rparr>"

section \<open>Printed addresses\<close>

definition hexDigit :: "nat \<Rightarrow> char" where
  "hexDigit d = (if d < 10 then char_of (48 + d) else char_of (87 + d))"

fun hexNat :: "nat \<Rightarrow> string" where
  "hexNat n = (if n < 16 then [hexDigit n] else hexNat (n div 16) @ [hexDigit (n mod 16)])"

declare hexNat.simps [simp del]

definition ipv4String :: "byte list \<Rightarrow> string" where
  "ipv4String bs = joinS ''.'' (map (\<lambda>b. natStr (unat b)) bs)"

text \<open>
  \<open>net.IP.String\<close> on 16 bytes: an IPv4-mapped address prints as IPv4, any other as eight
  groups with the first longest run of at least two zero groups written \<open>::\<close>.
\<close>

fun groups16 :: "byte list \<Rightarrow> nat list" where
  "groups16 (a # b # bs) = (unat a * 256 + unat b) # groups16 bs"
| "groups16 _ = []"

definition zeroRun :: "nat list \<Rightarrow> nat \<Rightarrow> nat" where
  "zeroRun gs i = length (takeWhile (\<lambda>g. g = 0) (drop i gs))"

definition longestRun :: "nat list \<Rightarrow> (nat \<times> nat) option" where
  "longestRun gs =
     foldl (\<lambda>best i. let l = zeroRun gs i in
              if 2 \<le> l \<and> (case best of None \<Rightarrow> True | Some (_, m) \<Rightarrow> m < l) then Some (i, l) else best)
       None [0..<length gs]"

definition ipv6String :: "byte list \<Rightarrow> string" where
  "ipv6String bs =
     (let gs = groups16 bs in
      case longestRun gs of
        None \<Rightarrow> joinS '':'' (map hexNat gs)
      | Some (i, l) \<Rightarrow> joinS '':'' (map hexNat (take i gs)) @ ''::'' @ joinS '':'' (map hexNat (drop (i + l) gs)))"

definition ipString :: "byte list \<Rightarrow> string" where
  "ipString bs =
     (if take 12 bs = replicate 10 0 @ [255, 255] then ipv4String (drop 12 bs) else ipv6String bs)"

section \<open>Decoding\<close>

datatype parse_error = ShortBuffer nat | UnknownType byte

definition eventTotalSize :: nat where "eventTotalSize = 330"

definition slice :: "byte list \<Rightarrow> nat \<Rightarrow> nat \<Rightarrow> byte list" where
  "slice raw off n = take n (drop off raw)"

definition cStringN :: "byte list \<Rightarrow> string" where
  "cStringN bs = byteStr (takeWhile (\<lambda>b. b \<noteq> 0) bs)"

definition isFast :: "EventType \<Rightarrow> bool" where
  "isFast t \<longleftrightarrow> t \<in> {EventExec, EventSelfProtect, EventPtraceEnh, EventLDPreload, EventInstrument}"

definition parseDAddr :: "byte list \<Rightarrow> EventType \<Rightarrow> byte \<Rightarrow> string" where
  "parseDAddr raw typ family =
     (if typ \<noteq> EventConnect then []
      else if family = 2 then ipv4String (slice raw 310 4)
      else if family = 10 then ipString (slice raw 314 16)
      else [])"

definition ParseEvent :: "byte list \<Rightarrow> parse_error + BpfEvent" where
  "ParseEvent raw0 =
     (if length raw0 < eventTotalSize then Inl (ShortBuffer (length raw0))
      else
        (let raw = take eventTotalSize raw0 in
         case eventTypeOf (raw ! 0) of
           None \<Rightarrow> Inl (UnknownType (raw ! 0))
         | Some typ \<Rightarrow>
             if typ = EventUnknown then Inl (UnknownType (raw ! 0))
             else Inr \<lparr>b_Type = typ,
                    b_Timestamp = Some (sint (leWord 8 (drop 8 raw) :: 64 word)),
                    b_PID = leWord 4 (drop 16 raw), b_PPID = leWord 4 (drop 20 raw),
                    b_TGID = leWord 4 (drop 24 raw), b_UID = leWord 4 (drop 28 raw),
                    b_Reserved = (if typ = EventPtraceEnh then leWord 4 (drop 4 raw) else 0),
                    b_Comm = cStringN (slice raw 32 16),
                    b_Filename = (if isFast typ then cStringN (slice raw 48 256) else []),
                    b_DAddr = parseDAddr raw typ (raw ! 304),
                    b_DPort = leWord 2 (drop 308 raw), b_Family = raw ! 304\<rparr>))"

section \<open>The record of the probes\<close>

text \<open>\<open>struct edr_event\<close>; the addresses are kept as the bytes in memory.\<close>

record edr_event =
  c_type :: byte
  c_reserved :: "32 word"
  c_timestamp :: "64 word"
  c_pid :: "32 word"
  c_ppid :: "32 word"
  c_tgid :: "32 word"
  c_uid :: "32 word"
  c_comm :: "byte list"
  c_filename :: "byte list"
  c_family :: byte
  c_dport :: "16 word"
  c_daddr_v4 :: "byte list"
  c_daddr_v6 :: "byte list"

definition wfRecord :: "edr_event \<Rightarrow> bool" where
  "wfRecord e \<longleftrightarrow> length (c_comm e) = 16 \<and> length (c_filename e) = 256
     \<and> length (c_daddr_v4 e) = 4 \<and> length (c_daddr_v6 e) = 16"

text \<open>The fields in order, each with the alignment C gives its type.\<close>

definition cFields :: "edr_event \<Rightarrow> (nat \<times> byte list) list" where
  "cFields e = [(1, [c_type e]), (1, replicate 3 0), (4, leBytes 4 (c_reserved e)), (8, leBytes 8 (c_timestamp e)),
     (4, leBytes 4 (c_pid e)), (4, leBytes 4 (c_ppid e)), (4, leBytes 4 (c_tgid e)), (4, leBytes 4 (c_uid e)),
     (1, c_comm e), (1, c_filename e), (1, [c_family e]), (1, replicate 3 0),
     (2, leBytes 2 (c_dport e)), (4, c_daddr_v4 e), (1, c_daddr_v6 e)]"

text \<open>
  Placing fields one after the other, each at the next multiple of its alignment; with all
  alignments 1 this is the densely packed layout.  The probes clear the record first, so
  padding is zero.
\<close>

fun place :: "nat \<Rightarrow> (nat \<times> byte list) list \<Rightarrow> byte list" where
  "place off [] = replicate ((8 - off mod 8) mod 8) 0"
| "place off ((a, bs) # fs) =
     (let pad = (a - off mod a) mod a in replicate pad 0 @ bs @ place (off + pad + length bs) fs)"

definition compiledLayout :: "edr_event \<Rightarrow> byte list" where
  "compiledLayout e = place 0 (cFields e)"

definition documentedLayout :: "edr_event \<Rightarrow> byte list" where
  "documentedLayout e = concat (map snd (cFields e))"

section \<open>Words as bytes\<close>

lemma horner_bytes:
  "horner_sum uint (2 ^ 8) (map (\<lambda>i. word_of_int (k div (2 ^ 8) ^ i) :: byte) [0..<n]) = k mod (2 ^ 8) ^ n"
proof (induction n arbitrary: k)
  case (Suc n)
  have "map (\<lambda>i. word_of_int (k div (2 ^ 8) ^ i) :: byte) [0..<Suc n]
      = word_of_int k # map (\<lambda>i. word_of_int (k div 2 ^ 8 div (2 ^ 8) ^ i)) [0..<n]"
    by (simp add: upt_conv_Cons map_Suc_upt [symmetric] comp_def div_mult2_eq zdiv_zmult2_eq del: upt_Suc map_Suc_upt)
  then show ?case
    using Suc.IH [of "k div 2 ^ 8"] by (simp add: unsigned_of_int take_bit_eq_mod zmod_zmult2_eq)
qed simp

lemma length_leBytes [simp]: "length (leBytes n w) = n"
  by (simp add: leBytes_def)

lemma leWord_leBytes:
  assumes "LENGTH('a::len) \<le> 8 * n"
  shows "leWord n (leBytes n (w :: 'a word) @ rest) = w"
proof -
  have "uint w < 2 ^ LENGTH('a)" by (rule uint_lt2p)
  also have "(2 :: int) ^ LENGTH('a) \<le> (2 ^ 8) ^ n"
    unfolding power_mult [symmetric] using assms by (intro power_increasing) auto
  finally have "uint w mod (2 ^ 8) ^ n = uint w" by simp
  then show ?thesis
    using horner_bytes [of "uint w" n] by (simp add: leWord_def leBytes_def)
qed

section \<open>Decoding: lemmas\<close>

lemma length_documentedLayout: "wfRecord e \<Longrightarrow> length (documentedLayout e) = 330"
  by (simp add: documentedLayout_def cFields_def wfRecord_def)

lemmas recordParts = cFields_def wfRecord_def slice_def nth_append

text \<open>The event that the record of a probe stands for, with the address bytes given.\<close>

definition decoded :: "EventType \<Rightarrow> edr_event \<Rightarrow> byte list \<Rightarrow> byte list \<Rightarrow> BpfEvent" where
  "decoded typ e v4 v6 = \<lparr>b_Type = typ, b_Timestamp = Some (sint (c_timestamp e)),
     b_PID = c_pid e, b_PPID = c_ppid e, b_TGID = c_tgid e, b_UID = c_uid e,
     b_Reserved = (if typ = EventPtraceEnh then c_reserved e else 0),
     b_Comm = cStringN (c_comm e), b_Filename = (if isFast typ then cStringN (c_filename e) else []),
     b_DAddr = (if typ \<noteq> EventConnect then [] else if c_family e = 2 then ipv4String v4
                else if c_family e = 10 then ipString v6 else []),
     b_DPort = c_dport e, b_Family = c_family e\<rparr>"

text \<open>The two layouts agree up to the port; what follows it is \<open>post\<close>.\<close>

definition headBytes :: "edr_event \<Rightarrow> byte list" where
  "headBytes e = concat (map snd (take 13 (cFields e)))"

lemma length_headBytes: "wfRecord e \<Longrightarrow> length (headBytes e) = 310"
  by (simp add: headBytes_def cFields_def wfRecord_def)

lemma ParseEvent_head:
  assumes "wfRecord e" "eventTypeOf (c_type e) = Some typ" "typ \<noteq> EventUnknown" "20 \<le> length post"
  shows "ParseEvent (headBytes e @ post) = Inr (decoded typ e (take 4 post) (take 16 (drop 4 post)))"
proof -
  let ?raw = "headBytes e @ take 20 post"
  have len: "length (headBytes e) = 310" using assms(1) by (rule length_headBytes)
  have raw: "take 330 (headBytes e @ post) = ?raw" using len by simp
  have parts: "?raw = [c_type e] @ replicate 3 0 @ leBytes 4 (c_reserved e) @ leBytes 8 (c_timestamp e)
      @ leBytes 4 (c_pid e) @ leBytes 4 (c_ppid e) @ leBytes 4 (c_tgid e) @ leBytes 4 (c_uid e)
      @ c_comm e @ c_filename e @ [c_family e] @ replicate 3 0 @ leBytes 2 (c_dport e) @ take 20 post"
    by (simp add: headBytes_def cFields_def)
  have wf: "length (c_comm e) = 16" "length (c_filename e) = 256" using assms(1) by (simp_all add: wfRecord_def)
  have fields: "?raw ! 0 = c_type e" "?raw ! 304 = c_family e"
    "leWord 4 (drop 4 ?raw) = c_reserved e" "leWord 8 (drop 8 ?raw) = c_timestamp e"
    "leWord 4 (drop 16 ?raw) = c_pid e" "leWord 4 (drop 20 ?raw) = c_ppid e"
    "leWord 4 (drop 24 ?raw) = c_tgid e" "leWord 4 (drop 28 ?raw) = c_uid e"
    "leWord 2 (drop 308 ?raw) = c_dport e" "slice ?raw 32 16 = c_comm e" "slice ?raw 48 256 = c_filename e"
    unfolding parts by (simp_all add: wf slice_def nth_append leWord_leBytes)
  moreover have "slice ?raw 310 4 = take 4 post" "slice ?raw 314 16 = take 16 (drop 4 post)"
    by (simp_all add: slice_def len drop_take min_def)
  ultimately show ?thesis
    using assms(2-4) len raw
    by (simp add: ParseEvent_def eventTotalSize_def Let_def decoded_def parseDAddr_def)
qed

lemma documented_split: "documentedLayout e = headBytes e @ c_daddr_v4 e @ c_daddr_v6 e"
  by (simp add: documentedLayout_def headBytes_def cFields_def)

lemma place_aligned: "off mod a = 0 \<Longrightarrow> place off ((a, bs) # fs) = bs @ place (off + length bs) fs"
  by (simp add: Let_def)

lemma place_padded:
  "off mod a = m \<Longrightarrow> 0 < m \<Longrightarrow> m < a \<Longrightarrow> place off ((a, bs) # fs) = replicate (a - m) 0 @ bs @ place (off + (a - m) + length bs) fs"
  by (simp add: Let_def)

lemma compiled_split:
  assumes "wfRecord e"
  shows "compiledLayout e = headBytes e @ replicate 2 0 @ c_daddr_v4 e @ c_daddr_v6 e @ replicate 4 0"
proof -
  have wf: "length (c_comm e) = 16" "length (c_filename e) = 256" "length (c_daddr_v4 e) = 4" "length (c_daddr_v6 e) = 16"
    using assms by (simp_all add: wfRecord_def)
  have tail: "place 310 [(4, c_daddr_v4 e), (1, c_daddr_v6 e)] = replicate 2 0 @ c_daddr_v4 e @ c_daddr_v6 e @ replicate 4 0"
    using place_padded [of 310 4 2 "c_daddr_v4 e" "[(1, c_daddr_v6 e)]"] place_aligned [of 316 1 "c_daddr_v6 e" "[]"]
    by (simp add: wf del: place.simps(2) One_nat_def)
  show ?thesis
    unfolding compiledLayout_def headBytes_def cFields_def
    by (simp add: place_aligned wf tail del: place.simps(2) One_nat_def)
qed

lemma eventTypeOf_unknown: "eventTypeOf b = None \<or> eventTypeOf b = Some EventUnknown \<longleftrightarrow> b = 0 \<or> 8 < b"
proof -
  have "b = 0 \<longleftrightarrow> unat b = 0" "8 < b \<longleftrightarrow> 8 < unat b" by (simp_all add: unat_eq_0 word_less_nat_alt)
  moreover have "unat b < 9 \<Longrightarrow> unat b \<in> {0,1,2,3,4,5,6,7,8}" by auto
  ultimately show ?thesis by (auto simp: eventTypeOf_def eventTypes_def)
qed

lemma ParseEvent_error:
  "ParseEvent raw = Inl err \<longleftrightarrow>
     length raw < 330 \<and> err = ShortBuffer (length raw)
     \<or> 330 \<le> length raw \<and> err = UnknownType (raw ! 0) \<and> (raw ! 0 = 0 \<or> 8 < raw ! 0)"
proof (cases "length raw < 330")
  case False
  then have "ParseEvent raw = Inl err \<longleftrightarrow>
      err = UnknownType (raw ! 0) \<and> (eventTypeOf (raw ! 0) = None \<or> eventTypeOf (raw ! 0) = Some EventUnknown)"
    by (auto simp: ParseEvent_def eventTotalSize_def Let_def split: option.splits)
  with False show ?thesis by (simp add: eventTypeOf_unknown)
qed (auto simp: ParseEvent_def eventTotalSize_def)

section \<open>Properties of the decoder\<close>


definition demoRecord :: edr_event where
  "demoRecord = \<lparr>c_type = 4, c_reserved = 0, c_timestamp = 9, c_pid = 7, c_ppid = 1, c_tgid = 7, c_uid = 0,
     c_comm = replicate 16 0, c_filename = replicate 256 0, c_family = 2, c_dport = 443,
     c_daddr_v4 = [10, 1, 2, 3], c_daddr_v6 = replicate 16 0\<rparr>"

lemma demoRecord_ok: "wfRecord demoRecord" "eventTypeOf (c_type demoRecord) = Some EventConnect"
  by (simp_all add: demoRecord_def wfRecord_def eventTypeOf_def eventTypes_def)

lemma demo_addresses: "ipv4String [10, 1, 2, 3] = ''10.1.2.3''" "ipv4String [0, 0, 10, 1] = ''0.0.10.1''"
  by code_simp+


text \<open>
  Claim C20.  The record as C lays it out is not the documented one.  The structure is not
  packed, so the compiler aligns the IPv4 address to four bytes and places it two bytes after
  the port; the decoder reads the two padding bytes and only the first half of the address.
  Every IPv4 connection is reported under the address \<open>0.0.a.b\<close>, where \<open>a.b\<close> are the first
  two bytes of the real one, and of an IPv6 address the last two bytes are lost.
\<close>

theorem compiled_layout_misread:
  assumes "wfRecord e" "c_type e = 4" "c_daddr_v4 e = [a, b, c, d]"
  shows "length (compiledLayout e) = 336
    \<and> ParseEvent (compiledLayout e) = Inr (decoded EventConnect e [0, 0, a, b] ([c, d] @ take 14 (c_daddr_v6 e)))"
proof -
  have ty: "eventTypeOf (c_type e) = Some EventConnect"
    using assms(2) by (simp add: eventTypeOf_def eventTypes_def)
  have two: "replicate 2 (0 :: byte) = [0, 0]" by (simp add: numeral_2_eq_2)
  show ?thesis
    using ParseEvent_head [OF assms(1) ty, of "replicate 2 0 @ c_daddr_v4 e @ c_daddr_v6 e @ replicate 4 0"] assms
    by (simp add: compiled_split length_headBytes wfRecord_def two)
qed

theorem compiled_layout_misread_witness:
  "\<exists>ev. ParseEvent (compiledLayout demoRecord) = Inr ev \<and> c_daddr_v4 demoRecord = [10, 1, 2, 3] \<and> b_DAddr ev = ''0.0.10.1''"
proof -
  have "c_type demoRecord = 4" "c_daddr_v4 demoRecord = [10, 1, 2, 3]" "c_family demoRecord = 2"
    by (simp_all add: demoRecord_def)
  then show ?thesis
    using compiled_layout_misread [OF demoRecord_ok(1)] by (simp add: decoded_def demo_addresses)
qed

end
