(* ===== verification/Channel.thy ===== *)
theory Channel
  imports Prelude
begin

text \<open>
  The buffered channels of the program.  Everywhere the code sends with a \<open>select\<close> that has a
  \<open>default\<close> branch: a value enters the buffer when there is room and is dropped otherwise.  The
  locale states this contract once, for a sender \<open>give\<close> on a state whose buffer is \<open>buffered\<close>, and
  derives what the receivers rely on.  It is interpreted for the channels of the kernel loader,
  for the queue of the webhooks and for the streams of the dashboard.
\<close>

locale lossy_channel =
  fixes give :: "'c \<Rightarrow> 'a \<Rightarrow> 'c"
    and buffered :: "'c \<Rightarrow> 'a list"
    and cap :: nat
  assumes give_room: "length (buffered c) < cap \<Longrightarrow> buffered (give c x) = buffered c @ [x]"
    and give_full: "\<not> length (buffered c) < cap \<Longrightarrow> buffered (give c x) = buffered c"
begin

lemma give_bounded: "length (buffered c) \<le> cap \<Longrightarrow> length (buffered (give c x)) \<le> cap"
  by (cases "length (buffered c) < cap") (simp_all add: give_room give_full)

lemma gives_bounded: "length (buffered c) \<le> cap \<Longrightarrow> length (buffered (foldl give c xs)) \<le> cap"
  by (induction xs arbitrary: c) (simp_all add: give_bounded)

text \<open>What the receiver has taken and will take is, in order, part of what was sent.\<close>

lemma give_subseq:
  assumes "subseq (taken @ buffered c) sent"
  shows "subseq (taken @ buffered (give c x)) (sent @ [x])"
proof (cases "length (buffered c) < cap")
  case True
  then show ?thesis using list_emb_append_mono [OF assms, of "[x]" "[x]"] by (simp add: give_room)
next
  case False
  have "subseq ((taken @ buffered c) @ []) (sent @ [x])" by (rule list_emb_append_mono [OF assms]) simp
  with False show ?thesis by (simp add: give_full)
qed

text \<open>As long as no more has been sent than the buffer holds, nothing is lost.\<close>

lemma give_exact: "taken @ buffered c = sent \<Longrightarrow> length sent < cap \<Longrightarrow> taken @ buffered (give c x) = sent @ [x]"
  using give_room [of c x] by auto

text \<open>A burst keeps its beginning.\<close>

lemma gives_prefix:
  "length (buffered c) \<le> cap \<Longrightarrow> buffered (foldl give c xs) = buffered c @ take (cap - length (buffered c)) xs"
proof (induction xs arbitrary: c)
  case (Cons x xs)
  then show ?case
    by (cases "length (buffered c) < cap") (simp_all add: give_bounded give_room give_full Suc_diff_Suc take_Cons')
qed simp

end

end
