(* ===== verification/BpfLoader.thy ===== *)
theory BpfLoader
  imports BpfEvent Channel
begin

text \<open>
  The loaders of \<open>internal/bpf\<close>: the interface of \<open>loader.go\<close> as a locale, the in-memory
  loader of \<open>fake.go\<close> with its pump goroutine as a step relation, and the delivery callback
  and pump of \<open>loader_libbpf.go\<close>.  A channel is the list of its buffered values; it is
  closed once the pump has exited.  A goroutine that has passed a check and not yet acted on
  it is recorded in the state, so that every interleaving of the atomic actions is a run.
\<close>

datatype load_error = ErrAlreadyLoaded | ErrNotLoaded

section \<open>The interface\<close>

datatype loader_call = CallLoad | CallClose

text \<open>
  \<open>Load\<close> and \<open>Close\<close> up to the wait for the pump.  The contract the implementations share:
  \<open>Load\<close> succeeds once, \<open>Close\<close> needs a load and may be repeated, and neither forgets the load.
\<close>

locale bpf_loader =
  fixes load :: "'s \<Rightarrow> load_error option \<times> 's"
    and close :: "'s \<Rightarrow> load_error option \<times> 's"
    and isLoaded :: "'s \<Rightarrow> bool"
    and isClosed :: "'s \<Rightarrow> bool"
  assumes load_new: "\<not> isLoaded s \<Longrightarrow> fst (load s) = None \<and> isLoaded (snd (load s)) \<and> isClosed (snd (load s)) = isClosed s"
    and load_again: "isLoaded s \<Longrightarrow> load s = (Some ErrAlreadyLoaded, s)"
    and close_early: "\<not> isLoaded s \<Longrightarrow> close s = (Some ErrNotLoaded, s)"
    and close_loaded: "isLoaded s \<Longrightarrow> fst (close s) = None \<and> isLoaded (snd (close s)) \<and> isClosed (snd (close s))"
    and close_again: "isLoaded s \<Longrightarrow> isClosed s \<Longrightarrow> snd (close s) = s"
begin

fun call :: "'s \<Rightarrow> loader_call \<Rightarrow> load_error option \<times> 's" where
  "call s CallLoad = load s"
| "call s CallClose = close s"

fun calls :: "'s \<Rightarrow> loader_call list \<Rightarrow> (loader_call \<times> load_error option) list" where
  "calls s [] = []"
| "calls s (c # cs) = (c, fst (call s c)) # calls (snd (call s c)) cs"

lemma loaded_stays: "isLoaded s \<Longrightarrow> isLoaded (snd (call s c))"
  by (cases c) (use load_again close_loaded in auto)

lemma loaded_results:
  "isLoaded s \<Longrightarrow> calls s cs = map (\<lambda>c. (c, if c = CallLoad then Some ErrAlreadyLoaded else None)) cs"
proof (induction cs arbitrary: s)
  case (Cons c cs)
  then show ?case using loaded_stays [OF Cons.prems, of c]
    by (cases c) (use load_again close_loaded in auto)
qed simp

lemma one_load:
  "\<not> isLoaded s \<Longrightarrow> calls s (replicate n CallClose @ CallLoad # cs)
     = replicate n (CallClose, Some ErrNotLoaded) @ (CallLoad, None)
       # map (\<lambda>c. (c, if c = CallLoad then Some ErrAlreadyLoaded else None)) cs"
proof (induction n)
  case 0
  then show ?case using load_new [of s] loaded_results [of "snd (load s)"] by simp
next
  case (Suc n)
  then show ?case using close_early [of s] by simp
qed

end

section \<open>The in-memory loader\<close>

datatype pump =
    NotStarted
  | Looping                 \<comment> \<open>at the top of the loop\<close>
  | Waiting                 \<comment> \<open>queue empty, selecting on wakeup and stop\<close>
  | Pausing BpfEvent        \<comment> \<open>between two yields\<close>
  | Sending BpfEvent        \<comment> \<open>selecting on the event channel and stop\<close>
  | Duplicating BpfEvent    \<comment> \<open>event delivered, fast copy still to do\<close>
  | Exited                  \<comment> \<open>channels closed\<close>

record FakeLoader =
  f_pending :: "BpfEvent list"
  f_cursor :: nat
  f_interval :: duration
  f_out :: "BpfEvent list"
  f_errs :: "string list"
  f_fastOut :: "BpfEvent list"
  f_stop :: bool
  f_wakeup :: bool
  f_loaded :: bool
  f_closed :: bool
  f_pump :: pump
  f_injecting :: "BpfEvent list"   \<comment> \<open>\<open>Inject\<close> calls past their check\<close>
  f_waking :: nat                  \<comment> \<open>\<open>Inject\<close> calls before their wake-up\<close>
  f_erring :: "string list"        \<comment> \<open>\<open>InjectError\<close> calls past their check\<close>
  f_read :: "BpfEvent list"        \<comment> \<open>what the consumer of \<open>Events\<close> has read\<close>
  f_fastRead :: "BpfEvent list"    \<comment> \<open>what the consumer of \<open>FastEvents\<close> has read\<close>
  f_panicked :: bool               \<comment> \<open>a send on a closed channel\<close>

definition NewFakeLoader :: "BpfEvent list \<Rightarrow> duration \<Rightarrow> FakeLoader" where
  "NewFakeLoader events interval = \<lparr>f_pending = events, f_cursor = 0, f_interval = interval, f_out = [], f_errs = [],
     f_fastOut = [], f_stop = False, f_wakeup = False, f_loaded = False, f_closed = False, f_pump = NotStarted,
     f_injecting = [], f_waking = 0, f_erring = [], f_read = [], f_fastRead = [], f_panicked = False\<rparr>"

definition fakeLoad :: "FakeLoader \<Rightarrow> load_error option \<times> FakeLoader" where
  "fakeLoad f = (if f_loaded f then (Some ErrAlreadyLoaded, f)
                 else (None, f\<lparr>f_loaded := True, f_pump := Looping\<rparr>))"

text \<open>\<open>Close\<close> up to the wait for \<open>done\<close>.\<close>

definition fakeClose :: "FakeLoader \<Rightarrow> load_error option \<times> FakeLoader" where
  "fakeClose f = (if \<not> f_loaded f then (Some ErrNotLoaded, f)
                  else if f_closed f then (None, f)
                  else (None, f\<lparr>f_closed := True, f_stop := True\<rparr>))"

text \<open>\<open>Inject\<close>: the check, the append under the lock, the wake-up that does nothing when a token is there.\<close>

definition injectCheck :: "BpfEvent \<Rightarrow> FakeLoader \<Rightarrow> FakeLoader" where
  "injectCheck e f = (if f_closed f \<or> \<not> f_loaded f then f else f\<lparr>f_injecting := f_injecting f @ [e]\<rparr>)"

definition injectAppend :: "nat \<Rightarrow> FakeLoader \<Rightarrow> FakeLoader" where
  "injectAppend i f =
     (if i < length (f_injecting f)
      then f\<lparr>f_pending := f_pending f @ [f_injecting f ! i],
             f_injecting := take i (f_injecting f) @ drop (i + 1) (f_injecting f), f_waking := f_waking f + 1\<rparr>
      else f)"

definition injectWake :: "FakeLoader \<Rightarrow> FakeLoader" where
  "injectWake f = (if 0 < f_waking f then f\<lparr>f_waking := f_waking f - 1, f_wakeup := True\<rparr> else f)"

text \<open>\<open>InjectError\<close>: the check, then the send that drops on overflow and panics on a closed channel.\<close>

definition injectErrorCheck :: "string \<Rightarrow> FakeLoader \<Rightarrow> FakeLoader" where
  "injectErrorCheck err f = (if f_closed f \<or> \<not> f_loaded f then f else f\<lparr>f_erring := f_erring f @ [err]\<rparr>)"

definition injectErrorSend :: "FakeLoader \<Rightarrow> FakeLoader" where
  "injectErrorSend f =
     (case f_erring f of
        [] \<Rightarrow> f
      | err # rest \<Rightarrow>
          if f_pump f = Exited then f\<lparr>f_erring := rest, f_panicked := True\<rparr>
          else if length (f_errs f) < 16 then f\<lparr>f_erring := rest, f_errs := f_errs f @ [err]\<rparr>
          else f\<lparr>f_erring := rest\<rparr>)"

definition stamp :: "gotime \<Rightarrow> BpfEvent \<Rightarrow> BpfEvent" where
  "stamp now e = (if b_Timestamp e = None then e\<lparr>b_Timestamp := Some now\<rparr> else e)"

text \<open>
  The atomic actions of the pump.  A select with several ready cases may take any of them.
\<close>

inductive pumpStep :: "FakeLoader \<Rightarrow> FakeLoader \<Rightarrow> bool" where
  empty: "f_pump f = Looping \<Longrightarrow> length (f_pending f) \<le> f_cursor f \<Longrightarrow> pumpStep f (f\<lparr>f_pump := Waiting\<rparr>)"
| woken: "f_pump f = Waiting \<Longrightarrow> f_wakeup f \<Longrightarrow> pumpStep f (f\<lparr>f_wakeup := False, f_pump := Looping\<rparr>)"
| take: "f_pump f = Looping \<Longrightarrow> f_cursor f < length (f_pending f) \<Longrightarrow> e = stamp now (f_pending f ! f_cursor f)
    \<Longrightarrow> pumpStep f (f\<lparr>f_cursor := f_cursor f + 1, f_pump := (if 0 < f_interval f then Pausing e else Sending e)\<rparr>)"
| paused: "f_pump f = Pausing e \<Longrightarrow> pumpStep f (f\<lparr>f_pump := Sending e\<rparr>)"
| sent: "f_pump f = Sending e \<Longrightarrow> length (f_out f) < 32 \<Longrightarrow> pumpStep f (f\<lparr>f_out := f_out f @ [e], f_pump := Duplicating e\<rparr>)"
| fast: "f_pump f = Duplicating e \<Longrightarrow> isFast (b_Type e) \<Longrightarrow> length (f_fastOut f) < 32
    \<Longrightarrow> pumpStep f (f\<lparr>f_fastOut := f_fastOut f @ [e], f_pump := Looping\<rparr>)"
| slow: "f_pump f = Duplicating e \<Longrightarrow> \<not> isFast (b_Type e) \<or> 32 \<le> length (f_fastOut f) \<Longrightarrow> pumpStep f (f\<lparr>f_pump := Looping\<rparr>)"
| stopped: "f_stop f \<Longrightarrow> f_pump f = Waiting \<or> f_pump f = Pausing e \<or> f_pump f = Sending e \<Longrightarrow> pumpStep f (f\<lparr>f_pump := Exited\<rparr>)"

inductive fakeStep :: "FakeLoader \<Rightarrow> FakeLoader \<Rightarrow> bool" where
  Load: "fakeStep f (snd (fakeLoad f))"
| Close: "fakeStep f (snd (fakeClose f))"
| Inject1: "fakeStep f (injectCheck e f)"
| Inject2: "fakeStep f (injectAppend i f)"
| Inject3: "fakeStep f (injectWake f)"
| InjectError1: "fakeStep f (injectErrorCheck err f)"
| InjectError2: "fakeStep f (injectErrorSend f)"
| Pump: "pumpStep f f' \<Longrightarrow> fakeStep f f'"
| Read: "f_out f = e # es \<Longrightarrow> fakeStep f (f\<lparr>f_out := es, f_read := f_read f @ [e]\<rparr>)"
| FastRead: "f_fastOut f = e # es \<Longrightarrow> fakeStep f (f\<lparr>f_fastOut := es, f_fastRead := f_fastRead f @ [e]\<rparr>)"
| ErrRead: "f_errs f = err # errs \<Longrightarrow> fakeStep f (f\<lparr>f_errs := errs\<rparr>)"

inductive fakeReach :: "FakeLoader \<Rightarrow> bool" where
  start: "fakeReach (NewFakeLoader events interval)"
| step: "fakeReach f \<Longrightarrow> fakeStep f f' \<Longrightarrow> fakeReach f'"

interpretation fake: bpf_loader fakeLoad fakeClose f_loaded f_closed
  by unfold_locales (auto simp: fakeLoad_def fakeClose_def)

section \<open>Order, completeness, no lost wake-up\<close>

definition stamped :: "BpfEvent \<Rightarrow> BpfEvent \<Rightarrow> bool" where
  "stamped p e \<longleftrightarrow> (\<exists>now. e = stamp now p)"

fun inHand :: "pump \<Rightarrow> BpfEvent list" where
  "inHand (Pausing e) = [e]"
| "inHand (Sending e) = [e]"
| "inHand _ = []"

definition delivered :: "FakeLoader \<Rightarrow> BpfEvent list" where
  "delivered f = f_read f @ f_out f"

text \<open>The pump has taken a prefix of the queue; all of it is delivered but at most the last event.\<close>

definition orderInv :: "FakeLoader \<Rightarrow> bool" where
  "orderInv f \<longleftrightarrow> f_cursor f \<le> length (f_pending f)
     \<and> (if f_pump f = Exited
        then (\<exists>n. n \<le> f_cursor f \<and> f_cursor f \<le> n + 1 \<and> list_all2 stamped (take n (f_pending f)) (delivered f))
        else list_all2 stamped (take (f_cursor f) (f_pending f)) (delivered f @ inHand (f_pump f)))"

definition wakeInv :: "FakeLoader \<Rightarrow> bool" where
  "wakeInv f \<longleftrightarrow> (f_pump f = Waiting \<and> f_cursor f < length (f_pending f) \<and> f_waking f = 0 \<longrightarrow> f_wakeup f)
     \<and> (f_pump f = NotStarted \<longleftrightarrow> \<not> f_loaded f) \<and> f_stop f = f_closed f \<and> (f_pump f = Exited \<longrightarrow> f_closed f)
     \<and> (\<not> f_loaded f \<longrightarrow> \<not> f_closed f \<and> f_injecting f = [] \<and> f_waking f = 0)"

definition fastInv :: "FakeLoader \<Rightarrow> bool" where
  "fastInv f \<longleftrightarrow> (\<exists>xs. delivered f = xs @ (case f_pump f of Duplicating e \<Rightarrow> [e] | _ \<Rightarrow> [])
     \<and> subseq (f_fastRead f @ f_fastOut f) (filter (\<lambda>e. isFast (b_Type e)) xs))"

lemmas fakeOps = fakeLoad_def fakeClose_def injectCheck_def injectAppend_def injectWake_def
  injectErrorCheck_def injectErrorSend_def

lemma take_queue_append: "n \<le> length xs \<Longrightarrow> take n (xs @ ys) = take n xs"
  by simp

lemma orderInv_pump: "pumpStep f f' \<Longrightarrow> orderInv f \<Longrightarrow> orderInv f'"
proof (induction rule: pumpStep.induct)
  case (take f e now)
  then have "take (Suc (f_cursor f)) (f_pending f) = take (f_cursor f) (f_pending f) @ [f_pending f ! f_cursor f]"
    by (simp add: take_Suc_conv_app_nth)
  moreover have "list_all2 stamped (take (f_cursor f) (f_pending f)) (delivered f)"
    using take by (simp add: orderInv_def)
  moreover have "stamped (f_pending f ! f_cursor f) e" using take by (auto simp: stamped_def)
  ultimately have "list_all2 stamped (take (Suc (f_cursor f)) (f_pending f)) (delivered f @ [e])"
    by (simp add: list_all2_appendI)
  with take show ?case by (simp add: orderInv_def delivered_def)
next
  case (stopped f e)
  show ?case
  proof (cases "f_pump f = Waiting")
    case True
    with stopped show ?thesis by (auto simp: orderInv_def delivered_def)
  next
    case False
    with stopped have hand: "inHand (f_pump f) = [e]" "f_pump f \<noteq> Exited" by auto
    with stopped have all: "list_all2 stamped (take (f_cursor f) (f_pending f)) (delivered f @ [e])"
      and le: "f_cursor f \<le> length (f_pending f)" by (simp_all add: orderInv_def)
    then have len: "f_cursor f = length (delivered f) + 1" by (auto dest: list_all2_lengthD)
    have "list_all2 stamped (take (length (delivered f)) (f_pending f)) (delivered f)"
      using list_all2_takeI [OF all, of "length (delivered f)"] len by simp
    with len le show ?thesis by (auto simp: orderInv_def delivered_def intro!: exI [of _ "length (delivered f)"])
  qed
qed (auto simp: orderInv_def delivered_def)

lemma orderInv_step: "fakeStep f f' \<Longrightarrow> orderInv f \<Longrightarrow> wakeInv f \<Longrightarrow> orderInv f'"
proof (induction rule: fakeStep.induct)
  case (Pump f f')
  then show ?case using orderInv_pump by blast
next
  case (Load f)
  then show ?case by (auto simp: orderInv_def wakeInv_def delivered_def fakeOps)
next
  case (Inject2 f i)
  then show ?case
    by (cases "f_pump f = Exited") (fastforce simp: orderInv_def delivered_def fakeOps)+
qed (auto simp: orderInv_def delivered_def fakeOps split: list.splits)

lemma wakeInv_pump: "pumpStep f f' \<Longrightarrow> wakeInv f \<Longrightarrow> wakeInv f'"
  by (induction rule: pumpStep.induct) (auto simp: wakeInv_def)

lemma wakeInv_step: "fakeStep f f' \<Longrightarrow> wakeInv f \<Longrightarrow> wakeInv f'"
proof (induction rule: fakeStep.induct)
  case (Pump f f')
  then show ?case using wakeInv_pump by blast
qed (auto simp: wakeInv_def fakeOps split: list.splits)

lemma fastInv_pump: "pumpStep f f' \<Longrightarrow> fastInv f \<Longrightarrow> fastInv f'"
proof (induction rule: pumpStep.induct)
  case (sent f e)
  then show ?case by (auto simp: fastInv_def delivered_def)
next
  case (fast f e)
  then obtain xs where "delivered f = xs @ [e]" "subseq (f_fastRead f @ f_fastOut f) (filter (\<lambda>e. isFast (b_Type e)) xs)"
    by (auto simp: fastInv_def)
  with fast show ?case
    by (auto simp: fastInv_def delivered_def intro!: exI [of _ "xs @ [e]"]
        simp flip: append_assoc)
next
  case (slow f e)
  then obtain xs where "delivered f = xs @ [e]" "subseq (f_fastRead f @ f_fastOut f) (filter (\<lambda>e. isFast (b_Type e)) xs)"
    by (auto simp: fastInv_def)
  with slow show ?case
    by (auto simp: fastInv_def delivered_def intro!: exI [of _ "xs @ [e]"] subseq_rev_drop_many)
qed (auto simp: fastInv_def delivered_def)

lemma fastInv_step: "fakeStep f f' \<Longrightarrow> fastInv f \<Longrightarrow> wakeInv f \<Longrightarrow> fastInv f'"
proof (induction rule: fakeStep.induct)
  case (Pump f f')
  then show ?case using fastInv_pump by blast
next
  case (Load f)
  then show ?case by (auto simp: fastInv_def wakeInv_def delivered_def fakeOps)
qed (auto simp: fastInv_def delivered_def fakeOps split: list.splits)

lemma reach_inv: "fakeReach f \<Longrightarrow> orderInv f \<and> wakeInv f \<and> fastInv f"
proof (induction rule: fakeReach.induct)
  case (start events interval)
  show ?case by (simp add: orderInv_def wakeInv_def fastInv_def NewFakeLoader_def delivered_def)
next
  case (step f f')
  then show ?case using orderInv_step wakeInv_step fastInv_step by blast
qed

section \<open>The pump after a stop\<close>

lemma stop_exits:
  "f_stop g \<Longrightarrow> f_pump g = Waiting \<or> f_pump g = Sending e \<or> f_pump g = Pausing e
     \<Longrightarrow> \<exists>g'. pumpStep g g' \<and> f_pump g' = Exited"
  using pumpStep.stopped [of g e] by force

lemma loop_exits:
  assumes g: "f_stop g" "f_pump g = Looping"
  shows "\<exists>g1 g2. pumpStep g g1 \<and> pumpStep g1 g2 \<and> f_pump g2 = Exited"
proof (cases "f_cursor g < length (f_pending g)")
  case True
  let ?e = "stamp 0 (f_pending g ! f_cursor g)"
  let ?h = "g\<lparr>f_cursor := f_cursor g + 1, f_pump := (if 0 < f_interval g then Pausing ?e else Sending ?e)\<rparr>"
  have "pumpStep g ?h" using pumpStep.take [OF g(2) True] by blast
  moreover have "\<exists>g'. pumpStep ?h g' \<and> f_pump g' = Exited" using stop_exits [of ?h ?e] g(1) by simp
  ultimately show ?thesis by blast
next
  case False
  let ?h = "g\<lparr>f_pump := Waiting\<rparr>"
  have "pumpStep g ?h" using pumpStep.empty [OF g(2)] False by simp
  moreover have "\<exists>g'. pumpStep ?h g' \<and> f_pump g' = Exited" using stop_exits [of ?h] g(1) by simp
  ultimately show ?thesis by blast
qed

lemma dup_loops: "f_pump f = Duplicating e \<Longrightarrow> \<exists>g. pumpStep f g \<and> f_pump g = Looping \<and> f_stop g = f_stop f"
  using pumpStep.fast [of f e] pumpStep.slow [of f e] by (cases "isFast (b_Type e) \<and> length (f_fastOut f) < 32") force+

section \<open>Properties of the loaders\<close>

text \<open>
  Claim C21.  In every interleaving of clients, pump and consumers, the in-memory loader
  delivers its queue in order: what was read from \<open>Events\<close> and what is buffered there is the
  queue up to the cursor, each event once and unchanged but for a missing timestamp; only the
  event in the pump's hand when it stops is not delivered.  The fast channel holds a
  subsequence of the delivered events of the fast types.
\<close>

theorem fake_delivers_in_order:
  assumes "fakeReach f"
  shows "\<exists>n. n \<le> f_cursor f \<and> f_cursor f \<le> n + 1 \<and> f_cursor f \<le> length (f_pending f)
    \<and> list_all2 stamped (take n (f_pending f)) (f_read f @ f_out f)
    \<and> (f_pump f = Looping \<or> f_pump f = Waiting \<longrightarrow> n = f_cursor f)
    \<and> subseq (f_fastRead f @ f_fastOut f) (filter (\<lambda>e. isFast (b_Type e)) (f_read f @ f_out f))"
proof -
  from reach_inv [OF assms] have o: "orderInv f" and x: "fastInv f" by blast+
  from x have sub: "subseq (f_fastRead f @ f_fastOut f) (filter (\<lambda>e. isFast (b_Type e)) (delivered f))"
    by (auto simp: fastInv_def intro: subseq_rev_drop_many split: pump.splits)
  show ?thesis
  proof (cases "f_pump f = Exited")
    case True
    with o sub show ?thesis by (auto simp: orderInv_def delivered_def)
  next
    case False
    with o have all: "list_all2 stamped (take (f_cursor f) (f_pending f)) (delivered f @ inHand (f_pump f))"
      and le: "f_cursor f \<le> length (f_pending f)" by (simp_all add: orderInv_def)
    then have len: "f_cursor f = length (delivered f) + length (inHand (f_pump f))"
      by (auto dest: list_all2_lengthD)
    have "list_all2 stamped (take (length (delivered f)) (f_pending f)) (delivered f)"
      using list_all2_takeI [OF all, of "length (delivered f)"] len by (simp add: min_def)
    moreover have "length (inHand (f_pump f)) \<le> 1" by (cases "f_pump f") simp_all
    moreover have "f_pump f = Looping \<or> f_pump f = Waiting \<longrightarrow> inHand (f_pump f) = []" by auto
    ultimately show ?thesis using len le sub
      by (intro exI [of _ "length (delivered f)"]) (auto simp: delivered_def)
  qed
qed

definition demoExec :: BpfEvent where
  "demoExec = zeroBpfEvent\<lparr>b_Type := EventExec, b_PID := 7, b_Timestamp := Some 3\<rparr>"

lemma demoExec_stamp: "stamp now demoExec = demoExec" "isFast (b_Type demoExec)"
  by (simp_all add: stamp_def demoExec_def isFast_def)

text \<open>A loader with one queued event, after it has been delivered, and after \<open>Close\<close>.\<close>

definition demoLoaded :: FakeLoader where "demoLoaded = snd (fakeLoad (NewFakeLoader [demoExec] 0))"

definition demoTaken :: FakeLoader where
  "demoTaken = demoLoaded\<lparr>f_cursor := 1, f_pump := Sending demoExec\<rparr>"

definition demoSent :: FakeLoader where
  "demoSent = demoTaken\<lparr>f_out := [demoExec], f_pump := Duplicating demoExec\<rparr>"

lemmas demoLoaders = demoSent_def demoTaken_def demoLoaded_def fakeLoad_def NewFakeLoader_def

lemma demo_reach: "fakeReach demoLoaded" "fakeReach demoTaken" "fakeReach demoSent"
proof -
  show l: "fakeReach demoLoaded"
    unfolding demoLoaded_def by (rule fakeReach.step [OF fakeReach.start fakeStep.Load])
  have "pumpStep demoLoaded demoTaken"
    using pumpStep.take [of demoLoaded demoExec 0] by (simp add: demoExec_stamp demoLoaders)
  with l show t: "fakeReach demoTaken" using fakeReach.step fakeStep.Pump by blast
  have "pumpStep demoTaken demoSent"
    using pumpStep.sent [of demoTaken demoExec] by (simp add: demoLoaders)
  with t show "fakeReach demoSent" using fakeReach.step fakeStep.Pump by blast
qed

theorem fake_delivers_in_order_witness:
  "\<exists>n. n \<le> 1 \<and> list_all2 stamped (take n [demoExec]) [demoExec]"
  using fake_delivers_in_order [OF demo_reach(3)] by (auto simp: demoLoaders)

text \<open>
  Claim C22.  No wake-up is lost and \<open>Close\<close> can always finish: whenever the pump sleeps while
  an event is queued, a wake-up token is there or the injecting goroutine is about to leave
  one; and once the loader is closed, at most three actions of the pump alone lead to its exit,
  after which \<open>Close\<close> returns.
\<close>

theorem fake_never_stuck:
  assumes "fakeReach f" "f_loaded f"
  shows "(f_pump f = Waiting \<and> f_cursor f < length (f_pending f) \<longrightarrow> f_wakeup f \<or> 0 < f_waking f)
    \<and> (f_closed f \<and> f_pump f \<noteq> Exited \<longrightarrow>
         (\<exists>f1 f2 f3. pumpStep\<^sup>=\<^sup>= f f1 \<and> pumpStep\<^sup>=\<^sup>= f1 f2 \<and> pumpStep f2 f3 \<and> f_pump f3 = Exited))"
proof -
  from reach_inv [OF assms(1)] have w: "wakeInv f" by blast
  have "f_stop f \<Longrightarrow> f_pump f \<noteq> Exited \<Longrightarrow>
      \<exists>f1 f2 f3. pumpStep\<^sup>=\<^sup>= f f1 \<and> pumpStep\<^sup>=\<^sup>= f1 f2 \<and> pumpStep f2 f3 \<and> f_pump f3 = Exited"
    using w assms(2) stop_exits [of f] loop_exits [of f] dup_loops [of f] loop_exits
    by (cases "f_pump f") (auto simp: wakeInv_def, metis+)
  with w show ?thesis by (auto simp: wakeInv_def)
qed

theorem fake_never_stuck_witness:
  "\<exists>f1 f2 f3. pumpStep\<^sup>=\<^sup>= (snd (fakeClose demoSent)) f1 \<and> pumpStep\<^sup>=\<^sup>= f1 f2 \<and> pumpStep f2 f3 \<and> f_pump f3 = Exited"
  using fake_never_stuck [OF fakeReach.step [OF demo_reach(3) fakeStep.Close]]
  by (simp add: demoLoaders fakeClose_def)

text \<open>
  \<open>InjectError\<close> can panic: its check that the loader is open and its send are two
  actions, and the pump closes the error channel in between when \<open>Close\<close> runs concurrently.
\<close>

theorem inject_error_can_panic: "\<exists>f. fakeReach f \<and> f_panicked f"
proof -
  let ?a = "injectErrorCheck ''x'' demoTaken"
  let ?b = "snd (fakeClose ?a)"
  let ?c = "?b\<lparr>f_pump := Exited\<rparr>"
  have "fakeReach ?a" by (rule fakeReach.step [OF demo_reach(2) fakeStep.InjectError1])
  then have "fakeReach ?b" by (rule fakeReach.step [OF _ fakeStep.Close])
  moreover have "pumpStep ?b ?c"
    by (rule pumpStep.stopped [of _ demoExec]) (simp_all add: demoLoaders injectErrorCheck_def fakeClose_def)
  ultimately have "fakeReach ?c" using fakeReach.step fakeStep.Pump by blast
  then have "fakeReach (injectErrorSend ?c)" by (rule fakeReach.step [OF _ fakeStep.InjectError2])
  moreover have "f_panicked (injectErrorSend ?c)"
    by (simp add: demoLoaders injectErrorCheck_def injectErrorSend_def fakeClose_def)
  ultimately show ?thesis by blast
qed

section \<open>The kernel loader\<close>

text \<open>
  \<open>libbpfLoader\<close> with the BPF maps behind its handle.  \<open>lb_handle\<close> is false once the handle
  has been freed; \<open>lb_registered\<close> says whether the callback finds the loader in \<open>goCtxMap\<close>.
  A map operation of the kernel either succeeds or fails with a negative code given as argument.
\<close>

record libbpfLoader =
  lb_out :: "BpfEvent list"
  lb_errs :: "string list"
  lb_fastOut :: "BpfEvent list"
  lb_stop :: bool
  lb_done :: bool
  lb_loaded :: bool
  lb_closed :: bool
  lb_registered :: bool
  lb_handle :: bool
  lb_agentPID :: "32 word"
  lb_comms :: "string list"
  lb_filenames :: "string list"

definition newLibbpf :: libbpfLoader where
  "newLibbpf = \<lparr>lb_out = [], lb_errs = [], lb_fastOut = [], lb_stop = False, lb_done = False, lb_loaded = False,
     lb_closed = False, lb_registered = True, lb_handle = True, lb_agentPID = 0, lb_comms = [], lb_filenames = []\<rparr>"

text \<open>
  \<open>NewLibBPFLoader\<close>: \<open>present\<close> tells which objects exist in the directory as regular files, \<open>rc\<close> is
  the result of \<open>edr_open\<close>.
\<close>

definition findProbesObject :: "(string \<Rightarrow> bool) \<Rightarrow> string \<Rightarrow> string option" where
  "findProbesObject present objDir =
     find present (map (\<lambda>name. objDir @ ''/'' @ name) [''probes.bpf.o'', ''all.bpf.o''])"

datatype open_error = EmptyDir | NoObject | OpenFailed int

definition NewLibBPFLoader :: "(string \<Rightarrow> bool) \<Rightarrow> (string \<Rightarrow> int) \<Rightarrow> string \<Rightarrow> open_error + libbpfLoader" where
  "NewLibBPFLoader present rc objDir =
     (if objDir = [] then Inl EmptyDir
      else (case findProbesObject present objDir of
              None \<Rightarrow> Inl NoObject
            | Some path \<Rightarrow> if rc path \<noteq> 0 then Inl (OpenFailed (rc path)) else Inr newLibbpf))"

definition libLoad :: "libbpfLoader \<Rightarrow> load_error option \<times> libbpfLoader" where
  "libLoad l = (if lb_loaded l then (Some ErrAlreadyLoaded, l) else (None, l\<lparr>lb_loaded := True\<rparr>))"

text \<open>\<open>Close\<close> up to the wait for \<open>done\<close>, and what follows the wait.\<close>

definition libClose :: "libbpfLoader \<Rightarrow> load_error option \<times> libbpfLoader" where
  "libClose l = (if \<not> lb_loaded l then (Some ErrNotLoaded, l)
                 else if lb_closed l then (None, l)
                 else (None, l\<lparr>lb_closed := True, lb_stop := True\<rparr>))"

definition libRelease :: "libbpfLoader \<Rightarrow> libbpfLoader" where
  "libRelease l = l\<lparr>lb_handle := False, lb_registered := False\<rparr>"

interpretation lib: bpf_loader libLoad libClose lb_loaded lb_closed
  by unfold_locales (auto simp: libLoad_def libClose_def)

datatype map_error = MapNotLoaded | MapFailed int

text \<open>The key of a map slot of the given size: the C string, cut to leave room for the final zero.\<close>

definition mapKey :: "nat \<Rightarrow> string \<Rightarrow> string" where
  "mapKey slot s = take (slot - 1) (takeWhile (\<lambda>c. c \<noteq> char_of (0 :: nat)) s)"

definition mapPut :: "string \<Rightarrow> string list \<Rightarrow> string list" where
  "mapPut k ks = (if k \<in> set ks then ks else ks @ [k])"

definition libSetAgentPID :: "int \<Rightarrow> 32 word \<Rightarrow> libbpfLoader \<Rightarrow> map_error option \<times> libbpfLoader" where
  "libSetAgentPID rc pid l = (if lb_closed l then (Some MapNotLoaded, l)
     else if rc \<noteq> 0 then (Some (MapFailed rc), l) else (None, l\<lparr>lb_agentPID := pid\<rparr>))"

definition libBlacklistAdd :: "int \<Rightarrow> string \<Rightarrow> libbpfLoader \<Rightarrow> map_error option \<times> libbpfLoader" where
  "libBlacklistAdd rc comm l = (if lb_closed l then (Some MapNotLoaded, l)
     else if rc \<noteq> 0 then (Some (MapFailed rc), l) else (None, l\<lparr>lb_comms := mapPut (mapKey 16 comm) (lb_comms l)\<rparr>))"

definition libBlacklistFilenameAdd :: "int \<Rightarrow> string \<Rightarrow> libbpfLoader \<Rightarrow> map_error option \<times> libbpfLoader" where
  "libBlacklistFilenameAdd rc path l = (if lb_closed l then (Some MapNotLoaded, l)
     else if rc \<noteq> 0 then (Some (MapFailed rc), l)
     else (None, l\<lparr>lb_filenames := mapPut (mapKey 256 path) (lb_filenames l)\<rparr>))"

text \<open>Clearing deletes the first key until none is left; \<open>fail\<close> is the code of the first deletion that fails.\<close>

fun clearKeys :: "(string \<Rightarrow> int) \<Rightarrow> string list \<Rightarrow> int \<times> string list" where
  "clearKeys rc [] = (0, [])"
| "clearKeys rc (k # ks) = (if rc k \<noteq> 0 then (rc k, k # ks) else clearKeys rc ks)"

definition libBlacklistClear :: "(string \<Rightarrow> int) \<Rightarrow> libbpfLoader \<Rightarrow> map_error option \<times> libbpfLoader" where
  "libBlacklistClear rc l = (if lb_closed l then (Some MapNotLoaded, l)
     else (case clearKeys rc (lb_comms l) of
             (r, ks) \<Rightarrow> (if r \<noteq> 0 then Some (MapFailed r) else None, l\<lparr>lb_comms := ks\<rparr>)))"

definition libBlacklistFilenameClear :: "(string \<Rightarrow> int) \<Rightarrow> libbpfLoader \<Rightarrow> map_error option \<times> libbpfLoader" where
  "libBlacklistFilenameClear rc l = (if lb_closed l then (Some MapNotLoaded, l)
     else (case clearKeys rc (lb_filenames l) of
             (r, ks) \<Rightarrow> (if r \<noteq> 0 then Some (MapFailed r) else None, l\<lparr>lb_filenames := ks\<rparr>)))"

text \<open>A send that gives up when the buffer is full.\<close>

definition offer :: "nat \<Rightarrow> 'a list \<Rightarrow> 'a \<Rightarrow> 'a list" where
  "offer cap buf x = (if length buf < cap then buf @ [x] else buf)"

text \<open>
  The callback of the ring buffer.  \<open>stopped\<close> says whether \<open>Close\<close> has closed \<open>stop\<close> since the
  check at the top, \<open>pickStop\<close> resolves the select when both cases are ready.
\<close>

definition dropMessage :: "BpfEvent \<Rightarrow> string" where
  "dropMessage ev = ''bpf: channel full, dropped type='' @ typeString (b_Type ev) @ '' pid='' @ natStr (unat (b_PID ev))"

definition edr_deliver_event :: "bool \<Rightarrow> bool \<Rightarrow> byte list \<Rightarrow> libbpfLoader \<Rightarrow> int \<times> libbpfLoader" where
  "edr_deliver_event stopped pickStop raw l =
     (if \<not> lb_registered l \<or> lb_closed l then (-1, l)
      else (case ParseEvent raw of
              Inl _ \<Rightarrow> (0, l)
            | Inr ev \<Rightarrow>
                (let l1 = (if isFast (b_Type ev) then l\<lparr>lb_fastOut := offer 256 (lb_fastOut l) ev\<rparr> else l) in
                 if length (lb_out l1) < 256 \<and> \<not> (stopped \<and> pickStop) then (0, l1\<lparr>lb_out := lb_out l1 @ [ev]\<rparr>)
                 else if stopped then (-1, l1)
                 else (-1, l1\<lparr>lb_errs := offer 16 (lb_errs l1) (dropMessage ev)\<rparr>))))"

text \<open>
  The callbacks of one poll, which libbpf ends at the first negative answer, and one round of
  the pump; \<open>closedDuring\<close> says whether \<open>Close\<close> ran during the poll.
\<close>

fun pollRecords :: "byte list list \<Rightarrow> libbpfLoader \<Rightarrow> libbpfLoader" where
  "pollRecords [] l = l"
| "pollRecords (raw # raws) l =
     (case edr_deliver_event False False raw l of (rc, l') \<Rightarrow> if rc < 0 then l' else pollRecords raws l')"

definition libPump :: "byte list list \<Rightarrow> int \<Rightarrow> bool \<Rightarrow> libbpfLoader \<Rightarrow> libbpfLoader" where
  "libPump raws rc closedDuring l =
     (if lb_closed l then l\<lparr>lb_done := True\<rparr>
      else
        (let l1 = pollRecords raws l in
         if closedDuring then l1\<lparr>lb_closed := True, lb_stop := True, lb_done := True\<rparr>
         else if rc < 0 then l1\<lparr>lb_errs := offer 16 (lb_errs l1) (''bpf: edr_poll rc='' @ itoa rc)\<rparr>
         else l1))"

section \<open>Properties of the kernel loader\<close>

definition parsedEvents :: "byte list list \<Rightarrow> BpfEvent list" where
  "parsedEvents raws = List.map_filter (\<lambda>raw. case ParseEvent raw of Inr ev \<Rightarrow> Some ev | Inl _ \<Rightarrow> None) raws"

text \<open>The fast copies a burst of events leaves in a buffer.\<close>

definition fastCopies :: "BpfEvent list \<Rightarrow> BpfEvent list \<Rightarrow> BpfEvent list" where
  "fastCopies buf evs = foldl (offer 256) buf (filter (\<lambda>e. isFast (b_Type e)) evs)"

lemma parsedEvents_simps [simp]:
  "parsedEvents [] = []"
  "parsedEvents (raw # raws) = (case ParseEvent raw of Inr ev \<Rightarrow> ev # parsedEvents raws | Inl _ \<Rightarrow> parsedEvents raws)"
  by (auto simp: parsedEvents_def List.map_filter_def split: sum.splits)

interpretation chan: lossy_channel "offer cap" "\<lambda>buf. buf" cap
  by unfold_locales (simp_all add: offer_def)

lemma pollRecords_open:
  fixes raws :: "byte list list"
  assumes "lb_registered l" "\<not> lb_closed l" "length (lb_out l) \<le> 256"
  defines "evs \<equiv> parsedEvents raws" and "room \<equiv> 256 - length (lb_out l)"
  shows "pollRecords raws l =
    (if length evs \<le> room then l\<lparr>lb_out := lb_out l @ evs, lb_fastOut := fastCopies (lb_fastOut l) evs\<rparr>
     else l\<lparr>lb_out := lb_out l @ take room evs, lb_fastOut := fastCopies (lb_fastOut l) (take (room + 1) evs),
            lb_errs := offer 16 (lb_errs l) (dropMessage (evs ! room))\<rparr>)"
  using assms(1-3) unfolding evs_def room_def
proof (induction raws arbitrary: l)
  case Nil
  then show ?case by (simp add: fastCopies_def)
next
  case (Cons raw raws)
  show ?case
  proof (cases "ParseEvent raw")
    case (Inl err)
    with Cons show ?thesis by (simp add: edr_deliver_event_def)
  next
    case (Inr ev)
    show ?thesis
    proof (cases "length (lb_out l) < 256")
      case True
      define l1 where "l1 = (if isFast (b_Type ev) then l\<lparr>lb_fastOut := offer 256 (lb_fastOut l) ev\<rparr> else l)"
      let ?l2 = "l1\<lparr>lb_out := lb_out l @ [ev]\<rparr>"
      have del: "edr_deliver_event False False raw l = (0, ?l2)"
        using Cons.prems True Inr by (simp add: edr_deliver_event_def l1_def Let_def)
      obtain r where r: "256 - length (lb_out l) = Suc r" using True by (cases "256 - length (lb_out l)") auto
      then have "255 - length (lb_out l) = r" by simp
      moreover have "lb_registered ?l2" "\<not> lb_closed ?l2" "length (lb_out ?l2) \<le> 256"
        using Cons.prems True by (simp_all add: l1_def)
      ultimately show ?thesis
        using Cons.IH [of ?l2] del Inr r by (simp add: l1_def fastCopies_def)
    next
      case False
      with Cons.prems Inr show ?thesis by (simp add: edr_deliver_event_def Let_def fastCopies_def offer_def)
    qed
  qed
qed

text \<open>
  One poll of an open loader: the records that decode are appended to the event
  channel in order as long as it has room; the first one that finds it full is reported on
  the error channel (when that has room) and ends the poll.  The fast channel gets its copies
  before the slow one is tried, the dropped event's included, and no channel exceeds its buffer.
\<close>

theorem poll_delivers_or_reports:
  assumes "lb_registered l" "\<not> lb_closed l" "length (lb_out l) \<le> 256" "length (lb_fastOut l) \<le> 256"
  shows "let evs = parsedEvents raws; room = 256 - length (lb_out l); l' = pollRecords raws l
    in lb_out l' = lb_out l @ take room evs \<and> length (lb_out l') \<le> 256 \<and> length (lb_fastOut l') \<le> 256
     \<and> lb_fastOut l' = fastCopies (lb_fastOut l) (take (room + 1) evs)
     \<and> lb_errs l' = (if length evs \<le> room then lb_errs l else offer 16 (lb_errs l) (dropMessage (evs ! room)))"
  using assms(3) chan.gives_bounded [OF assms(4)]
  by (auto simp: pollRecords_open [OF assms(1-3)] fastCopies_def Let_def)

theorem poll_delivers_or_reports_witness:
  "length (lb_out (pollRecords [documentedLayout demoRecord] newLibbpf)) = 1"
proof -
  have "parsedEvents [documentedLayout demoRecord] = [decoded EventConnect demoRecord (c_daddr_v4 demoRecord) (c_daddr_v6 demoRecord)]"
    using ParseEvent_head [OF demoRecord_ok, of "c_daddr_v4 demoRecord @ c_daddr_v6 demoRecord"] demoRecord_ok(1)
    by (simp add: documented_split wfRecord_def)
  then show ?thesis
    using poll_delivers_or_reports [of newLibbpf "[documentedLayout demoRecord]"] by (simp add: newLibbpf_def Let_def)
qed

text \<open>
  Both loaders can be loaded once only: \<open>Close\<close> fails until the first \<open>Load\<close>, which
  succeeds; from then on every \<open>Load\<close> answers \<open>ErrAlreadyLoaded\<close>, also after a \<open>Close\<close>, and every
  \<open>Close\<close> succeeds.
\<close>

theorem loaders_load_once:
  "let answers = replicate n (CallClose, Some ErrNotLoaded) @ (CallLoad, None)
         # map (\<lambda>c. (c, if c = CallLoad then Some ErrAlreadyLoaded else None)) cs
   in fake.calls (NewFakeLoader events interval) (replicate n CallClose @ CallLoad # cs) = answers
    \<and> lib.calls newLibbpf (replicate n CallClose @ CallLoad # cs) = answers"
  using fake.one_load [of "NewFakeLoader events interval" n cs] lib.one_load [of newLibbpf n cs]
  by (simp add: NewFakeLoader_def newLibbpf_def)

end
