(* ===== verification/Collector.thy ===== *)
theory Collector
  imports Procutil BpfEvent
begin

text \<open>
  The ring3 collector, \<open>internal/collector/collector.go\<close>: reading processes and connections
  from \<open>/proc\<close>, and watching files by inotify with a polling fallback.  The contents of
  \<open>/proc\<close> and the kernel's answers to one scan are arguments; what the collector remembers
  between scans is its state.
\<close>

section \<open>Data\<close>

record Process =
  PID :: int
  Name :: string
  Path :: string
  Cmdline :: string
  User :: string
  StartTicks :: string
  PPID :: int
  ParentName :: string
  EUID :: string
  ContainerID :: string

record Connection =
  Protocol :: string
  LocalAddr :: string
  LocalPort :: int
  RemoteAddr :: string
  RemotePort :: int
  State :: string

record FileEvent =
  fe_Path :: string
  fe_Op :: string
  fe_Size :: int
  fe_Mode :: string
  fe_ModTime :: "gotime option"

record Snapshot =
  Processes :: "Process list"
  Connections :: "Connection list"
  FileEvents :: "FileEvent list"

text \<open>The \<open>/proc\<close> tree at the time of a scan, and the user database.\<close>

record ProcFS =
  pf_dir :: "string \<Rightarrow> (string \<times> bool) list option"  \<comment> \<open>entries with \<open>IsDir\<close>\<close>
  pf_file :: "string \<Rightarrow> string option"
  pf_exe :: "string \<Rightarrow> string option"
  pf_userName :: "string \<Rightarrow> string option"

definition joinPath :: "string \<Rightarrow> string \<Rightarrow> string" where
  "joinPath a b = (if a = [] then b else if b = [] then a else a @ ''/'' @ b)"

definition fileOr :: "ProcFS \<Rightarrow> string \<Rightarrow> string" where
  "fileOr pf p = (case pf_file pf p of Some s \<Rightarrow> s | None \<Rightarrow> [])"

section \<open>Processes\<close>

definition readProcComm :: "ProcFS \<Rightarrow> string \<Rightarrow> int \<Rightarrow> string" where
  "readProcComm pf rootDir pid = (if pid \<le> 0 then [] else trimSpace (fileOr pf (rootDir @ ''/'' @ itoa pid @ ''/comm'')))"

definition readProcEUID :: "ProcFS \<Rightarrow> string \<Rightarrow> string" where
  "readProcEUID pf dir =
     (case pf_file pf (dir @ ''/status'') of
        None \<Rightarrow> []
      | Some data \<Rightarrow>
          (case find (\<lambda>l. hasPrefix l ''Uid:'' \<and> 2 \<le> length (fieldsS l)) (splitC nl data) of
             Some l \<Rightarrow> fieldsS l ! 1
           | None \<Rightarrow> []))"

definition cgroupId :: "string \<Rightarrow> string" where
  "cgroupId l = last (splitC (CHR ''/'') (trimSpace l))"

definition readProcCgroup :: "ProcFS \<Rightarrow> string \<Rightarrow> string" where
  "readProcCgroup pf dir =
     (case pf_file pf (dir @ ''/cgroup'') of
        None \<Rightarrow> []
      | Some data \<Rightarrow>
          (case find (\<lambda>l. (strContains l ''docker'' \<or> strContains l ''containerd'') \<and> 12 \<le> length (cgroupId l))
                  (splitC nl data) of
             Some l \<Rightarrow> cgroupId l
           | None \<Rightarrow> []))"

definition nul :: char where "nul = char_of (0 :: nat)"

definition readProcess :: "ProcFS \<Rightarrow> string \<Rightarrow> string \<Rightarrow> int \<Rightarrow> Process" where
  "readProcess pf rootDir name pid =
     (let dir = rootDir @ ''/'' @ name;
          stat = fileOr pf (dir @ ''/stat'');
          ppid = readPPIDFromStat stat
      in \<lparr>PID = pid, Name = trimSpace (fileOr pf (dir @ ''/comm'')),
          Path = (case pf_exe pf (dir @ ''/exe'') of Some p \<Rightarrow> p | None \<Rightarrow> []),
          Cmdline = replaceC nul (CHR '' '') (trimRightC nul (fileOr pf (dir @ ''/cmdline''))),
          User = UserFromPID (pf_userName pf) (pf_file pf (''/proc/'' @ itoa pid @ ''/loginuid'')), StartTicks = StartTicksFromStat stat, PPID = ppid,
          ParentName = readProcComm pf rootDir ppid, EUID = readProcEUID pf dir,
          ContainerID = readProcCgroup pf dir\<rparr>)"

definition readProcesses :: "ProcFS \<Rightarrow> string \<Rightarrow> Process list" where
  "readProcesses pf rootDir =
     (case pf_dir pf rootDir of
        None \<Rightarrow> []
      | Some entries \<Rightarrow>
          List.map_filter (\<lambda>(name, isDir).
            if \<not> isDir then None
            else (case atoi name of None \<Rightarrow> None | Some pid \<Rightarrow> Some (readProcess pf rootDir name pid))) entries)"

section \<open>Connections\<close>

definition hexVal :: "char \<Rightarrow> nat option" where
  "hexVal c = (let n = of_char c in
     if 48 \<le> n \<and> n \<le> 57 then Some (n - 48)
     else if 97 \<le> n \<and> n \<le> 102 then Some (n - 87)
     else if 65 \<le> n \<and> n \<le> 70 then Some (n - 55) else None)"

text \<open>
  The value \<open>strconv.ParseUint(s, 16, bits)\<close> returns beside its error: 0 for a syntax error,
  the largest number once the digits read exceed it.
\<close>

fun uintHexAux :: "nat \<Rightarrow> nat \<Rightarrow> string \<Rightarrow> nat" where
  "uintHexAux bnd acc [] = acc"
| "uintHexAux bnd acc (c # cs) =
     (case hexVal c of
        None \<Rightarrow> 0
      | Some d \<Rightarrow> if bnd < acc * 16 + d then bnd else uintHexAux bnd (acc * 16 + d) cs)"

definition parseUintHex :: "nat \<Rightarrow> string \<Rightarrow> nat" where
  "parseUintHex bits s = uintHexAux (2 ^ bits - 1) 0 s"

text \<open>\<open>strconv.ParseInt(s, 16, 32)\<close>: an optional sign, then clamping to the signed range.\<close>

definition parseIntHex32 :: "string \<Rightarrow> int" where
  "parseIntHex32 s =
     (let neg = (s \<noteq> [] \<and> hd s = CHR ''-'');
          digits = (if s \<noteq> [] \<and> (hd s = CHR ''-'' \<or> hd s = CHR ''+'') then tl s else s);
          un = int (parseUintHex 32 digits)
      in if \<not> neg then (if un \<ge> 2 ^ 31 then 2 ^ 31 - 1 else un)
         else (if un > 2 ^ 31 then - (2 ^ 31) else - un))"

definition parseProcNetAddr :: "string \<Rightarrow> string \<times> int" where
  "parseProcNetAddr raw =
     (let parts = splitC (CHR '':'') raw in
      if length parts \<noteq> 2 then (raw, 0)
      else
        (let port = parseIntHex32 (parts ! 1); a = parts ! 0 in
         if length a \<noteq> 8 then (a, port)
         else (ipv4String (map (\<lambda>i. word_of_nat (parseUintHex 8 (take 2 (drop (2 * (3 - i)) a)))) [0..<4]), port)))"

definition readConnection :: "string \<Rightarrow> string \<Rightarrow> Connection option" where
  "readConnection proto line =
     (let fields = fieldsS line in
      if length fields < 4 then None
      else (case (parseProcNetAddr (fields ! 1), parseProcNetAddr (fields ! 2)) of
              ((la, lp), (ra, rp)) \<Rightarrow>
                Some \<lparr>Protocol = proto, LocalAddr = la, LocalPort = lp, RemoteAddr = ra, RemotePort = rp, State = fields ! 3\<rparr>))"

text \<open>The scanner's default buffer is 64 KiB; the first line is the header.\<close>

definition readNet :: "ProcFS \<Rightarrow> string \<Rightarrow> Connection list" where
  "readNet pf rootDir =
     concat (map (\<lambda>(name, proto).
       case pf_file pf (rootDir @ name) of
         None \<Rightarrow> []
       | Some text \<Rightarrow> List.map_filter (readConnection proto) (tl (scanLines 65536 text)))
       [(''/net/tcp'', ''tcp''), (''/net/udp'', ''udp'')])"

section \<open>Watching files\<close>

record fileState =
  fs_Size :: int
  fs_Mode :: nat
  fs_ModTime :: gotime

text \<open>What \<open>filepath.Walk\<close> passes to its callback for one entry.\<close>

datatype winfo = WErr | WDir | WFile fileState

record ProcfsCollector =
  ProcRoot :: string
  WatchPaths :: "string list"
  WatchMode :: string
  lastFileState :: "(string \<times> fileState) list"
  inotifyFD :: int
  watchMap :: "int \<rightharpoonup> string"
  inotifyErr :: "string option"

text \<open>The kernel's answers to one scan; \<^term>\<open>Inl None\<close> of the read is \<open>EAGAIN\<close>.\<close>

record WatchEnv =
  we_walk :: "string \<Rightarrow> (string \<times> winfo) list"
  we_init :: "string + int"
  we_addWatch :: "string \<Rightarrow> int option"
  we_read :: "string option + byte list"
  we_stat :: "string \<Rightarrow> fileState option"

text \<open>\<open>FileMode.Perm().String()\<close>.\<close>

definition permString :: "nat \<Rightarrow> string" where
  "permString m = CHR ''-'' # map (\<lambda>i. if odd (m div 2 ^ (8 - i)) then ''rwxrwxrwx'' ! i else CHR ''-'') [0..<9]"

definition newFileEvent :: "string \<Rightarrow> string \<Rightarrow> fileState \<Rightarrow> FileEvent" where
  "newFileEvent path op info = \<lparr>fe_Path = path, fe_Op = op, fe_Size = fs_Size info,
     fe_Mode = permString (fs_Mode info), fe_ModTime = Some (fs_ModTime info)\<rparr>"

definition bareFileEvent :: "string \<Rightarrow> string \<Rightarrow> FileEvent" where
  "bareFileEvent path op = \<lparr>fe_Path = path, fe_Op = op, fe_Size = 0, fe_Mode = [], fe_ModTime = None\<rparr>"

definition statBackedFileEvent :: "WatchEnv \<Rightarrow> string \<Rightarrow> string \<Rightarrow> FileEvent" where
  "statBackedFileEvent env path op =
     (case we_stat env path of None \<Rightarrow> bareFileEvent path op | Some info \<Rightarrow> newFileEvent path op info)"

text \<open>The files the walks over the watched paths visit, in order.\<close>

definition walkFiles :: "WatchEnv \<Rightarrow> string list \<Rightarrow> (string \<times> fileState) list" where
  "walkFiles env paths =
     List.map_filter (\<lambda>(p, w). case w of WFile st \<Rightarrow> Some (p, st) | _ \<Rightarrow> None) (concat (map (we_walk env) paths))"

definition changeEvent :: "(string \<times> fileState) list \<Rightarrow> string \<times> fileState \<Rightarrow> FileEvent option" where
  "changeEvent old pst =
     (case map_of old (fst pst) of
        None \<Rightarrow> Some (newFileEvent (fst pst) ''create'' (snd pst))
      | Some prev \<Rightarrow> if prev \<noteq> snd pst then Some (newFileEvent (fst pst) ''write'' (snd pst)) else None)"

text \<open>The map \<open>next\<close>: the last state seen of each visited path.\<close>

definition nextState :: "(string \<times> fileState) list \<Rightarrow> (string \<times> fileState) list" where
  "nextState seen = foldl (\<lambda>m (p, st). (p, st) # filter (\<lambda>x. fst x \<noteq> p) m) [] seen"

definition scanFileChangesPoll :: "WatchEnv \<Rightarrow> ProcfsCollector \<Rightarrow> FileEvent list \<times> ProcfsCollector" where
  "scanFileChangesPoll env c =
     (let seen = walkFiles env (WatchPaths c);
          nxt = nextState seen;
          changed = List.map_filter (changeEvent (lastFileState c)) seen;
          gone = map (\<lambda>(p, prev). newFileEvent p ''delete'' prev) (filter (\<lambda>x. map_of nxt (fst x) = None) (lastFileState c))
      in (changed @ gone, c\<lparr>lastFileState := nxt\<rparr>))"

definition addWatchRecursive :: "WatchEnv \<Rightarrow> string \<Rightarrow> (int \<rightharpoonup> string) \<Rightarrow> int \<rightharpoonup> string" where
  "addWatchRecursive env path wm =
     foldl (\<lambda>wm (p, w). if w = WDir then (case we_addWatch env p of Some wd \<Rightarrow> wm(wd \<mapsto> p) | None \<Rightarrow> wm) else wm)
       wm (we_walk env path)"

definition ensureInotify :: "WatchEnv \<Rightarrow> ProcfsCollector \<Rightarrow> string option \<times> ProcfsCollector" where
  "ensureInotify env c =
     (if inotifyFD c > 0 then (None, c)
      else (case we_init env of
              Inl err \<Rightarrow> (Some err, c)
            | Inr fd \<Rightarrow> (None, c\<lparr>inotifyFD := fd,
                         watchMap := foldl (\<lambda>wm p. addWatchRecursive env p wm) Map.empty (WatchPaths c)\<rparr>)))"

record inotify_event =
  in_wd :: int
  in_mask :: "32 word"
  in_name :: string

text \<open>
  The loop over the buffer of \<open>n\<close> valid bytes: \<^term>\<open>None\<close> when a record points behind the
  buffer, where the slice expression panics.
\<close>

function inotifyRecords :: "byte list \<Rightarrow> nat \<Rightarrow> nat \<Rightarrow> inotify_event list option" where
  "inotifyRecords buf n off =
     (if n \<le> off then Some []
      else
        (let len = unat (leWord 4 (drop (off + 12) buf) :: 32 word) in
         if length buf < off + 16 + len then None
         else
           map_option (\<lambda>es. \<lparr>in_wd = sint (leWord 4 (drop off buf) :: 32 word),
                             in_mask = leWord 4 (drop (off + 4) buf),
                             in_name = trimRightC nul (byteStr (take len (drop (off + 16) buf)))\<rparr> # es)
             (inotifyRecords buf n (off + 16 + len))))"
  by pat_completeness auto
termination inotifyRecords by (relation "measure (\<lambda>(buf, n, off). n - off)") auto

definition hasFlag :: "32 word \<Rightarrow> 32 word \<Rightarrow> bool" where
  "hasFlag m f \<longleftrightarrow> and m f \<noteq> 0"

definition isCreate :: "inotify_event \<Rightarrow> bool" where
  "isCreate r \<longleftrightarrow> hasFlag (in_mask r) 0x100 \<or> hasFlag (in_mask r) 0x80"

definition recordPath :: "ProcfsCollector \<Rightarrow> inotify_event \<Rightarrow> string" where
  "recordPath c r = (let base = (case watchMap c (in_wd r) of Some b \<Rightarrow> b | None \<Rightarrow> []) in
     if in_name r = [] then base else joinPath base (in_name r))"

definition recordEvents :: "WatchEnv \<Rightarrow> string \<Rightarrow> inotify_event \<Rightarrow> FileEvent list" where
  "recordEvents env path r =
     (if isCreate r then [statBackedFileEvent env path ''create''] else [])
     @ (if hasFlag (in_mask r) 0x2 \<or> hasFlag (in_mask r) 0x8 then [statBackedFileEvent env path ''write''] else [])
     @ (if hasFlag (in_mask r) 0x200 \<or> hasFlag (in_mask r) 0x40 then [bareFileEvent path ''delete''] else [])"

fun handleRecords :: "WatchEnv \<Rightarrow> inotify_event list \<Rightarrow> ProcfsCollector \<Rightarrow> FileEvent list \<times> ProcfsCollector" where
  "handleRecords env [] c = ([], c)"
| "handleRecords env (r # rs) c =
     (let path = recordPath c r;
          c1 = (if hasFlag (in_mask r) 0x40000000 \<and> isCreate r
                then c\<lparr>watchMap := addWatchRecursive env path (watchMap c)\<rparr> else c)
      in case handleRecords env rs c1 of (evs, c2) \<Rightarrow> (recordEvents env path r @ evs, c2))"

definition eventKey :: "FileEvent \<Rightarrow> string" where
  "eventKey e = fe_Op e @ '':'' @ fe_Path e"

text \<open>One event per key, at the place of its first occurrence, with the data of its last.\<close>

fun compactLoop :: "FileEvent list \<Rightarrow> (string \<rightharpoonup> FileEvent) \<Rightarrow> string list \<Rightarrow> FileEvent list" where
  "compactLoop [] seen order = map (\<lambda>k. the (seen k)) order"
| "compactLoop (e # es) seen order =
     compactLoop es (seen(eventKey e \<mapsto> e)) (if seen (eventKey e) = None then order @ [eventKey e] else order)"

definition compactFileEvents :: "FileEvent list \<Rightarrow> FileEvent list option" where
  "compactFileEvents events = (if events = [] then None else Some (compactLoop events Map.empty []))"

text \<open>\<^term>\<open>None\<close> at the top: the panic above; inside: a nil slice.\<close>

definition scanFileChangesInotify :: "WatchEnv \<Rightarrow> ProcfsCollector \<Rightarrow> (FileEvent list option \<times> ProcfsCollector) option" where
  "scanFileChangesInotify env c =
     (case ensureInotify env c of
        (Some err, c1) \<Rightarrow> Some (None, c1\<lparr>inotifyErr := Some err\<rparr>)
      | (None, c1) \<Rightarrow>
          (case we_read env of
             Inl None \<Rightarrow> Some (None, c1)
           | Inl (Some err) \<Rightarrow> Some (None, c1\<lparr>inotifyErr := Some err\<rparr>)
           | Inr data \<Rightarrow>
               (case inotifyRecords (data @ replicate (8192 - length data) 0) (length data) 0 of
                  None \<Rightarrow> None
                | Some rs \<Rightarrow> (case handleRecords env rs c1 of (evs, c2) \<Rightarrow> Some (compactFileEvents evs, c2)))))"

definition scanFileChanges :: "WatchEnv \<Rightarrow> ProcfsCollector \<Rightarrow> (FileEvent list \<times> ProcfsCollector) option" where
  "scanFileChanges env c =
     (if WatchPaths c = [] then Some ([], c)
      else if equalFold (WatchMode c) ''poll'' then Some (scanFileChangesPoll env c)
      else (case scanFileChangesInotify env c of
              None \<Rightarrow> None
            | Some (Some evs, c1) \<Rightarrow> Some (evs, c1)
            | Some (None, c1) \<Rightarrow> Some (scanFileChangesPoll env c1)))"

definition takeSnapshot :: "ProcFS \<Rightarrow> WatchEnv \<Rightarrow> ProcfsCollector \<Rightarrow> (Snapshot \<times> ProcfsCollector) option" where
  "takeSnapshot pf env c =
     (let rootDir = (if ProcRoot c = [] then ''/proc'' else ProcRoot c) in
      case scanFileChanges env c of
        None \<Rightarrow> None
      | Some (evs, c1) \<Rightarrow> Some (\<lparr>Processes = readProcesses pf rootDir, Connections = readNet pf rootDir, FileEvents = evs\<rparr>, c1))"

definition CloseCollector :: "ProcfsCollector \<Rightarrow> ProcfsCollector" where
  "CloseCollector c = (if inotifyFD c > 0 then c\<lparr>inotifyFD := 0\<rparr> else c)"

section \<open>Polling: lemmas\<close>

lemma nextState_distinct_aux:
  "distinct (map fst m) \<Longrightarrow> distinct (map fst (foldl (\<lambda>m (p, st). (p, st) # filter (\<lambda>x. fst x \<noteq> p) m) m seen))"
proof (induction seen arbitrary: m)
  case (Cons x seen)
  have "distinct (map fst (x # filter (\<lambda>y. fst y \<noteq> fst x) m))"
    using Cons.prems by (auto simp: distinct_map_filterI)
  with Cons.IH show ?case by (cases x) simp
qed simp

lemma nextState_distinct: "distinct (map fst (nextState seen))"
  by (simp add: nextState_def nextState_distinct_aux)

lemma map_of_filter_ne: "map_of (filter (\<lambda>x. fst x \<noteq> p) m) q = (if q = p then None else map_of m q)"
  by (induction m) auto

lemma nextState_map_aux:
  "distinct (map fst seen) \<Longrightarrow>
   map_of (foldl (\<lambda>m (p, st). (p, st) # filter (\<lambda>x. fst x \<noteq> p) m) m seen) q
     = (case map_of seen q of Some st \<Rightarrow> Some st | None \<Rightarrow> map_of m q)"
proof (induction seen arbitrary: m)
  case (Cons x seen)
  obtain p st where x: "x = (p, st)" by (cases x)
  have "map_of seen p = None" using Cons.prems x by (simp add: map_of_eq_None_iff)
  with Cons x show ?case by (auto simp: map_of_filter_ne split: option.splits)
qed simp

lemma nextState_map: "distinct (map fst seen) \<Longrightarrow> map_of (nextState seen) = map_of seen"
  by (auto simp: nextState_def nextState_map_aux fun_eq_iff split: option.splits)

lemma changeEvent_path: "changeEvent old x = Some e \<Longrightarrow> fe_Path e = fst x"
  by (auto simp: changeEvent_def newFileEvent_def split: option.splits if_splits)

lemma disjoint_image: "\<forall>x \<in> A. f x \<notin> B \<Longrightarrow> B \<inter> f ` A = {}"
  by auto

lemma changeEvent_op:
  "(\<exists>e. changeEvent old (p, st) = Some e \<and> fe_Op e = op) \<longleftrightarrow>
     map_of old p = None \<and> op = ''create'' \<or> (\<exists>prev. map_of old p = Some prev \<and> prev \<noteq> st \<and> op = ''write'')"
  by (cases "map_of old p") (auto simp: changeEvent_def newFileEvent_def)

lemma map_filter_paths:
  "distinct (map fst seen) \<Longrightarrow> distinct (map fe_Path (List.map_filter (changeEvent old) seen))
     \<and> fe_Path ` set (List.map_filter (changeEvent old) seen) \<subseteq> fst ` set seen"
proof (induction seen)
  case (Cons x seen)
  then have IH: "distinct (map fe_Path (List.map_filter (changeEvent old) seen))"
    "fe_Path ` set (List.map_filter (changeEvent old) seen) \<subseteq> fst ` set seen" "fst x \<notin> fst ` set seen" by auto
  show ?case
  proof (cases "changeEvent old x")
    case (Some e)
    then have "fe_Path e = fst x" by (rule changeEvent_path)
    with Some IH show ?thesis by auto
  qed (use IH in auto)
qed simp

lemma in_changed:
  assumes "distinct (map fst seen)"
  shows "e \<in> set (List.map_filter (changeEvent old) seen) \<and> fe_Path e = p
    \<longleftrightarrow> (\<exists>st. map_of seen p = Some st \<and> changeEvent old (p, st) = Some e)"
  using assms by (auto simp: set_map_filter dest: changeEvent_path) (metis changeEvent_path fst_conv)+

lemma changed_ops:
  assumes "distinct (map fst seen)"
  shows "(\<exists>e \<in> set (List.map_filter (changeEvent old) seen). fe_Path e = p \<and> fe_Op e = op)
    \<longleftrightarrow> (\<exists>st. map_of seen p = Some st \<and> (map_of old p = None \<and> op = ''create''
              \<or> (\<exists>prev. map_of old p = Some prev \<and> prev \<noteq> st \<and> op = ''write'')))"
proof -
  have "(\<exists>e \<in> set (List.map_filter (changeEvent old) seen). fe_Path e = p \<and> fe_Op e = op)
      \<longleftrightarrow> (\<exists>e st. map_of seen p = Some st \<and> changeEvent old (p, st) = Some e \<and> fe_Op e = op)"
    using in_changed [OF assms] by metis
  also have "\<dots> \<longleftrightarrow> (\<exists>st. map_of seen p = Some st \<and> (map_of old p = None \<and> op = ''create''
              \<or> (\<exists>prev. map_of old p = Some prev \<and> prev \<noteq> st \<and> op = ''write'')))"
    unfolding changeEvent_op [symmetric] by blast
  finally show ?thesis .
qed

lemma unchanged_quiet:
  assumes "distinct (map fst seen)" "map_of old = map_of seen"
  shows "List.map_filter (changeEvent old) seen = []"
proof -
  have "changeEvent old (p, st) = None" if "(p, st) \<in> set seen" for p st
    using map_of_is_SomeI [OF assms(1) that] assms(2) by (simp add: changeEvent_def)
  then show ?thesis by (auto simp: List.map_filter_def filter_empty_conv)
qed

lemma poll_eq:
  assumes "distinct (map fst (walkFiles env (WatchPaths c)))"
  defines "now \<equiv> map_of (walkFiles env (WatchPaths c))"
  shows "scanFileChangesPoll env c =
    (List.map_filter (changeEvent (lastFileState c)) (walkFiles env (WatchPaths c))
       @ map (\<lambda>(p, prev). newFileEvent p ''delete'' prev) (filter (\<lambda>x. now (fst x) = None) (lastFileState c)),
     c\<lparr>lastFileState := nextState (walkFiles env (WatchPaths c))\<rparr>)"
  by (simp add: scanFileChangesPoll_def nextState_map [OF assms(1)] now_def Let_def)

text \<open>
  One poll reports exactly the difference between the files it remembers and the
  files it finds: a path is reported created, written or deleted precisely when it is new,
  differs in size, mode or time, or is gone; no path is reported twice; and a second poll of
  the same files reports nothing.
\<close>

theorem poll_reports_changes:
  assumes "distinct (map fst (walkFiles env (WatchPaths c)))" "distinct (map fst (lastFileState c))"
    and "scanFileChangesPoll env c = (evs, c')"
  defines "old \<equiv> map_of (lastFileState c)" and "now \<equiv> map_of (walkFiles env (WatchPaths c))"
  shows "(\<forall>p op. (\<exists>e \<in> set evs. fe_Path e = p \<and> fe_Op e = op) \<longleftrightarrow>
      (op = ''create'' \<and> old p = None \<and> now p \<noteq> None
       \<or> op = ''write'' \<and> old p \<noteq> None \<and> now p \<noteq> None \<and> old p \<noteq> now p
       \<or> op = ''delete'' \<and> old p \<noteq> None \<and> now p = None))
    \<and> distinct (map fe_Path evs) \<and> map_of (lastFileState c') = now
    \<and> fst (scanFileChangesPoll env c') = []"
proof (intro conjI allI)
  let ?seen = "walkFiles env (WatchPaths c)"
  let ?changed = "List.map_filter (changeEvent (lastFileState c)) ?seen"
  let ?kept = "filter (\<lambda>x. now (fst x) = None) (lastFileState c)"
  let ?gone = "map (\<lambda>(p, prev). newFileEvent p ''delete'' prev) ?kept"
  have evs: "evs = ?changed @ ?gone"
    using assms(3) poll_eq [OF assms(1)] by (simp add: now_def)
  fix p op
  have "(\<exists>e \<in> set ?gone. fe_Path e = p \<and> fe_Op e = op) \<longleftrightarrow> op = ''delete'' \<and> p \<in> fst ` set (lastFileState c) \<and> now p = None"
    by (force simp: newFileEvent_def)
  then have gone: "(\<exists>e \<in> set ?gone. fe_Path e = p \<and> fe_Op e = op) \<longleftrightarrow> op = ''delete'' \<and> old p \<noteq> None \<and> now p = None"
    by (simp add: old_def map_of_eq_None_iff)
  have created: "(\<exists>e \<in> set ?changed. fe_Path e = p \<and> fe_Op e = op) \<longleftrightarrow>
      (op = ''create'' \<and> old p = None \<and> now p \<noteq> None
       \<or> op = ''write'' \<and> old p \<noteq> None \<and> now p \<noteq> None \<and> old p \<noteq> now p)"
    unfolding changed_ops [OF assms(1)] old_def now_def by (cases "map_of (lastFileState c) p"; cases "map_of ?seen p") auto
  show "(\<exists>e \<in> set evs. fe_Path e = p \<and> fe_Op e = op) \<longleftrightarrow>
      (op = ''create'' \<and> old p = None \<and> now p \<noteq> None
       \<or> op = ''write'' \<and> old p \<noteq> None \<and> now p \<noteq> None \<and> old p \<noteq> now p
       \<or> op = ''delete'' \<and> old p \<noteq> None \<and> now p = None)"
    unfolding evs set_append bex_Un created gone by blast
next
  let ?seen = "walkFiles env (WatchPaths c)"
  let ?kept = "filter (\<lambda>x. now (fst x) = None) (lastFileState c)"
  let ?gone = "map (\<lambda>(p, prev). newFileEvent p ''delete'' prev) ?kept"
  have evs: "evs = List.map_filter (changeEvent (lastFileState c)) ?seen @ ?gone"
    and c': "c' = c\<lparr>lastFileState := nextState ?seen\<rparr>"
    using assms(3) poll_eq [OF assms(1)] by (simp_all add: now_def)
  have paths: "map fe_Path ?gone = map fst ?kept" by (auto simp: newFileEvent_def)
  have "\<forall>x \<in> set ?kept. fst x \<notin> fst ` set ?seen" by (simp add: now_def map_of_eq_None_iff)
  then have "fst ` set ?seen \<inter> fst ` set ?kept = {}" by (rule disjoint_image)
  moreover have "distinct (map fst ?kept)" using assms(2) by (rule distinct_map_filterI)
  ultimately show "distinct (map fe_Path evs)"
    using map_filter_paths [OF assms(1), of "lastFileState c"]
    unfolding evs map_append paths distinct_append set_map by blast
  show "map_of (lastFileState c') = now" using nextState_map [OF assms(1)] by (simp add: c' now_def)
  have "List.map_filter (changeEvent (nextState ?seen)) ?seen = []"
    using unchanged_quiet [OF assms(1)] nextState_map [OF assms(1)] by simp
  moreover have "map_of ?seen (fst x) \<noteq> None" if "x \<in> set (nextState ?seen)" for x
    using that nextState_map [OF assms(1)] by (metis image_eqI map_of_eq_None_iff)
  ultimately show "fst (scanFileChangesPoll env c') = []"
    using poll_eq [of env c'] assms(1) by (simp add: c' filter_empty_conv)
qed

definition demoWatch :: "string option + byte list \<Rightarrow> fileState \<Rightarrow> WatchEnv" where
  "demoWatch r st = \<lparr>we_walk = (\<lambda>_. [(''/etc'', WDir), (''/etc/a'', WFile st)]), we_init = Inr 5, we_addWatch = (\<lambda>_. Some 1),
     we_read = r, we_stat = (\<lambda>_. Some st)\<rparr>"

definition demoState :: "int \<Rightarrow> fileState" where
  "demoState n = \<lparr>fs_Size = n, fs_Mode = 420, fs_ModTime = n\<rparr>"

definition demoCollector :: ProcfsCollector where
  "demoCollector = \<lparr>ProcRoot = [], WatchPaths = [''/etc''], WatchMode = [], lastFileState = [(''/etc/a'', demoState 1)],
     inotifyFD = 5, watchMap = [1 \<mapsto> ''/etc''], inotifyErr = None\<rparr>"

lemma demo_walk: "walkFiles (demoWatch r st) [''/etc''] = [(''/etc/a'', st)]"
  by (simp add: walkFiles_def demoWatch_def)

theorem poll_reports_changes_witness:
  "\<exists>e \<in> set (fst (scanFileChangesPoll (demoWatch (Inl None) (demoState 2)) demoCollector)). fe_Path e = ''/etc/a'' \<and> fe_Op e = ''write''"
proof -
  obtain evs c' where p: "scanFileChangesPoll (demoWatch (Inl None) (demoState 2)) demoCollector = (evs, c')" by (metis surj_pair)
  have "WatchPaths demoCollector = [''/etc'']" "lastFileState demoCollector = [(''/etc/a'', demoState 1)]"
    "demoState 1 \<noteq> demoState 2" by (simp_all add: demoCollector_def demoState_def)
  with poll_reports_changes [OF _ _ p] have "\<exists>e \<in> set evs. fe_Path e = ''/etc/a'' \<and> fe_Op e = ''write''"
    by (simp add: demo_walk)
  with p show ?thesis by simp
qed

section \<open>Inotify\<close>

lemma inotify_frame:
  "fst (ensureInotify env c) = None \<Longrightarrow> lastFileState (snd (ensureInotify env c)) = lastFileState c"
  "WatchPaths (snd (ensureInotify env c)) = WatchPaths c" "WatchMode (snd (ensureInotify env c)) = WatchMode c"
  "inotifyFD c > 0 \<Longrightarrow> ensureInotify env c = (None, c)"
  by (auto simp: ensureInotify_def split: sum.splits)

lemma handleRecords_frame:
  "lastFileState (snd (handleRecords env rs c)) = lastFileState c"
  "WatchPaths (snd (handleRecords env rs c)) = WatchPaths c"
  "WatchMode (snd (handleRecords env rs c)) = WatchMode c"
  "inotifyFD (snd (handleRecords env rs c)) = inotifyFD c"
  by (induction rs arbitrary: c) (simp_all add: Let_def case_prod_beta)

lemma inotify_answer_frame:
  assumes "scanFileChangesInotify env c = Some (Some evs, c')" "inotifyFD c > 0"
  shows "lastFileState c' = lastFileState c \<and> WatchPaths c' = WatchPaths c \<and> WatchMode c' = WatchMode c \<and> inotifyFD c' > 0"
proof -
  obtain rs where "c' = snd (handleRecords env rs c)"
    using assms by (auto simp: scanFileChangesInotify_def inotify_frame case_prod_beta split: sum.splits option.splits)
  then show ?thesis using assms(2) by (simp add: handleRecords_frame)
qed

text \<open>
  A change that inotify has reported is reported again.  A scan that inotify
  answers does not touch what the poll remembers, and a scan for which inotify has nothing
  falls through to a poll; so at the next quiet scan every file that differs from the last
  poll is reported, whether or not its change was reported already.
\<close>

theorem inotify_change_reported_again:
  assumes "WatchPaths c \<noteq> []" "\<not> equalFold (WatchMode c) ''poll''" "inotifyFD c > 0"
    and "scanFileChangesInotify env1 c = Some (Some evs1, c1)" "we_read env2 = Inl None"
    and "distinct (map fst (walkFiles env2 (WatchPaths c)))" "(p, st) \<in> set (walkFiles env2 (WatchPaths c))"
    and "map_of (lastFileState c) p = Some old" "old \<noteq> st"
  shows "scanFileChanges env1 c = Some (evs1, c1)
    \<and> (\<exists>evs2 c2. scanFileChanges env2 c1 = Some (evs2, c2) \<and> newFileEvent p ''write'' st \<in> set evs2)"
proof -
  have f: "lastFileState c1 = lastFileState c" "WatchPaths c1 = WatchPaths c" "WatchMode c1 = WatchMode c" "inotifyFD c1 > 0"
    using inotify_answer_frame [OF assms(4,3)] by simp_all
  have "scanFileChangesInotify env2 c1 = Some (None, c1)"
    using f(4) assms(5) by (simp add: scanFileChangesInotify_def inotify_frame)
  then have two: "scanFileChanges env2 c1 = Some (scanFileChangesPoll env2 c1)"
    using assms(1,2) f by (simp add: scanFileChanges_def)
  have "changeEvent (lastFileState c) (p, st) = Some (newFileEvent p ''write'' st)"
    using assms(8,9) by (simp add: changeEvent_def)
  then have "newFileEvent p ''write'' st \<in> set (fst (scanFileChangesPoll env2 c1))"
    using assms(7) by (force simp: scanFileChangesPoll_def Let_def f set_map_filter)
  with two assms(1,2,4) show ?thesis
    by (auto simp: scanFileChanges_def prod_eq_iff)
qed

section \<open>The inotify buffer\<close>

text \<open>A record as the kernel writes it: the name is padded with zeros, and has none itself.\<close>

definition inotifyBytes :: "32 word \<times> 32 word \<times> 32 word \<times> byte list \<Rightarrow> byte list" where
  "inotifyBytes r = (case r of (wd, m, cookie, name) \<Rightarrow>
     leBytes 4 wd @ leBytes 4 m @ leBytes 4 cookie @ leBytes 4 (word_of_nat (length name) :: 32 word) @ name)"

definition inotifyOf :: "32 word \<times> 32 word \<times> 32 word \<times> byte list \<Rightarrow> inotify_event" where
  "inotifyOf r = (case r of (wd, m, cookie, name) \<Rightarrow>
     \<lparr>in_wd = sint wd, in_mask = m, in_name = trimRightC nul (byteStr name)\<rparr>)"

lemma length_inotifyBytes: "length (inotifyBytes (wd, m, cookie, name)) = 16 + length name"
  by (simp add: inotifyBytes_def)

lemma inotifyRecords_step:
  assumes "length name < 2 ^ 32" "length pre = off" "off < n"
  shows "inotifyRecords (pre @ inotifyBytes (wd, m, cookie, name) @ post) n off =
    map_option (\<lambda>es. inotifyOf (wd, m, cookie, name) # es)
      (inotifyRecords (pre @ inotifyBytes (wd, m, cookie, name) @ post) n (off + 16 + length name))"
proof -
  let ?buf = "pre @ inotifyBytes (wd, m, cookie, name) @ post"
  have len: "unat (leWord 4 (drop (off + 12) ?buf) :: 32 word) = length name"
    using assms(1,2) by (simp add: inotifyBytes_def leWord_leBytes unat_of_nat take_bit_eq_mod)
  have "leWord 4 (drop off ?buf) = wd" "leWord 4 (drop (off + 4) ?buf) = m" "take (length name) (drop (off + 16) ?buf) = name"
    using assms(2) by (simp_all add: inotifyBytes_def leWord_leBytes)
  then show ?thesis
    using assms(2,3) len
    by (subst inotifyRecords.simps) (simp add: Let_def inotifyOf_def length_inotifyBytes add.assoc del: inotifyRecords.simps)
qed

lemma inotifyRecords_end: "n \<le> off \<Longrightarrow> inotifyRecords buf n off = Some []"
  by (subst inotifyRecords.simps) simp

lemma inotifyRecords_decode:
  assumes "\<forall>(wd, m, cookie, name) \<in> set rs. length name < 2 ^ 32"
  shows "inotifyRecords (pre @ concat (map inotifyBytes rs) @ post) (length (pre @ concat (map inotifyBytes rs))) (length pre)
    = Some (map inotifyOf rs)"
  using assms
proof (induction rs arbitrary: pre)
  case Nil
  then show ?case by (simp add: inotifyRecords_end)
next
  case (Cons r rs)
  obtain wd m cookie name where r: "r = (wd, m, cookie, name)" by (cases r)
  let ?rest = "concat (map inotifyBytes rs) @ post"
  let ?n = "length (pre @ concat (map inotifyBytes (r # rs)))"
  have "inotifyRecords (pre @ inotifyBytes r @ ?rest) ?n (length pre) =
      map_option (\<lambda>es. inotifyOf r # es) (inotifyRecords (pre @ inotifyBytes r @ ?rest) ?n (length pre + 16 + length name))"
    unfolding r by (rule inotifyRecords_step) (use Cons.prems r in \<open>auto simp: length_inotifyBytes\<close>)
  moreover have "inotifyRecords (pre @ inotifyBytes r @ ?rest) ?n (length pre + 16 + length name) = Some (map inotifyOf rs)"
    using Cons.IH [of "pre @ inotifyBytes r"] Cons.prems by (simp add: r length_inotifyBytes add.assoc del: inotifyRecords.simps)
  ultimately show ?case by (simp del: inotifyRecords.simps)
qed

text \<open>One write to \<open>/etc/a\<close>, as the kernel reports it.\<close>

definition demoInotify :: "32 word \<times> 32 word \<times> 32 word \<times> byte list" where
  "demoInotify = (1, 2, 0, [97, 0])"

lemma demo_inotify_of: "inotifyOf demoInotify = \<lparr>in_wd = 1, in_mask = 2, in_name = ''a''\<rparr>"
  by code_simp

lemma demo_inotify_scan:
  "scanFileChangesInotify (demoWatch (Inr (inotifyBytes demoInotify)) (demoState 2)) demoCollector =
     Some (Some [newFileEvent ''/etc/a'' ''write'' (demoState 2)], demoCollector)"
proof -
  have dec: "inotifyRecords (inotifyBytes demoInotify @ post) (length (inotifyBytes demoInotify)) 0 = Some [inotifyOf demoInotify]" for post
    using inotifyRecords_decode [of "[demoInotify]" "[]" post] by (simp add: demoInotify_def del: inotifyRecords.simps)
  have fl: "hasFlag 2 0x2" "\<not> hasFlag 2 0x100" "\<not> hasFlag 2 0x80" "\<not> hasFlag 2 0x200" "\<not> hasFlag 2 0x40" "\<not> hasFlag 2 0x40000000"
    by (simp_all add: hasFlag_def)
  show ?thesis
    by (simp add: scanFileChangesInotify_def ensureInotify_def demoCollector_def demoWatch_def dec demo_inotify_of
        recordPath_def isCreate_def fl recordEvents_def joinPath_def statBackedFileEvent_def compactFileEvents_def
        eventKey_def del: inotifyRecords.simps)
qed

theorem inotify_change_reported_again_witness:
  "\<exists>evs2 c2. scanFileChanges (demoWatch (Inl None) (demoState 2)) demoCollector = Some (evs2, c2)
     \<and> newFileEvent ''/etc/a'' ''write'' (demoState 2) \<in> set evs2"
proof -
  have "WatchPaths demoCollector = [''/etc'']" "WatchMode demoCollector = []" "inotifyFD demoCollector > 0"
    "lastFileState demoCollector = [(''/etc/a'', demoState 1)]" "demoState 1 \<noteq> demoState 2" "\<not> equalFold [] ''poll''"
    "we_read (demoWatch (Inl None) (demoState 2)) = Inl None"
    by (simp_all add: demoCollector_def demoState_def demoWatch_def equalFold_def toLower_def)
  then show ?thesis
    using inotify_change_reported_again [OF _ _ _ demo_inotify_scan, of "demoWatch (Inl None) (demoState 2)" "''/etc/a''" "demoState 2" "demoState 1"]
    by (simp add: demo_walk)
qed

section \<open>Addresses in \<open>/proc/net\<close>\<close>

text \<open>The kernel prints an address as the hexadecimal number of its bytes in little-endian order, and the port.\<close>

definition hexU :: "nat \<Rightarrow> char" where
  "hexU d = (if d < 10 then char_of (48 + d) else char_of (55 + d))"

definition hexByte :: "byte \<Rightarrow> string" where
  "hexByte b = [hexU (unat b div 16), hexU (unat b mod 16)]"

definition hexPort :: "16 word \<Rightarrow> string" where
  "hexPort p = [hexU (unat p div 4096), hexU (unat p div 256 mod 16), hexU (unat p div 16 mod 16), hexU (unat p mod 16)]"

definition procNetAddr :: "byte list \<Rightarrow> 16 word \<Rightarrow> string" where
  "procNetAddr bs port = concat (map hexByte (rev bs)) @ CHR '':'' # hexPort port"

lemma hexVal_hexU: "d < 16 \<Longrightarrow> hexVal (hexU d) = Some d"
  by (auto simp: hexVal_def hexU_def Let_def)

lemma hexU_plain: "d < 16 \<Longrightarrow> hexU d \<noteq> CHR '':'' \<and> hexU d \<noteq> CHR ''-'' \<and> hexU d \<noteq> CHR ''+''"
proof -
  assume "d < 16"
  then have "hexVal (hexU d) \<noteq> None" by (simp add: hexVal_hexU)
  moreover have "hexVal (CHR '':'') = None" "hexVal (CHR ''-'') = None" "hexVal (CHR ''+'') = None" by (simp_all add: hexVal_def)
  ultimately show ?thesis by metis
qed

lemma byte_nibbles: "unat (b :: byte) div 16 < 16" "unat (p :: 16 word) div 4096 < 16"
  using unsigned_less [where 'a=nat, of b] unsigned_less [where 'a=nat, of p] by simp_all

lemma parse_hexByte: "parseUintHex 8 (hexByte b) = unat b"
  using unsigned_less [where 'a=nat, of b] byte_nibbles(1) [of b] by (simp add: parseUintHex_def hexByte_def hexVal_hexU)

lemma parse_hexPort: "parseIntHex32 (hexPort p) = uint p"
proof -
  have b: "unat p < 65536" using unsigned_less [where 'a=nat, of p] by simp
  have "unat p div 4096 = unat p div 256 div 16" "unat p div 256 = unat p div 16 div 16"
    by (simp_all add: div_mult2_eq [symmetric])
  then have n: "unat p div 4096 * 16 + unat p div 256 mod 16 = unat p div 256"
    "unat p div 256 * 16 + unat p div 16 mod 16 = unat p div 16" by (metis div_mult_mod_eq)+
  have "parseUintHex 32 (hexPort p) = unat p"
    using b byte_nibbles(2) [of p] n le_less_trans [OF div_le_dividend b, of 16]
    by (simp add: parseUintHex_def hexPort_def hexVal_hexU)
  moreover have "hd (hexPort p) \<noteq> CHR ''-''" "hd (hexPort p) \<noteq> CHR ''+''"
    using hexU_plain [OF byte_nibbles(2) [of p]] by (simp_all add: hexPort_def)
  moreover have "uint p < 65536" using uint_lt2p [of p] by simp
  ultimately show ?thesis by (simp add: parseIntHex32_def Let_def)
qed

lemma splitC_none: "c \<notin> set s \<Longrightarrow> splitC c s = [s]"
  by (induction s) auto

text \<open>
  The address parser inverts the kernel's format: from the hexadecimal text of an
  IPv4 address in host order and a port it returns the dotted address and the port.
\<close>

theorem parseProcNetAddr_inverts:
  "parseProcNetAddr (procNetAddr [a, b, c, d] port) = (ipv4String [a, b, c, d], uint port)"
proof -
  have plain: "CHR '':'' \<notin> set (concat (map hexByte (rev [a, b, c, d])))" "CHR '':'' \<notin> set (hexPort port)"
    using hexU_plain byte_nibbles by (auto simp: hexByte_def hexPort_def, (metis mod_less_divisor zero_less_numeral)+)
  have parts: "splitC (CHR '':'') (procNetAddr [a, b, c, d] port) = [hexByte d @ hexByte c @ hexByte b @ hexByte a, hexPort port]"
    using splitC_line [OF plain(1)] splitC_none [OF plain(2)] by (simp add: procNetAddr_def)
  have four: "[0..<4] = [0, 1, 2, 3 :: nat]" by (simp add: upt_rec)
  have len: "length (hexByte x) = 2" for x by (simp add: hexByte_def)
  show ?thesis
    by (simp add: parseProcNetAddr_def parts four len parse_hexByte parse_hexPort)
qed

end
