(* ===== verification/Merge.thy ===== *)
theory Merge
  imports Collector
begin

text \<open>
  The merged collector, \<open>internal/collector/merge.go\<close>, which overlays the kernel events on the
  \<open>/proc\<close> snapshot, and the connection tracker, \<open>internal/collector/conntrack.go\<close>.  The event
  channel of the loader is given as the events buffered at the time of the drain and whether
  the channel is closed behind them.
\<close>

section \<open>The merged collector\<close>

record BPFHealth =
  Attached :: bool
  EventsDrained :: "64 word"
  OverloadDrops :: "64 word"
  LastErrorAt :: "gotime option"
  LastError :: string

record MergedCollector =
  m_procfs :: ProcfsCollector
  m_bpf :: bool               \<comment> \<open>whether there is a loader\<close>
  m_drained :: "64 word"
  m_errs :: "string list"
  m_lastErr :: "string option"
  m_health :: BPFHealth

definition NewMergedCollector :: "ProcfsCollector \<Rightarrow> bool \<Rightarrow> MergedCollector" where
  "NewMergedCollector procfs b = \<lparr>m_procfs = procfs, m_bpf = b, m_drained = 0, m_errs = [], m_lastErr = None,
     m_health = \<lparr>Attached = b, EventsDrained = 0, OverloadDrops = 0, LastErrorAt = None, LastError = []\<rparr>\<rparr>"

definition mergedErrors :: "MergedCollector \<Rightarrow> string list \<times> MergedCollector" where
  "mergedErrors m = (m_errs m, m\<lparr>m_errs := []\<rparr>)"

definition mergedLastError :: "MergedCollector \<Rightarrow> string option \<times> MergedCollector" where
  "mergedLastError m = (m_lastErr m, m\<lparr>m_lastErr := None\<rparr>)"

definition recordErr :: "gotime \<Rightarrow> string option \<Rightarrow> MergedCollector \<Rightarrow> MergedCollector" where
  "recordErr now err m =
     (case err of
        None \<Rightarrow> m
      | Some e \<Rightarrow> m\<lparr>m_lastErr := Some e, m_errs := m_errs m @ [e],
                    m_health := (m_health m)\<lparr>LastError := e, LastErrorAt := Some now\<rparr>\<rparr>)"

definition protocolFromFamily :: "byte \<Rightarrow> string" where
  "protocolFromFamily family =
     (if family = 2 then ''tcp'' else if family = 10 then ''tcp6'' else if family = 1 then ''unix'' else ''unknown'')"

definition execProcess :: "BpfEvent \<Rightarrow> Process" where
  "execProcess e = \<lparr>PID = uint (b_PID e), Name = b_Comm e, Path = b_Filename e, Cmdline = b_Comm e, User = [],
     StartTicks = [], PPID = 0, ParentName = [], EUID = [], ContainerID = []\<rparr>"

definition overrideProcess :: "BpfEvent \<Rightarrow> Process \<Rightarrow> Process" where
  "overrideProcess e p =
     (let p = (if b_Comm e \<noteq> [] then p\<lparr>Name := b_Comm e\<rparr> else p)
      in if b_Filename e \<noteq> [] then p\<lparr>Path := b_Filename e\<rparr> else p)"

definition applyExec :: "BpfEvent \<Rightarrow> Snapshot \<times> (int \<rightharpoonup> nat) \<Rightarrow> Snapshot \<times> (int \<rightharpoonup> nat)" where
  "applyExec e s =
     (case s of (snap, procByPID) \<Rightarrow>
        (case procByPID (uint (b_PID e)) of
           Some idx \<Rightarrow> (snap\<lparr>Processes := (Processes snap)[idx := overrideProcess e (Processes snap ! idx)]\<rparr>, procByPID)
         | None \<Rightarrow> (snap\<lparr>Processes := Processes snap @ [execProcess e]\<rparr>,
                    procByPID(uint (b_PID e) \<mapsto> length (Processes snap)))))"

definition eventConnection :: "BpfEvent \<Rightarrow> Connection" where
  "eventConnection e = \<lparr>Protocol = protocolFromFamily (b_Family e), LocalAddr = [], LocalPort = 0,
     RemoteAddr = b_DAddr e, RemotePort = uint (b_DPort e), State = []\<rparr>"

definition applyConnect :: "BpfEvent \<Rightarrow> Snapshot \<Rightarrow> Snapshot" where
  "applyConnect e snap = snap\<lparr>Connections := Connections snap @ [eventConnection e]\<rparr>"

fun indexPIDs :: "nat \<Rightarrow> Process list \<Rightarrow> (int \<rightharpoonup> nat) \<Rightarrow> int \<rightharpoonup> nat" where
  "indexPIDs i [] m = m"
| "indexPIDs i (p # ps) m = indexPIDs (i + 1) ps (m(PID p \<mapsto> i))"

fun applyLoop :: "BpfEvent list \<Rightarrow> Snapshot \<times> (int \<rightharpoonup> nat) \<Rightarrow> Snapshot \<times> (int \<rightharpoonup> nat)" where
  "applyLoop [] s = s"
| "applyLoop (e # es) s =
     applyLoop es (if b_Type e = EventExec then applyExec e s
                   else if b_Type e = EventConnect then (applyConnect e (fst s), snd s) else s)"

definition applyEvents :: "BpfEvent list \<Rightarrow> Snapshot \<Rightarrow> MergedCollector \<Rightarrow> Snapshot \<times> MergedCollector" where
  "applyEvents events snap m =
     (if events = [] then (snap, m)
      else
        (let snap' = fst (applyLoop events (snap, indexPIDs 0 (Processes snap) Map.empty));
             drained = m_drained m + word_of_nat (length events)
         in (snap', m\<lparr>m_drained := drained, m_health := (m_health m)\<lparr>EventsDrained := drained\<rparr>\<rparr>)))"

definition markLoaderClosed :: "MergedCollector \<Rightarrow> MergedCollector" where
  "markLoaderClosed m = m\<lparr>m_health := (m_health m)\<lparr>Attached := False\<rparr>\<rparr>"

definition drainBPF :: "BpfEvent list \<Rightarrow> bool \<Rightarrow> Snapshot \<Rightarrow> MergedCollector \<Rightarrow> Snapshot \<times> MergedCollector" where
  "drainBPF buffered shut snap m =
     (case applyEvents buffered snap m of (snap', m') \<Rightarrow> (snap', if shut then markLoaderClosed m' else m'))"

text \<open>The \<open>/proc\<close> snapshot never fails, so there is no error to record; \<^term>\<open>None\<close> is its panic.\<close>

definition mergedSnapshot :: "ProcFS \<Rightarrow> WatchEnv \<Rightarrow> BpfEvent list \<Rightarrow> bool \<Rightarrow> MergedCollector \<Rightarrow> (Snapshot \<times> MergedCollector) option" where
  "mergedSnapshot pf env buffered shut m =
     (case takeSnapshot pf env (m_procfs m) of
        None \<Rightarrow> None
      | Some (snap, c) \<Rightarrow>
          (let m1 = m\<lparr>m_procfs := c\<rparr> in Some (if m_bpf m then drainBPF buffered shut snap m1 else (snap, m1))))"

section \<open>Ring 0 wins\<close>

text \<open>The merge without the index: one process per pid, overridden or appended.\<close>

definition upsert :: "Process list \<Rightarrow> BpfEvent \<Rightarrow> Process list" where
  "upsert ps e =
     (if uint (b_PID e) \<in> PID ` set ps
      then map (\<lambda>p. if PID p = uint (b_PID e) then overrideProcess e p else p) ps
      else ps @ [execProcess e])"

definition indexed :: "Process list \<Rightarrow> (int \<rightharpoonup> nat) \<Rightarrow> bool" where
  "indexed ps m \<longleftrightarrow> distinct (map PID ps)
     \<and> (\<forall>pid i. m pid = Some i \<longleftrightarrow> i < length ps \<and> PID (ps ! i) = pid)"

lemma overrideProcess_PID [simp]: "PID (overrideProcess e p) = PID p"
  by (simp add: overrideProcess_def Let_def)

lemma nth_image: "j < length ps \<Longrightarrow> f (ps ! j) \<in> f ` set ps"
  by simp

lemma indexPIDs_Some:
  "distinct (map PID ps) \<Longrightarrow> indexPIDs i ps m pid = Some k \<longleftrightarrow>
     (\<exists>j < length ps. PID (ps ! j) = pid \<and> k = i + j) \<or> pid \<notin> PID ` set ps \<and> m pid = Some k"
proof (induction ps arbitrary: i m)
  case (Cons p ps)
  have ex: "(\<exists>j < length (p # ps). PID ((p # ps) ! j) = pid \<and> k = i + j) \<longleftrightarrow>
      PID p = pid \<and> k = i \<or> (\<exists>j < length ps. PID (ps ! j) = pid \<and> k = i + 1 + j)"
    by (auto simp: less_Suc_eq_0_disj)
  have none: "PID p = pid \<Longrightarrow> \<not> (\<exists>j < length ps. PID (ps ! j) = pid)"
    using Cons.prems nth_image [of _ ps PID] by (simp only: list.map distinct.simps set_map) metis
  have IH: "indexPIDs i (p # ps) m pid = Some k \<longleftrightarrow>
      (\<exists>j < length ps. PID (ps ! j) = pid \<and> k = i + 1 + j) \<or> pid \<notin> PID ` set ps \<and> (m(PID p \<mapsto> i)) pid = Some k"
    unfolding indexPIDs.simps by (rule Cons.IH) (use Cons.prems in simp)
  show ?case
  proof (cases "PID p = pid")
    case True
    then have "pid \<notin> PID ` set ps" using Cons.prems by auto
    with True none show ?thesis unfolding ex IH by auto
  qed (unfold ex IH, simp)
qed simp

lemma indexed_start: "distinct (map PID ps) \<Longrightarrow> indexed ps (indexPIDs 0 ps Map.empty)"
  by (auto simp: indexed_def indexPIDs_Some)

lemma applyExec_upsert:
  assumes "indexed (Processes snap) m"
  shows "Processes (fst (applyExec e (snap, m))) = upsert (Processes snap) e
    \<and> indexed (Processes (fst (applyExec e (snap, m)))) (snd (applyExec e (snap, m)))
    \<and> Connections (fst (applyExec e (snap, m))) = Connections snap \<and> FileEvents (fst (applyExec e (snap, m))) = FileEvents snap"
proof (cases "m (uint (b_PID e))")
  case None
  have all: "\<forall>pid i. m pid = Some i \<longleftrightarrow> i < length (Processes snap) \<and> PID (Processes snap ! i) = pid"
    using assms by (simp add: indexed_def)
  have no: "PID (Processes snap ! i) \<noteq> uint (b_PID e)" if "i < length (Processes snap)" for i
    using all that None by (metis option.distinct(1))
  then have fresh: "uint (b_PID e) \<notin> PID ` set (Processes snap)" by (fastforce simp: in_set_conv_nth)
  have "PID (execProcess e) = uint (b_PID e)" by (simp add: execProcess_def)
  with None fresh no assms show ?thesis
    by (auto simp: applyExec_def upsert_def indexed_def nth_append less_Suc_eq)
next
  case (Some i)
  then have i: "i < length (Processes snap)" "PID (Processes snap ! i) = uint (b_PID e)" and d: "distinct (map PID (Processes snap))"
    using assms by (auto simp: indexed_def)
  let ?ps = "(Processes snap)[i := overrideProcess e (Processes snap ! i)]"
  have "?ps = map (\<lambda>p. if PID p = uint (b_PID e) then overrideProcess e p else p) (Processes snap)"
    using i d by (auto intro!: nth_equalityI simp: nth_list_update distinct_conv_nth) metis+
  moreover have "map PID ?ps = map PID (Processes snap)"
    using i by (auto intro!: nth_equalityI simp: nth_list_update)
  moreover from this have "indexed ?ps m"
    using assms unfolding indexed_def by (metis length_list_update length_map nth_map)
  moreover have "uint (b_PID e) \<in> PID ` set (Processes snap)" using i by (metis imageI nth_mem)
  ultimately show ?thesis using Some by (simp add: applyExec_def upsert_def)
qed

lemma applyLoop_refines:
  "indexed (Processes snap) m \<Longrightarrow> fst (applyLoop es (snap, m)) =
     snap\<lparr>Processes := foldl upsert (Processes snap) (filter (\<lambda>e. b_Type e = EventExec) es),
          Connections := Connections snap @ map eventConnection (filter (\<lambda>e. b_Type e = EventConnect) es)\<rparr>"
proof (induction es arbitrary: snap m)
  case (Cons e es)
  show ?case
  proof (cases "b_Type e = EventExec")
    case True
    obtain snap' m' where a: "applyExec e (snap, m) = (snap', m')" by (cases "applyExec e (snap, m)")
    from applyExec_upsert [OF Cons.prems, of e] a
    have "Processes snap' = upsert (Processes snap) e" "indexed (Processes snap') m'"
      "Connections snap' = Connections snap" "FileEvents snap' = FileEvents snap" by (metis fst_conv snd_conv)+
    with Cons.IH [of snap' m'] True a show ?thesis by simp
  next
    case False
    with Cons show ?thesis by (simp add: applyConnect_def)
  qed
qed simp

text \<open>
  Claim C23.  The merge refines its specification: on a snapshot with one process per pid the
  indexed, in-place merge of a batch of kernel events gives the process list of the abstract
  merge (each exec event overrides the name and path of the process with its pid, where it
  carries them, or appends a new process), appends the connections in order, changes nothing
  else, and counts the batch.
\<close>

theorem merge_refines_upsert:
  assumes "distinct (map PID (Processes snap))" "applyEvents es snap m = (snap', m')"
  shows "snap' = snap\<lparr>Processes := foldl upsert (Processes snap) (filter (\<lambda>e. b_Type e = EventExec) es),
       Connections := Connections snap @ map eventConnection (filter (\<lambda>e. b_Type e = EventConnect) es)\<rparr>
    \<and> distinct (map PID (Processes snap')) \<and> m_drained m' = m_drained m + word_of_nat (length es)"
proof -
  have step: "distinct (map PID (upsert ps e))" if "distinct (map PID ps)" for ps e
  proof -
    have "map PID (map (\<lambda>p. if PID p = uint (b_PID e) then overrideProcess e p else p) ps) = map PID ps" by simp
    with that show ?thesis by (auto simp: upsert_def execProcess_def simp del: map_map)
  qed
  have "distinct (map PID (foldl upsert ps xs))" if "distinct (map PID ps)" for ps xs
    using that by (induction xs arbitrary: ps) (auto simp: step)
  moreover have "snap' = snap\<lparr>Processes := foldl upsert (Processes snap) (filter (\<lambda>e. b_Type e = EventExec) es),
       Connections := Connections snap @ map eventConnection (filter (\<lambda>e. b_Type e = EventConnect) es)\<rparr>"
    using assms(2) applyLoop_refines [OF indexed_start [OF assms(1)], of es]
    by (auto simp: applyEvents_def Let_def split: if_splits)
  ultimately show ?thesis using assms by (auto simp: applyEvents_def Let_def split: if_splits)
qed

definition demoSnap :: Snapshot where
  "demoSnap = \<lparr>Processes = [execProcess (zeroBpfEvent\<lparr>b_PID := 7, b_Comm := ''sh''\<rparr>)], Connections = [], FileEvents = []\<rparr>"

theorem merge_refines_upsert_witness:
  "\<exists>snap' m'. applyEvents [zeroBpfEvent\<lparr>b_Type := EventExec, b_PID := 7, b_Comm := ''nc''\<rparr>] demoSnap (NewMergedCollector demoCollector True)
       = (snap', m') \<and> map Name (Processes snap') = [''nc''] \<and> m_drained m' = 1"
proof -
  let ?e = "zeroBpfEvent\<lparr>b_Type := EventExec, b_PID := 7, b_Comm := ''nc''\<rparr>"
  obtain snap' m' where a: "applyEvents [?e] demoSnap (NewMergedCollector demoCollector True) = (snap', m')" by (metis surj_pair)
  have "distinct (map PID (Processes demoSnap))" by (simp add: demoSnap_def)
  from merge_refines_upsert [OF this a] a show ?thesis
    by (simp add: demoSnap_def upsert_def execProcess_def overrideProcess_def zeroBpfEvent_def NewMergedCollector_def)
qed

section \<open>The connection tracker\<close>

text \<open>The buckets of \<open>ConnTracker\<close>, in the order in which the addresses were first recorded.\<close>

record ConnTracker =
  window :: duration
  conns :: "(string \<times> gotime list) list"

record ConnStats =
  Addr :: string
  ConnCount :: nat
  FirstSeen :: "gotime option"
  LastSeen :: "gotime option"
  IsBeacon :: bool
  AvgInterval :: duration

definition NewConnTracker :: "duration \<Rightarrow> ConnTracker" where
  "NewConnTracker w = \<lparr>window = w, conns = []\<rparr>"

definition pruneLocked :: "duration \<Rightarrow> gotime \<Rightarrow> gotime list \<Rightarrow> gotime list" where
  "pruneLocked w now ts = dropWhile (\<lambda>t. t < now - w) ts"

fun putConn :: "string \<Rightarrow> gotime list \<Rightarrow> (string \<times> gotime list) list \<Rightarrow> (string \<times> gotime list) list" where
  "putConn a ts [] = [(a, ts)]"
| "putConn a ts (b # bs) = (if fst b = a then (a, ts) # bs else b # putConn a ts bs)"

definition Record :: "string \<Rightarrow> gotime \<Rightarrow> ConnTracker \<Rightarrow> ConnTracker" where
  "Record addr now ct =
     (let old = (case map_of (conns ct) addr of Some ts \<Rightarrow> ts | None \<Rightarrow> [])
      in ct\<lparr>conns := putConn addr (pruneLocked (window ct) now (old @ [now])) (conns ct)\<rparr>)"

text \<open>Go's division of durations truncates.\<close>

definition quot :: "int \<Rightarrow> int \<Rightarrow> int" where
  "quot a b = sgn a * sgn b * (\<bar>a\<bar> div \<bar>b\<bar>)"

fun gaps :: "gotime list \<Rightarrow> duration" where
  "gaps (a # b # ts) = (b - a) + gaps (b # ts)"
| "gaps _ = 0"

text \<open>\<^term>\<open>None\<close>: the index expression on an empty bucket panics.\<close>

definition buildStats :: "string \<Rightarrow> gotime list \<Rightarrow> ConnStats option" where
  "buildStats addr ts =
     (if ts = [] then None
      else Some \<lparr>Addr = addr, ConnCount = length ts, FirstSeen = Some (hd ts), LastSeen = Some (last ts), IsBeacon = False,
                 AvgInterval = (if 2 \<le> length ts then quot (gaps ts) (int (length ts - 1)) else 0)\<rparr>)"

definition zeroStats :: "string \<Rightarrow> ConnStats" where
  "zeroStats addr = \<lparr>Addr = addr, ConnCount = 0, FirstSeen = None, LastSeen = None, IsBeacon = False, AvgInterval = 0\<rparr>"

definition connStats :: "string \<Rightarrow> gotime \<Rightarrow> ConnTracker \<Rightarrow> ConnStats option \<times> ConnTracker" where
  "connStats addr now ct =
     (case map_of (conns ct) addr of
        None \<Rightarrow> (Some (zeroStats addr), ct)
      | Some ts \<Rightarrow>
          (let ts' = pruneLocked (window ct) now ts
           in (buildStats addr ts', ct\<lparr>conns := putConn addr ts' (conns ct)\<rparr>)))"

definition AllStats :: "gotime \<Rightarrow> ConnTracker \<Rightarrow> ConnStats list \<times> ConnTracker" where
  "AllStats now ct =
     (let bs = map (\<lambda>(a, ts). (a, pruneLocked (window ct) now ts)) (conns ct)
      in (List.map_filter (\<lambda>(a, ts). buildStats a ts) bs, ct\<lparr>conns := bs\<rparr>))"

definition CheckBeacon :: "string \<Rightarrow> int \<Rightarrow> duration \<Rightarrow> duration \<Rightarrow> gotime \<Rightarrow> ConnTracker \<Rightarrow> bool option \<times> ConnTracker" where
  "CheckBeacon addr minCount minInterval maxInterval now ct =
     (case connStats addr now ct of
        (None, ct') \<Rightarrow> (None, ct')
      | (Some st, ct') \<Rightarrow>
          (Some (\<not> int (ConnCount st) < minCount \<and> \<not> (minInterval \<le> 0 \<or> maxInterval \<le> 0)
                 \<and> \<not> (AvgInterval st < minInterval \<or> maxInterval < AvgInterval st)), ct'))"

definition Cleanup :: "gotime \<Rightarrow> ConnTracker \<Rightarrow> ConnTracker" where
  "Cleanup now ct =
     ct\<lparr>conns := filter (\<lambda>b. snd b \<noteq> []) (map (\<lambda>(a, ts). (a, pruneLocked (window ct) now ts)) (conns ct))\<rparr>"

section \<open>The sliding window\<close>

fun recordAll :: "(string \<times> gotime) list \<Rightarrow> ConnTracker \<Rightarrow> ConnTracker" where
  "recordAll [] ct = ct"
| "recordAll (r # rs) ct = recordAll rs (Record (fst r) (snd r) ct)"

definition timesOf :: "string \<Rightarrow> (string \<times> gotime) list \<Rightarrow> gotime list" where
  "timesOf addr rs = map snd (filter (\<lambda>r. fst r = addr) rs)"

lemma map_of_putConn [simp]: "map_of (putConn a ts bs) q = (if q = a then Some ts else map_of bs q)"
  by (induction bs) auto

lemma prune_sorted: "sorted ts \<Longrightarrow> pruneLocked w now ts = filter (\<lambda>t. now - w \<le> t) ts"
proof (induction ts)
  case (Cons t ts)
  then show ?case by (auto simp: pruneLocked_def intro!: filter_id_conv [THEN iffD2, symmetric])
qed (simp add: pruneLocked_def)

lemma recordAll_snoc: "recordAll (rs @ [r]) ct = Record (fst r) (snd r) (recordAll rs ct)"
  by (induction rs arbitrary: ct) auto

lemma window_recordAll [simp]: "window (recordAll rs ct) = window ct"
  by (induction rs arbitrary: ct) (auto simp: Record_def Let_def)

text \<open>After a run of records in time order, a bucket holds the times within the window of its last one.\<close>

lemma recordAll_bucket:
  assumes "sorted (map snd rs)"
  shows "map_of (conns (recordAll rs (NewConnTracker w))) addr =
    (if timesOf addr rs = [] then None else Some (filter (\<lambda>t. last (timesOf addr rs) - w \<le> t) (timesOf addr rs)))"
  using assms
proof (induction rs arbitrary: addr rule: rev_induct)
  case Nil
  then show ?case by (simp add: timesOf_def NewConnTracker_def)
next
  case (snoc r rs)
  obtain a t where r: "r = (a, t)" by (cases r)
  have le: "\<forall>x \<in> set (map snd rs). x \<le> t" and srt: "sorted (map snd rs)"
    using snoc.prems by (auto simp: r sorted_append)
  have times: "timesOf a (rs @ [r]) = timesOf a rs @ [t]" "b \<noteq> a \<Longrightarrow> timesOf b (rs @ [r]) = timesOf b rs" for b
    by (simp_all add: timesOf_def r)
  have st: "sorted (timesOf a rs)" using srt by (simp add: timesOf_def sorted_filter)
  have bound: "\<forall>x \<in> set (timesOf a rs). x \<le> t" using le by (auto simp: timesOf_def)
  let ?old = "case map_of (conns (recordAll rs (NewConnTracker w))) a of Some ts \<Rightarrow> ts | None \<Rightarrow> []"
  have old: "?old = (if timesOf a rs = [] then [] else filter (\<lambda>x. last (timesOf a rs) - w \<le> x) (timesOf a rs))"
    using snoc.IH [OF srt, of a] by simp
  have "pruneLocked w t (?old @ [t]) = filter (\<lambda>x. t - w \<le> x) (timesOf a rs @ [t])"
  proof -
    have "sorted (?old @ [t])" using st bound unfolding old by (auto simp: sorted_append sorted_wrt_filter)
    then have "pruneLocked w t (?old @ [t]) = filter (\<lambda>x. t - w \<le> x) (?old @ [t])" by (rule prune_sorted)
    also have "filter (\<lambda>x. t - w \<le> x) ?old = filter (\<lambda>x. t - w \<le> x) (timesOf a rs)"
      unfolding old using bound by (auto intro!: filter_cong dest: last_in_set) (metis add_right_mono last_in_set order_trans diff_le_eq)
    ultimately show ?thesis by simp
  qed
  with snoc.IH [OF srt, of addr] times show ?case
    by (cases "addr = a") (simp_all add: recordAll_snoc r Record_def Let_def NewConnTracker_def)
qed

lemma gaps_telescope: "ts \<noteq> [] \<Longrightarrow> gaps ts = last ts - hd ts"
  by (induction ts rule: gaps.induct) auto

lemma quot_nonneg: "0 \<le> a \<Longrightarrow> 0 < b \<Longrightarrow> quot a b = a div b"
  by (cases "a = 0") (auto simp: quot_def)

text \<open>
  The statistics of an address are those of its sliding window.  After connections
  were recorded in time order, \<open>Stats\<close> at a later time counts exactly the connections of that
  address within the window, gives the first and last of them and their average distance; for
  an address with connections none of which is left in the window it panics.
\<close>

theorem connStats_sliding_window:
  fixes addr :: string and w :: duration
  assumes "sorted (map snd rs)" "\<forall>r \<in> set rs. snd r \<le> now"
  defines "ts \<equiv> filter (\<lambda>t. now - w \<le> t) (timesOf addr rs)"
  shows "fst (connStats addr now (recordAll rs (NewConnTracker w))) =
    (if timesOf addr rs = [] then Some (zeroStats addr)
     else if ts = [] then None
     else Some \<lparr>Addr = addr, ConnCount = length ts, FirstSeen = Some (hd ts), LastSeen = Some (last ts), IsBeacon = False,
                AvgInterval = (if 2 \<le> length ts then (last ts - hd ts) div int (length ts - 1) else 0)\<rparr>)"
proof (cases "timesOf addr rs = []")
  case True
  then show ?thesis using recordAll_bucket [OF assms(1), of w addr] by (simp add: connStats_def)
next
  case False
  let ?b = "filter (\<lambda>t. last (timesOf addr rs) - w \<le> t) (timesOf addr rs)"
  have st: "sorted (timesOf addr rs)" using assms(1) by (simp add: timesOf_def sorted_filter)
  have "last (timesOf addr rs) \<in> set (timesOf addr rs)" using False by simp
  then have "last (timesOf addr rs) \<le> now" using assms(2) by (auto simp: timesOf_def)
  then have "pruneLocked w now ?b = ts"
    using prune_sorted [OF sorted_wrt_filter [OF st]] unfolding ts_def by (auto intro!: filter_cong)
  then have b: "fst (connStats addr now (recordAll rs (NewConnTracker w))) = buildStats addr ts"
    using recordAll_bucket [OF assms(1), of w addr] False by (simp add: connStats_def Let_def NewConnTracker_def)
  show ?thesis
  proof (cases "ts = []")
    case False
    have "sorted ts" unfolding ts_def by (rule sorted_wrt_filter [OF st])
    then have "hd ts \<le> last ts" using False by (cases ts) auto
    then show ?thesis using b False \<open>timesOf addr rs \<noteq> []\<close> by (simp add: buildStats_def gaps_telescope quot_nonneg)
  qed (use b False in \<open>simp add: buildStats_def\<close>)
qed

theorem connStats_sliding_window_witness:
  "fst (connStats ''c2'' 100 (recordAll [(''c2'', 10), (''c2'', 20)] (NewConnTracker 60))) = None
   \<and> map_option ConnCount (fst (connStats ''c2'' 75 (recordAll [(''c2'', 10), (''c2'', 20)] (NewConnTracker 60)))) = Some 1"
  using connStats_sliding_window [of "[(''c2'', 10), (''c2'', 20)]" 100 "''c2''" 60]
    connStats_sliding_window [of "[(''c2'', 10), (''c2'', 20)]" 75 "''c2''" 60]
  by (simp add: timesOf_def)

end
