(* ===== verification/Agent.thy ===== *)
theory Agent
  imports Policy Suppress EventChain Response BpfLoader Merge
begin

text \<open>
  The agent, \<open>internal/control/agent.go\<close>: it evaluates the policy on every snapshot and on the
  fast kernel events, writes the audit events, applies at most one response per subject, keeps
  the counters and the response history, and mirrors the process blacklist into the BPF maps.
  The responder, the logger and what \<open>/proc\<close> shows are services it is given, the collector's
  snapshot is an argument; the world they act on is a type variable.  Every reading of the
  clock is a separate one: the agent counts its readings, and the clock is a function of the
  count.  A send on a closed channel is recorded as a panic.
\<close>

section \<open>State and services\<close>

record ResponseRecord =
  rr_Timestamp :: "gotime option"
  rr_RuleID :: string
  rr_Category :: string
  rr_Subject :: gomap
  rr_Object :: gomap
  rr_Request :: ActionRequest
  rr_Result :: Result

record deferredEval =
  de_pid :: "32 word"
  de_ppid :: "32 word"
  de_uid :: "32 word"
  de_comm :: string
  de_filename :: string
  de_ts :: gotime

record Agent =
  ag_Policy :: Policy
  ag_History :: "ResponseRecord list"
  ag_MaxHistory :: int
  ag_ResponsePath :: string
  ag_SuppressorStatePath :: string
  ag_StartedAt :: "gotime option"
  ag_RunCount :: "64 word"
  ag_EventCount :: "64 word"
  ag_ResponseCount :: "64 word"
  ag_SuppressedTotal :: "64 word"
  ag_SuppressionReasons :: "string \<rightharpoonup> 64 word"
  ag_RuleHits :: "string \<rightharpoonup> 64 word"
  ag_Suppressor :: "Suppressor option"
  ag_mapFiller :: "libbpfLoader option"
  ag_bpfHealthFn :: "(gotime \<Rightarrow> BPFHealth) option" \<comment> \<open>what the provider returns when it is asked\<close>
  ag_responseCh :: "ResponseRecord list option"   \<comment> \<open>\<^term>\<open>None\<close>: nil\<close>
  ag_deferredCh :: "deferredEval list option"
  ag_shut :: bool                                  \<comment> \<open>the channels are closed\<close>
  ag_panicked :: bool
  ag_tick :: nat                                   \<comment> \<open>readings of the clock so far\<close>
  ag_stateFile :: "string option"                  \<comment> \<open>the suppressor's state on disk\<close>
  ag_responseFile :: string                        \<comment> \<open>the response records on disk\<close>

record 'w Env =
  clk :: "nat \<Rightarrow> gotime"
  wall :: "gotime \<Rightarrow> WallTime"
  writeLog :: "Event \<Rightarrow> 'w \<Rightarrow> 'w"
  applyReq :: "ActionRequest \<Rightarrow> 'w \<Rightarrow> Result \<times> 'w"
  pidfdKill :: "int \<Rightarrow> 'w \<Rightarrow> bool \<times> 'w"      \<comment> \<open>whether it failed\<close>
  sysKill :: "int \<Rightarrow> 'w \<Rightarrow> 'w"
  procs :: ProcFS
  mapsRead :: "32 word \<Rightarrow> string option"         \<comment> \<open>what the first read of \<open>maps\<close> returns\<close>
  aliveFirst :: "32 word \<Rightarrow> bool"
  aliveAgain :: "32 word \<Rightarrow> bool"
  ownPID :: int
  supMarshal :: "suppressorPersist \<Rightarrow> string option"
  supUnmarshal :: "string \<Rightarrow> suppressorPersist option"
  recMarshal :: "ResponseRecord \<Rightarrow> string option"

type_synonym 'w st = "Agent \<times> 'w"

definition readClock :: "'w Env \<Rightarrow> Agent \<Rightarrow> gotime \<times> Agent" where
  "readClock env a = (clk env (ag_tick a), a\<lparr>ag_tick := ag_tick a + 1\<rparr>)"

definition count :: "string \<Rightarrow> (string \<rightharpoonup> 64 word) \<Rightarrow> string \<rightharpoonup> 64 word" where
  "count k m = m(k \<mapsto> (case m k of Some n \<Rightarrow> n | None \<Rightarrow> 0) + 1)"

section \<open>Start and stop\<close>

text \<open>\<open>readErr\<close>: the state file cannot be read.\<close>

definition Init :: "'w Env \<Rightarrow> bool \<Rightarrow> Agent \<Rightarrow> Agent" where
  "Init env readErr a0 =
     (let a1 = (if ag_StartedAt a0 = None then (case readClock env a0 of (now, a) \<Rightarrow> a\<lparr>ag_StartedAt := Some now\<rparr>) else a0);
          a2 = (if ag_responseCh a1 = None \<and> ag_ResponsePath a1 \<noteq> [] then a1\<lparr>ag_responseCh := Some []\<rparr> else a1);
          a3 = (if ag_deferredCh a2 = None then a2\<lparr>ag_deferredCh := Some []\<rparr> else a2)
      in if ag_SuppressorStatePath a3 \<noteq> [] \<and> ag_Suppressor a3 \<noteq> None
         then a3\<lparr>ag_Suppressor := snd (LoadState (supUnmarshal env) readErr (ag_stateFile a3) (ag_Suppressor a3))\<rparr>
         else a3)"

text \<open>\<open>Shutdown\<close> up to the waits for the two goroutines; closing a closed channel panics.\<close>

definition Shutdown :: "Agent \<Rightarrow> Agent" where
  "Shutdown a = (if ag_shut a \<and> (ag_responseCh a \<noteq> None \<or> ag_deferredCh a \<noteq> None) then a\<lparr>ag_panicked := True\<rparr>
                 else a\<lparr>ag_shut := True\<rparr>)"

text \<open>
  \<open>appendResponseRecord\<close>; \<open>okOpen\<close>: the directory and the file could be made and opened,
  \<open>fault\<close>: the bytes written before the write failed.
\<close>

definition appendResponseRecord :: "'w Env \<Rightarrow> bool \<Rightarrow> nat option \<Rightarrow> ResponseRecord \<Rightarrow> Agent \<Rightarrow> Agent" where
  "appendResponseRecord env okOpen fault rec a =
     (if \<not> okOpen then a
      else (case recMarshal env rec of
              None \<Rightarrow> a
            | Some raw \<Rightarrow>
                (let out = raw @ [nl]
                 in a\<lparr>ag_responseFile := ag_responseFile a @ (case fault of None \<Rightarrow> out | Some n \<Rightarrow> take n out)\<rparr>)))"

text \<open>One turn of \<open>responseWriter\<close>.\<close>

definition responseWriter :: "'w Env \<Rightarrow> bool \<Rightarrow> nat option \<Rightarrow> Agent \<Rightarrow> Agent" where
  "responseWriter env okOpen fault a =
     (case ag_responseCh a of
        Some (rec # recs) \<Rightarrow> appendResponseRecord env okOpen fault rec (a\<lparr>ag_responseCh := Some recs\<rparr>)
      | _ \<Rightarrow> a)"

section \<open>Policy and BPF maps\<close>

definition CurrentPolicy :: "Agent \<Rightarrow> Policy" where
  "CurrentPolicy a = ag_Policy a"

text \<open>The loop of \<open>syncBPFMaps\<close> over the blacklist; \<open>rc\<close> are the answers of the kernel to an insertion.\<close>

fun fillMaps :: "(string \<Rightarrow> int) \<Rightarrow> Match list \<Rightarrow> libbpfLoader \<Rightarrow> libbpfLoader" where
  "fillMaps rc [] l = l"
| "fillMaps rc (bl # bls) l =
     (let name = m_ProcessName bl in
      if name = [] then fillMaps rc bls l
      else if length name \<le> 15 then fillMaps rc bls (snd (libBlacklistAdd (rc name) name l))
      else fillMaps rc bls (snd (libBlacklistFilenameAdd (rc name) name l)))"

definition syncMaps :: "(string \<Rightarrow> int) \<Rightarrow> (string \<Rightarrow> int) \<Rightarrow> Policy \<Rightarrow> libbpfLoader \<Rightarrow> libbpfLoader" where
  "syncMaps rcAdd rcDel pol l =
     (case libBlacklistClear rcDel l of
        (Some _, l1) \<Rightarrow> l1
      | (None, l1) \<Rightarrow>
          fillMaps rcAdd (pa_Blacklist (p_ProcessAccess pol)) (snd (libBlacklistFilenameClear rcDel l1)))"

definition syncBPFMaps :: "(string \<Rightarrow> int) \<Rightarrow> (string \<Rightarrow> int) \<Rightarrow> Agent \<Rightarrow> Agent" where
  "syncBPFMaps rcAdd rcDel a = a\<lparr>ag_mapFiller := map_option (syncMaps rcAdd rcDel (ag_Policy a)) (ag_mapFiller a)\<rparr>"

definition ReplacePolicy :: "(string \<Rightarrow> int) \<Rightarrow> (string \<Rightarrow> int) \<Rightarrow> Policy \<Rightarrow> Agent \<Rightarrow> Agent" where
  "ReplacePolicy rcAdd rcDel p a = syncBPFMaps rcAdd rcDel (a\<lparr>ag_Policy := p\<rparr>)"

definition SetMapFiller :: "libbpfLoader option \<Rightarrow> Agent \<Rightarrow> Agent" where
  "SetMapFiller mf a = a\<lparr>ag_mapFiller := mf\<rparr>"

definition SetBPFHealthProvider :: "(gotime \<Rightarrow> BPFHealth) option \<Rightarrow> Agent \<Rightarrow> Agent" where
  "SetBPFHealthProvider fn a = a\<lparr>ag_bpfHealthFn := fn\<rparr>"

definition agentBPFHealth :: "gotime \<Rightarrow> Agent \<Rightarrow> BPFHealth" where
  "agentBPFHealth now a = (case ag_bpfHealthFn a of Some fn \<Rightarrow> fn now | None \<Rightarrow> \<lparr>Attached = False, EventsDrained = 0, OverloadDrops = 0, LastErrorAt = None, LastError = []\<rparr>)"

definition ClearAgentPID :: "int \<Rightarrow> Agent \<Rightarrow> Agent" where
  "ClearAgentPID rc a = a\<lparr>ag_mapFiller := map_option (\<lambda>l. snd (libSetAgentPID rc 0 l)) (ag_mapFiller a)\<rparr>"

section \<open>Records\<close>

definition ResponseHistory :: "int \<Rightarrow> Agent \<Rightarrow> ResponseRecord list" where
  "ResponseHistory limit a =
     (let n = length (ag_History a);
          limit' = (if limit \<le> 0 \<or> limit > int n then n else nat limit)
      in drop (n - limit') (ag_History a))"

text \<open>The send to the response writer at the end of \<open>recordResponse\<close>, given up when the buffer is full.\<close>

definition sendResponse :: "ResponseRecord \<Rightarrow> Agent \<Rightarrow> Agent" where
  "sendResponse rec a =
     (if ag_ResponsePath a = [] then a
      else (case ag_responseCh a of
              None \<Rightarrow> a
            | Some ch \<Rightarrow>
                if ag_shut a then a\<lparr>ag_panicked := True\<rparr>
                else if length ch < 256 then a\<lparr>ag_responseCh := Some (ch @ [rec])\<rparr> else a))"

text \<open>The history, cut to its bound, which is set when it is missing.\<close>

definition historyCap :: "int \<Rightarrow> int" where
  "historyCap n = (if n \<le> 0 then 256 else n)"

definition cutHistory :: "int \<Rightarrow> 'r list \<Rightarrow> 'r list" where
  "cutHistory cap hist = (if int (length hist) > cap then drop (length hist - nat cap) hist else hist)"

definition recordResponse :: "'w Env \<Rightarrow> ResponseRecord \<Rightarrow> Agent \<Rightarrow> Agent" where
  "recordResponse env rec0 a0 =
     (let a1 = a0\<lparr>ag_MaxHistory := historyCap (ag_MaxHistory a0)\<rparr>;
          (now, a2) = readClock env a1;
          rec = rec0\<lparr>rr_Timestamp := Some now\<rparr>;
          counts = (if res_Success (rr_Result rec) \<or> res_Detail (rr_Result rec) \<noteq> [] then 1 else 0)
      in sendResponse rec
           (a2\<lparr>ag_ResponseCount := ag_ResponseCount a2 + 1, ag_EventCount := ag_EventCount a2 + counts,
               ag_History := cutHistory (ag_MaxHistory a2) (ag_History a2 @ [rec])\<rparr>))"

definition recordRuleHit :: "string \<Rightarrow> Agent \<Rightarrow> Agent" where
  "recordRuleHit ruleID a = a\<lparr>ag_RuleHits := count ruleID (ag_RuleHits a)\<rparr>"

definition recordSuppressed :: "string \<Rightarrow> Agent \<Rightarrow> Agent" where
  "recordSuppressed reason a =
     a\<lparr>ag_SuppressedTotal := ag_SuppressedTotal a + 1, ag_SuppressionReasons := count reason (ag_SuppressionReasons a)\<rparr>"

definition allowAndRecord :: "'w Env \<Rightarrow> string \<Rightarrow> string \<Rightarrow> string \<Rightarrow> Agent \<Rightarrow> bool \<times> Agent" where
  "allowAndRecord env category ruleID key a0 =
     (let a1 = recordRuleHit ruleID a0 in
      case ag_Suppressor a1 of
        None \<Rightarrow> (True, a1)
      | Some s \<Rightarrow>
          (let (now, a2) = readClock env a1 in
           case Allow (Some s) now category ruleID key of
             ((ok, reason), sp) \<Rightarrow>
               (let a3 = a2\<lparr>ag_Suppressor := sp\<rparr> in (ok, if ok then a3 else recordSuppressed reason a3))))"

section \<open>Decisions\<close>

definition stringOr :: "gomap \<Rightarrow> string \<Rightarrow> string" where
  "stringOr m k = (case getStr m k of Some s \<Rightarrow> s | None \<Rightarrow> [])"

definition intText :: "gomap \<Rightarrow> string \<Rightarrow> string" where
  "intText m k = (case getInt m k of Some n \<Rightarrow> itoa n | None \<Rightarrow> [])"

definition dedupKeyForRule :: "string \<Rightarrow> Rule \<Rightarrow> gomap \<Rightarrow> gomap \<Rightarrow> Process option \<Rightarrow> string" where
  "dedupKeyForRule category rule subject object proc =
     (if category = ''process'' then
        (case proc of
           Some p \<Rightarrow> DedupKey ''process'' (r_ID rule) [itoa (PID p), StartTicks p]
         | None \<Rightarrow> DedupKey ''process'' (r_ID rule) [intText subject ''pid'', stringOr subject ''start_ticks''])
      else if category = ''file'' then
        DedupKey ''file'' (r_ID rule) [stringOr object ''path'', stringOr object ''op'']
      else if category = ''network'' then
        DedupKey ''network'' (r_ID rule) [stringOr object ''remote_addr'', intText object ''local_port'', stringOr object ''protocol'']
      else DedupKey category (r_ID rule) [])"

text \<open>The request of \<open>applyResponse\<close>; \<^term>\<open>None\<close>: it returns without one.\<close>

definition requestFor :: "Rule \<Rightarrow> string \<Rightarrow> gomap \<Rightarrow> Process option \<Rightarrow> ActionRequest option" where
  "requestFor rule category object proc =
     (let req = zeroRequest\<lparr>a_Action := r_Action rule, a_RuleID := r_ID rule\<rparr> in
      if category = ''process'' then
        map_option (\<lambda>p. req\<lparr>a_PID := PID p, a_ProcessPath := Path p, a_StartTicks := StartTicks p\<rparr>) proc
      else if category = ''file'' then
        (if object = None then None else Some (req\<lparr>a_Path := stringOr object ''path''\<rparr>))
      else if category = ''network'' then
        (if object = None then None
         else Some (req\<lparr>a_RemoteAddr := stringOr object ''remote_addr'',
                        a_LocalPort := (case getInt object ''local_port'' of Some n \<Rightarrow> n | None \<Rightarrow> 0),
                        a_Protocol := stringOr object ''protocol''\<rparr>))
      else Some req)"

definition resultValue :: "Result \<Rightarrow> anyv" where
  "resultValue r = VStruct [(''action'', VStr (res_Action r)), (''success'', VBool (res_Success r)), (''detail'', VStr (res_Detail r))]"

definition applyResponse :: "'w Env \<Rightarrow> Rule \<Rightarrow> string \<Rightarrow> gomap \<Rightarrow> gomap \<Rightarrow> Process option \<Rightarrow> 'w st \<Rightarrow> 'w st" where
  "applyResponse env rule category subject object proc s =
     (case requestFor rule category object proc of
        None \<Rightarrow> s
      | Some req \<Rightarrow>
          (let (a, w) = s;
               (res, w1) = applyReq env req w;
               a1 = recordResponse env \<lparr>rr_Timestamp = None, rr_RuleID = r_ID rule, rr_Category = category,
                      rr_Subject = subject, rr_Object = object, rr_Request = req, rr_Result = res\<rparr> a;
               (now, a2) = readClock env a1
           in (a2, writeLog env (zeroEvent\<lparr>e_EventID := category @ ''-'' @ r_ID rule @ ''-resp-'' @ itoa now,
                     e_Category := category, e_Severity := r_Severity rule, e_Subject := subject, e_Object := object,
                     e_Action := r_Action rule, e_Decision := r_Decision rule, e_RuleID := r_ID rule,
                     e_Evidence := Some [(''response'', resultValue res)]\<rparr>) w1)))"

definition auditEvent :: "gotime \<Rightarrow> string \<Rightarrow> gomap \<Rightarrow> gomap \<Rightarrow> Rule \<Rightarrow> Event" where
  "auditEvent now category subject object rule =
     zeroEvent\<lparr>e_EventID := category @ ''-'' @ r_ID rule @ ''-'' @ itoa now, e_Category := category,
       e_Severity := r_Severity rule, e_Subject := subject, e_Object := object, e_Action := r_Action rule,
       e_Decision := r_Decision rule, e_RuleID := r_ID rule\<rparr>"

fun auditLoop :: "'w Env \<Rightarrow> gotime \<Rightarrow> string \<Rightarrow> gomap \<Rightarrow> gomap \<Rightarrow> Process option \<Rightarrow> Rule list \<Rightarrow> 'w st \<Rightarrow> 'w st" where
  "auditLoop env now category subject object proc [] s = s"
| "auditLoop env now category subject object proc (rule # rules) (a, w) =
     (case allowAndRecord env category (r_ID rule) (dedupKeyForRule category rule subject object proc) a of
        (ok, a') \<Rightarrow>
          auditLoop env now category subject object proc rules
            (a', if ok then writeLog env (auditEvent now category subject object rule) w else w))"

definition applyMatchSet :: "'w Env \<Rightarrow> gotime \<Rightarrow> Rule list \<Rightarrow> string \<Rightarrow> gomap \<Rightarrow> gomap \<Rightarrow> Process option \<Rightarrow> 'w st \<Rightarrow> 'w st" where
  "applyMatchSet env now matchset category subject object proc s =
     (let (resp, audit) = AggregatedDecision matchset;
          (a1, w1) = auditLoop env now category subject object proc audit s
      in case resp of
           None \<Rightarrow> (a1, w1)
         | Some rule \<Rightarrow>
             (case allowAndRecord env category (r_ID rule) (dedupKeyForRule category rule subject object proc) a1 of
                (ok, a2) \<Rightarrow> if ok then applyResponse env rule category subject object proc (a2, w1) else (a2, w1)))"

section \<open>One cycle\<close>

definition handleProcess :: "'w Env \<Rightarrow> Policy \<Rightarrow> gotime \<Rightarrow> Process \<Rightarrow> 'w st \<Rightarrow> 'w st" where
  "handleProcess env pol now p s =
     (let subj = zeroSubject\<lparr>s_ProcessName := Name p, s_ProcessPath := Path p, s_Cmdline := Cmdline p, s_User := User p\<rparr>;
          base = [(''pid'', VInt (PID p)), (''name'', VStr (Name p)), (''path'', VStr (Path p)), (''cmdline'', VStr (Cmdline p))]
      in case EvaluateProcessAccess pol subj of
           Some rule \<Rightarrow>
             if r_Decision rule = ''allow'' then s
             else
               (case allowAndRecord env ''process'' (r_ID rule) (DedupKey ''process'' (r_ID rule) [itoa (PID p), StartTicks p]) (fst s) of
                  (ok, a) \<Rightarrow> if ok then applyResponse env rule ''process'' (Some base) None (Some p) (a, snd s) else (a, snd s))
         | None \<Rightarrow>
             (let ms = evaluateAll pol (wall env now) subj zeroObject in
              if ms = [] then s
              else applyMatchSet env now ms ''process'' (Some (base @ [(''user'', VStr (User p))])) None (Some p) s))"

definition fileObject :: "FileEvent \<Rightarrow> gomap" where
  "fileObject e = Some [(''path'', VStr (fe_Path e)), (''op'', VStr (fe_Op e)), (''size'', VInt64 (fe_Size e)),
     (''mode'', VStr (fe_Mode e)), (''mod_time'', case fe_ModTime e of Some t \<Rightarrow> VTime t | None \<Rightarrow> VZeroTime)]"

definition handleFileEvent :: "'w Env \<Rightarrow> Policy \<Rightarrow> gotime \<Rightarrow> FileEvent \<Rightarrow> 'w st \<Rightarrow> 'w st" where
  "handleFileEvent env pol now e s =
     (let ms = evaluateAll pol (wall env now) zeroSubject (zeroObject\<lparr>o_FilePath := fe_Path e, o_FileOp := fe_Op e\<rparr>) in
      if ms = [] then
        (let (a, w) = s;
             a1 = recordRuleHit ''file-watch'' a;
             (t, a2) = readClock env (a1\<lparr>ag_EventCount := ag_EventCount a1 + 1\<rparr>)
         in (a2, writeLog env (zeroEvent\<lparr>e_EventID := ''file-'' @ fe_Op e @ ''-'' @ itoa t, e_Category := ''file'',
                   e_Severity := ''medium'', e_Object := fileObject e, e_Action := ''observe'', e_Decision := ''alert'',
                   e_RuleID := ''file-watch''\<rparr>) w))
      else applyMatchSet env now ms ''file'' None (fileObject e) None s)"

definition connObject :: "Connection \<Rightarrow> gomap" where
  "connObject c = Some [(''protocol'', VStr (Protocol c)), (''local_addr'', VStr (LocalAddr c)), (''local_port'', VInt (LocalPort c)),
     (''remote_addr'', VStr (RemoteAddr c)), (''state'', VStr (State c))]"

definition handleConnection :: "'w Env \<Rightarrow> Policy \<Rightarrow> gotime \<Rightarrow> Connection \<Rightarrow> 'w st \<Rightarrow> 'w st" where
  "handleConnection env pol now c s =
     (let ms = evaluateAll pol (wall env now) zeroSubject
                 (zeroObject\<lparr>o_RemoteAddr := RemoteAddr c, o_LocalPort := LocalPort c, o_Protocol := Protocol c\<rparr>)
      in if ms = [] then s else applyMatchSet env now ms ''network'' None (connObject c) None s)"

text \<open>
  \<open>ctxErr\<close>: the error of a cancelled context; \<open>snap\<close>: what the collector returns; \<open>mkdirOK\<close>
  and \<open>writeFault\<close>: the fate of saving the suppressor's state.
\<close>

definition RunOnce :: "'w Env \<Rightarrow> string option \<Rightarrow> bool \<Rightarrow> string + Snapshot \<Rightarrow> bool \<Rightarrow> string option option
    \<Rightarrow> 'w st \<Rightarrow> string option \<times> 'w st" where
  "RunOnce env ctxErr readErr snap mkdirOK writeFault s =
     (case ctxErr of
        Some err \<Rightarrow> (Some err, s)
      | None \<Rightarrow>
          (let a0 = Init env readErr (fst s);
               a1 = a0\<lparr>ag_RunCount := ag_RunCount a0 + 1\<rparr>
           in case snap of
                Inl err \<Rightarrow> (Some err, (a1, snd s))
              | Inr sn \<Rightarrow>
                  (let pol = CurrentPolicy a1;
                       (now, a2) = readClock env a1;
                       s1 = fold (handleProcess env pol now) (Processes sn) (a2, snd s);
                       s2 = fold (handleFileEvent env pol now) (FileEvents sn) s1;
                       (a3, w3) = fold (handleConnection env pol now) (Connections sn) s2;
                       a4 = (if ag_SuppressorStatePath a3 \<noteq> [] \<and> ag_Suppressor a3 \<noteq> None
                             then a3\<lparr>ag_stateFile := snd (SaveState (supMarshal env) mkdirOK writeFault (ag_Suppressor a3) (ag_stateFile a3))\<rparr>
                             else a3)
                   in (None, (a4, w3)))))"

section \<open>The fast path\<close>

definition u32 :: "32 word \<Rightarrow> string" where
  "u32 n = natStr (unat n)"

definition resolveProcExe :: "'w Env \<Rightarrow> 32 word \<Rightarrow> string" where
  "resolveProcExe env pid = (case pf_exe (procs env) (''/proc/'' @ u32 pid @ ''/exe'') of Some p \<Rightarrow> p | None \<Rightarrow> [])"

text \<open>A file of zero-terminated strings, joined by a separator.\<close>

definition joinNul :: "string \<Rightarrow> string option \<Rightarrow> string" where
  "joinNul sep content =
     (case content of
        None \<Rightarrow> []
      | Some d \<Rightarrow> (let parts = splitC nul d in joinS sep (if last parts = [] then butlast parts else parts)))"

definition readProcCmdline :: "'w Env \<Rightarrow> 32 word \<Rightarrow> string" where
  "readProcCmdline env pid = joinNul '' '' (pf_file (procs env) (''/proc/'' @ u32 pid @ ''/cmdline''))"

definition readProcEnviron :: "'w Env \<Rightarrow> 32 word \<Rightarrow> string" where
  "readProcEnviron env pid = joinNul [nl] (pf_file (procs env) (''/proc/'' @ u32 pid @ ''/environ''))"

definition readProcMaps :: "'w Env \<Rightarrow> 32 word \<Rightarrow> string" where
  "readProcMaps env pid = (case mapsRead env pid of Some d \<Rightarrow> take 4096 d | None \<Rightarrow> [])"

definition handleFastPathExec :: "'w Env \<Rightarrow> BpfEvent \<Rightarrow> 'w st \<Rightarrow> 'w st" where
  "handleFastPathExec env ev s =
     (let (a, w) = s;
          subj = zeroSubject\<lparr>s_ProcessName := b_Comm ev, s_ProcessPath := b_Filename ev, s_User := u32 (b_UID ev)\<rparr>;
          verdict = EvaluateProcessAccess (CurrentPolicy a) subj
      in case (case verdict of Some rule \<Rightarrow> if r_Decision rule = ''allow'' then None else Some rule | None \<Rightarrow> None) of
           None \<Rightarrow>
             (let (now, a1) = readClock env a;
                  de = \<lparr>de_pid = b_PID ev, de_ppid = b_PPID ev, de_uid = b_UID ev, de_comm = b_Comm ev,
                        de_filename = b_Filename ev, de_ts = now\<rparr>
              in case ag_deferredCh a1 of
                   None \<Rightarrow> (a1, w)
                 | Some ch \<Rightarrow>
                     if ag_shut a1 then (a1\<lparr>ag_panicked := True\<rparr>, w)
                     else if length ch < 256 then (a1\<lparr>ag_deferredCh := Some (ch @ [de])\<rparr>, w) else (a1, w))
         | Some rule \<Rightarrow>
             (let req = zeroRequest\<lparr>a_Action := r_Action rule, a_PID := uint (b_PID ev), a_ProcessPath := b_Filename ev, a_RuleID := r_ID rule\<rparr>;
                  (res, w1) = applyReq env req w
              in (recordResponse env \<lparr>rr_Timestamp = None, rr_RuleID = r_ID rule, rr_Category = ''process'',
                    rr_Subject = Some [(''pid'', VU32 (b_PID ev)), (''name'', VStr (b_Comm ev)), (''path'', VStr (b_Filename ev))],
                    rr_Object = None, rr_Request = req, rr_Result = res\<rparr> a, w1)))"

definition processDeferredEval :: "'w Env \<Rightarrow> deferredEval \<Rightarrow> 'w st \<Rightarrow> 'w st" where
  "processDeferredEval env de s =
     (let (a, w) = s; pid = de_pid de in
      if \<not> aliveFirst env pid then
        (a\<lparr>ag_SuppressedTotal := ag_SuppressedTotal a + 1\<rparr>,
         writeLog env (zeroEvent\<lparr>e_EventID := ''deferred-exit-'' @ u32 pid @ ''-'' @ itoa (de_ts de), e_Category := ''process'',
           e_Severity := ''low'', e_Subject := Some [(''pid'', VU32 pid), (''name'', VStr (de_comm de))],
           e_Action := ''observe'', e_Decision := ''skip'', e_RuleID := ''deferred-eval-exit''\<rparr>) w)
      else
        (let exe = resolveProcExe env pid;
             procPath = (if exe = [] then de_filename de else exe);
             subj = zeroSubject\<lparr>s_ProcessName := de_comm de, s_ProcessPath := procPath, s_Cmdline := readProcCmdline env pid,
                      s_User := u32 (de_uid de), s_Environ := readProcEnviron env pid, s_MapsLibs := readProcMaps env pid\<rparr>;
             (now, a1) = readClock env a;
             ms = evaluateAll (CurrentPolicy a) (wall env now) subj zeroObject
         in if ms = [] \<or> \<not> aliveAgain env pid then (a1, w)
            else
              (let proc = map_option (\<lambda>stat. \<lparr>PID = uint pid, Name = de_comm de, Path = procPath, Cmdline = s_Cmdline subj,
                            User = s_User subj, StartTicks = StartTicksFromStat stat, PPID = 0, ParentName = [], EUID = [],
                            ContainerID = []\<rparr>) (pf_file (procs env) (''/proc/'' @ u32 pid @ ''/stat''));
                   subject = Some [(''pid'', VU32 pid), (''name'', VStr (de_comm de)), (''path'', VStr procPath),
                               (''cmdline'', VStr (s_Cmdline subj)), (''user'', VStr (s_User subj))]
               in applyMatchSet env now ms ''process'' subject None proc (a1, w))))"

text \<open>One turn of \<open>handleDeferredEval\<close>.\<close>

definition handleDeferredEval :: "'w Env \<Rightarrow> 'w st \<Rightarrow> 'w st" where
  "handleDeferredEval env s =
     (case ag_deferredCh (fst s) of
        Some (de # des) \<Rightarrow> processDeferredEval env de ((fst s)\<lparr>ag_deferredCh := Some des\<rparr>, snd s)
      | _ \<Rightarrow> s)"

text \<open>
  What the three detection handlers share: evaluate, log every audit rule, respond.  \<open>label\<close>
  begins the event ids, \<open>subject\<close> is logged, \<open>brief\<close> goes into the response record.
\<close>

definition detect :: "'w Env \<Rightarrow> BpfEvent \<Rightarrow> string \<Rightarrow> Subject \<Rightarrow> (string \<times> anyv) list \<Rightarrow> (string \<times> anyv) list \<Rightarrow> 'w st \<Rightarrow> 'w st" where
  "detect env ev label subj subject brief s =
     (let (a, w) = s;
          (now, a1) = readClock env a;
          rules = evaluateAll (CurrentPolicy a) (wall env now) subj zeroObject
      in if rules = [] then (a1, w)
         else
           (let (resp, audits) = AggregatedDecision rules;
                w1 = fold (\<lambda>r. writeLog env (zeroEvent\<lparr>e_EventID := label @ ''-'' @ u32 (b_PID ev) @ ''-'' @ itoa now,
                       e_Category := ''process'', e_Severity := r_Severity r, e_Subject := Some subject,
                       e_Action := r_Action r, e_Decision := r_Decision r, e_RuleID := r_ID r\<rparr>)) audits w
            in case resp of
                 None \<Rightarrow> (a1, w1)
               | Some rule \<Rightarrow>
                   if r_Action rule = ''none'' then (a1, w1)
                   else
                     (let req = zeroRequest\<lparr>a_Action := r_Action rule, a_PID := uint (b_PID ev),
                                  a_ProcessPath := s_ProcessPath subj, a_RuleID := r_ID rule\<rparr>;
                          (res, w2) = applyReq env req w1
                      in (recordResponse env \<lparr>rr_Timestamp = None, rr_RuleID = r_ID rule, rr_Category = ''process'',
                            rr_Subject = Some brief, rr_Object = None, rr_Request = req, rr_Result = res\<rparr> a1, w2))))"

definition handleFastPathPtraceEnh :: "'w Env \<Rightarrow> BpfEvent \<Rightarrow> 'w st \<Rightarrow> 'w st" where
  "handleFastPathPtraceEnh env ev =
     (let base = [(''pid'', VU32 (b_PID ev)), (''name'', VStr (b_Comm ev)), (''ptrace_request'', VU32 (b_Reserved ev))] in
      detect env ev ''ptrace-enh''
        (zeroSubject\<lparr>s_ProcessName := b_Comm ev, s_ProcessPath := resolveProcExe env (b_PID ev), s_User := u32 (b_UID ev),
                     s_PtraceSelfCheck := (b_Reserved ev = 0)\<rparr>)
        (base @ [(''ptrace_label'', VStr (b_Filename ev)), (''target_pid'', VU32 (b_PPID ev))]) base)"

definition handleFastPathLDPreload :: "'w Env \<Rightarrow> BpfEvent \<Rightarrow> 'w st \<Rightarrow> 'w st" where
  "handleFastPathLDPreload env ev =
     (let base = [(''pid'', VU32 (b_PID ev)), (''name'', VStr (b_Comm ev)), (''ld_preload'', VStr (b_Filename ev))] in
      detect env ev ''ldpreload''
        (zeroSubject\<lparr>s_ProcessName := b_Comm ev, s_ProcessPath := resolveProcExe env (b_PID ev), s_User := u32 (b_UID ev),
                     s_Environ := ''LD_PRELOAD='' @ b_Filename ev\<rparr>) base base)"

definition mappedFile :: "'w Env \<Rightarrow> BpfEvent \<Rightarrow> string" where
  "mappedFile env ev =
     (if b_Reserved ev > 0
      then (case pf_exe (procs env) (''/proc/'' @ u32 (b_PID ev) @ ''/fd/'' @ u32 (b_Reserved ev)) of Some t \<Rightarrow> t | None \<Rightarrow> [])
      else [])"

definition handleFastPathInstrument :: "'w Env \<Rightarrow> BpfEvent \<Rightarrow> 'w st \<Rightarrow> 'w st" where
  "handleFastPathInstrument env ev =
     (let mp = mappedFile env ev;
          base = [(''pid'', VU32 (b_PID ev)), (''name'', VStr (b_Comm ev)), (''mapped_file'', VStr mp)] in
      detect env ev ''instrument''
        (zeroSubject\<lparr>s_ProcessName := b_Comm ev, s_ProcessPath := resolveProcExe env (b_PID ev), s_User := u32 (b_UID ev),
                     s_MapsLibs := mp\<rparr>)
        (base @ [(''fd'', VU32 (b_Reserved ev))]) base)"

definition selfProtectEvent :: "string \<Rightarrow> string \<Rightarrow> string \<Rightarrow> string \<Rightarrow> (string \<times> anyv) list \<Rightarrow> Event" where
  "selfProtectEvent eid action decision ruleID subject =
     zeroEvent\<lparr>e_EventID := eid, e_Category := ''self_protection'', e_Severity := ''critical'', e_Subject := Some subject,
       e_Action := action, e_Decision := decision, e_RuleID := ruleID\<rparr>"

definition handleFastPathSelfProtect :: "'w Env \<Rightarrow> BpfEvent \<Rightarrow> 'w st \<Rightarrow> 'w st" where
  "handleFastPathSelfProtect env ev s =
     (let (a, w) = s;
          (t1, a1) = readClock env a;
          w1 = writeLog env (selfProtectEvent (''selfprotect-'' @ u32 (b_PID ev) @ ''-'' @ itoa t1) ''alert'' ''alert'' ''self-protect-detect''
                 [(''attacker_pid'', VU32 (b_PID ev)), (''attacker_comm'', VStr (b_Comm ev)), (''target_pid'', VU32 (b_PPID ev)),
                  (''syscall'', VStr (b_Filename ev)), (''attacker_uid'', VU32 (b_UID ev))]) w;
          attacker = uint (b_PID ev)
      in if sp_EnforceMode (p_SelfProtection (CurrentPolicy a1)) \<noteq> ''kill'' then (a1, w1)
         else if attacker \<le> 1 \<or> attacker = ownPID env then (a1, w1)
         else
           (let (failed, w2) = pidfdKill env attacker w1;
                w3 = (if failed then sysKill env attacker w2 else w2);
                (t2, a2) = readClock env a1
            in (a2, writeLog env (selfProtectEvent (''selfprotect-enforce-'' @ u32 (b_PID ev) @ ''-'' @ itoa t2) ''kill'' ''block'' ''self-protect-enforce''
                  [(''attacker_pid'', VU32 (b_PID ev)), (''attacker_comm'', VStr (b_Comm ev)), (''syscall'', VStr (b_Filename ev))]) w3)))"

text \<open>The goroutine of \<open>StartFastPath\<close>, for one event.\<close>

definition fastPath :: "'w Env \<Rightarrow> BpfEvent \<Rightarrow> 'w st \<Rightarrow> 'w st" where
  "fastPath env ev =
     (case b_Type ev of
        EventExec \<Rightarrow> handleFastPathExec env ev
      | EventSelfProtect \<Rightarrow> handleFastPathSelfProtect env ev
      | EventPtraceEnh \<Rightarrow> handleFastPathPtraceEnh env ev
      | EventLDPreload \<Rightarrow> handleFastPathLDPreload env ev
      | EventInstrument \<Rightarrow> handleFastPathInstrument env ev
      | _ \<Rightarrow> id)"

section \<open>Metrics\<close>

record Metrics =
  started_at :: "gotime option"
  uptime_sec :: int
  run_count :: "64 word"
  event_count :: "64 word"
  response_count :: "64 word"
  suppressed_total :: "64 word"
  suppression_reasons :: "string \<rightharpoonup> 64 word"
  response_history :: nat
  rule_hits :: "string \<rightharpoonup> 64 word"
  bpf :: "BPFHealth option"

definition metrics :: "gotime \<Rightarrow> Agent \<Rightarrow> Metrics" where
  "metrics now a = \<lparr>started_at = ag_StartedAt a,
     uptime_sec = (case ag_StartedAt a of Some t \<Rightarrow> quot (now - t) 1000000000 | None \<Rightarrow> 0),
     run_count = ag_RunCount a, event_count = ag_EventCount a, response_count = ag_ResponseCount a,
     suppressed_total = ag_SuppressedTotal a, suppression_reasons = ag_SuppressionReasons a,
     response_history = length (ag_History a), rule_hits = ag_RuleHits a,
     bpf = map_option (\<lambda>fn. fn now) (ag_bpfHealthFn a)\<rparr>"

section \<open>The response history\<close>

definition historyBound :: "Agent \<Rightarrow> nat" where
  "historyBound a = (if ag_MaxHistory a \<le> 0 then 256 else nat (ag_MaxHistory a))"

definition unstamped :: "ResponseRecord \<Rightarrow> ResponseRecord" where
  "unstamped r = r\<lparr>rr_Timestamp := None\<rparr>"

lemma sendResponse_frame [simp]:
  "ag_History (sendResponse rec a) = ag_History a" "ag_MaxHistory (sendResponse rec a) = ag_MaxHistory a"
  "ag_ResponseCount (sendResponse rec a) = ag_ResponseCount a" "ag_Suppressor (sendResponse rec a) = ag_Suppressor a"
  "ag_deferredCh (sendResponse rec a) = ag_deferredCh a" "ag_Policy (sendResponse rec a) = ag_Policy a"
  "ag_mapFiller (sendResponse rec a) = ag_mapFiller a" "ag_tick (sendResponse rec a) = ag_tick a"
  by (simp_all add: sendResponse_def split: option.split)

lemma recordResponse_ring:
  "ag_History (recordResponse env rec a) =
     (let h = ag_History a @ [rec\<lparr>rr_Timestamp := Some (clk env (ag_tick a))\<rparr>] in drop (length h - historyBound a) h)"
proof -
  have "cutHistory (historyCap (ag_MaxHistory a)) h = drop (length h - historyBound a) h" for h :: "ResponseRecord list"
    by (simp add: cutHistory_def historyCap_def historyBound_def nat_le_iff)
  then show ?thesis by (simp add: recordResponse_def readClock_def Let_def)
qed

lemma recordResponse_history:
  "map unstamped (ag_History (recordResponse env rec a)) =
     (let h = map unstamped (ag_History a) @ [unstamped rec] in drop (length h - historyBound a) h)"
  "historyBound (recordResponse env rec a) = historyBound a"
  "ag_ResponseCount (recordResponse env rec a) = ag_ResponseCount a + 1"
proof -
  show "map unstamped (ag_History (recordResponse env rec a)) =
      (let h = map unstamped (ag_History a) @ [unstamped rec] in drop (length h - historyBound a) h)"
    unfolding recordResponse_ring by (simp add: Let_def unstamped_def flip: drop_map)
qed (simp_all add: recordResponse_def readClock_def historyBound_def historyCap_def Let_def)

lemma recordResponse_last: "last (ag_History (recordResponse env rec a)) = rec\<lparr>rr_Timestamp := Some (clk env (ag_tick a))\<rparr>"
proof -
  have "0 < historyBound a" by (simp add: historyBound_def)
  then show ?thesis unfolding recordResponse_ring Let_def by (subst last_drop) simp_all
qed

lemma recordResponse_frame:
  "ag_Suppressor (recordResponse env rec a) = ag_Suppressor a"
  "ag_deferredCh (recordResponse env rec a) = ag_deferredCh a"
  "ag_Policy (recordResponse env rec a) = ag_Policy a"
  "ag_mapFiller (recordResponse env rec a) = ag_mapFiller a"
  by (simp_all add: recordResponse_def readClock_def Let_def)

lemma drop_suffix_snoc:
  "drop (length (drop (length xs - n) xs @ [x]) - n) (drop (length xs - n) xs @ [x]) = drop (length (xs @ [x]) - n) (xs @ [x])"
proof (cases "length xs \<le> n")
  case False
  then have "Suc (length xs - Suc m) = length xs - m" if "n = Suc m" for m using that by simp
  with False show ?thesis by (cases n) simp_all
qed simp

lemma history_suffix:
  assumes "ag_History a = []"
  shows "let a' = fold (recordResponse env) recs a; rs = map unstamped recs
    in map unstamped (ag_History a') = drop (length rs - historyBound a) rs
     \<and> historyBound a' = historyBound a \<and> ag_ResponseCount a' = ag_ResponseCount a + word_of_nat (length recs)"
proof (induction recs rule: rev_induct)
  case Nil
  then show ?case using assms by simp
next
  case (snoc r recs)
  then show ?case
    using drop_suffix_snoc [of "map unstamped recs" "historyBound a" "unstamped r"]
    by (simp add: recordResponse_history Let_def)
qed

text \<open>
  Claim C24.  The history is bounded and exact.  However many responses have been recorded, the
  agent keeps the last of them up to its bound, in order and unchanged but for the time stamp;
  a query for the last \<open>limit\<close> of them returns these, and the counter has counted them all.
\<close>

theorem response_history_exact:
  assumes "ag_History a = []" "0 < limit"
  shows "let a' = fold (recordResponse env) recs a; k = min (nat limit) (historyBound a)
    in map unstamped (ResponseHistory limit a') = drop (length recs - k) (map unstamped recs)
     \<and> length (ag_History a') \<le> historyBound a \<and> ag_ResponseCount a' = ag_ResponseCount a + word_of_nat (length recs)"
proof -
  let ?a = "fold (recordResponse env) recs a"
  have h: "map unstamped (ag_History ?a) = drop (length recs - historyBound a) (map unstamped recs)"
    and c: "ag_ResponseCount ?a = ag_ResponseCount a + word_of_nat (length recs)"
    using history_suffix [OF assms(1), of env recs] by (simp_all add: Let_def)
  have "length (map unstamped (ag_History ?a)) = min (length recs) (historyBound a)" unfolding h by simp
  then have len: "length (ag_History ?a) = min (length recs) (historyBound a)" by simp
  have "map unstamped (ResponseHistory limit ?a) =
      drop (length (ag_History ?a) - min (nat limit) (length (ag_History ?a))) (map unstamped (ag_History ?a))"
    using assms(2) by (auto simp: ResponseHistory_def Let_def drop_map min_def)
  also have "\<dots> = drop (length recs - min (nat limit) (historyBound a)) (map unstamped recs)"
    unfolding h len by (simp add: min_def)
  finally show ?thesis using c len by simp
qed

section \<open>The match set\<close>

lemma allowAndRecord_frame:
  assumes "allowAndRecord env c r k a = (ok, a')"
  shows "ag_ResponseCount a' = ag_ResponseCount a" "ag_History a' = ag_History a" "ag_Policy a' = ag_Policy a"
    "ag_ResponsePath a' = ag_ResponsePath a" "ag_shut a' = ag_shut a"
  using assms by (auto simp: allowAndRecord_def recordRuleHit_def recordSuppressed_def readClock_def Let_def
      split: option.splits prod.splits if_splits)

lemma allow_nil:
  "ag_Suppressor a = None \<Longrightarrow> allowAndRecord env c r k a = (True, recordRuleHit r a)"
  "ag_Suppressor (recordRuleHit r a) = ag_Suppressor a"
  by (simp_all add: allowAndRecord_def recordRuleHit_def)

lemma auditLoop_nil:
  "ag_Suppressor a = None \<Longrightarrow> auditLoop env now cat subj obj proc rules (a, w) =
     (fold (\<lambda>r. recordRuleHit (r_ID r)) rules a, fold (\<lambda>r. writeLog env (auditEvent now cat subj obj r)) rules w)"
  by (induction rules arbitrary: a w) (simp_all add: allow_nil)

lemma hits_suppressor: "ag_Suppressor (fold (\<lambda>r. recordRuleHit (r_ID r)) rules a) = ag_Suppressor a"
  by (induction rules arbitrary: a) (simp_all add: allow_nil)

text \<open>
  Without a suppressor the match set is carried out in full: every audit rule is
  logged, in order, and then the response rule, when there is one and the subject allows a
  request, is applied, exactly once.
\<close>

theorem match_set_carried_out:
  assumes "ag_Suppressor a = None" "AggregatedDecision ms = (resp, audit)"
  shows "let w1 = fold (\<lambda>r. writeLog env (auditEvent now cat subj obj r)) audit w;
      a1 = fold (\<lambda>r. recordRuleHit (r_ID r)) audit a
    in applyMatchSet env now ms cat subj obj proc (a, w) =
      (case resp of None \<Rightarrow> (a1, w1)
       | Some rule \<Rightarrow> applyResponse env rule cat subj obj proc (recordRuleHit (r_ID rule) a1, w1))"
  using assms by (simp add: applyMatchSet_def auditLoop_nil allow_nil hits_suppressor split: option.splits)


section \<open>The blacklist in the kernel\<close>

definition plainName :: "string \<Rightarrow> bool" where
  "plainName n = (length n \<le> 255 \<and> char_of (0 :: nat) \<notin> set n)"

lemma mapKey_plain: "char_of (0 :: nat) \<notin> set n \<Longrightarrow> length n < slot \<Longrightarrow> mapKey slot n = n"
  unfolding mapKey_def by (subst takeWhile_eq_all_conv [THEN iffD2]) auto

lemma set_mapPut [simp]: "set (mapPut k ks) = insert k (set ks)"
  by (auto simp: mapPut_def)

lemma clearKeys_ok: "(\<And>k. rc k = 0) \<Longrightarrow> clearKeys rc ks = (0, [])"
  by (induction ks) simp_all

lemma fillMaps_sets:
  assumes "\<not> lb_closed l" "\<forall>b\<in>set bls. plainName (m_ProcessName b)"
  shows "set (lb_comms (fillMaps (\<lambda>_. 0) bls l)) = set (lb_comms l) \<union> {n \<in> m_ProcessName ` set bls. n \<noteq> [] \<and> length n \<le> 15}
    \<and> set (lb_filenames (fillMaps (\<lambda>_. 0) bls l)) = set (lb_filenames l) \<union> {n \<in> m_ProcessName ` set bls. length n > 15}"
  using assms
proof (induction bls arbitrary: l)
  case (Cons b bls)
  then show ?case
    by (auto simp: Let_def libBlacklistAdd_def libBlacklistFilenameAdd_def plainName_def mapKey_plain)
qed simp


section \<open>Exec events\<close>

text \<open>The list rule that \<open>handleFastPathExec\<close> acts on at once.\<close>

definition execVerdict :: "Policy \<Rightarrow> BpfEvent \<Rightarrow> Rule option" where
  "execVerdict pol ev =
     (case EvaluateProcessAccess pol (zeroSubject\<lparr>s_ProcessName := b_Comm ev, s_ProcessPath := b_Filename ev, s_User := u32 (b_UID ev)\<rparr>) of
        Some rule \<Rightarrow> if r_Decision rule = ''allow'' then None else Some rule
      | None \<Rightarrow> None)"

definition asked :: "deferredEval \<Rightarrow> 32 word \<times> 32 word \<times> 32 word \<times> string \<times> string" where
  "asked d = (de_pid d, de_ppid d, de_uid d, de_comm d, de_filename d)"

definition asks :: "BpfEvent \<Rightarrow> 32 word \<times> 32 word \<times> 32 word \<times> string \<times> string" where
  "asks ev = (b_PID ev, b_PPID ev, b_UID ev, b_Comm ev, b_Filename ev)"

lemma take_take_append: "take n (take n xs @ ys) = take n (xs @ ys)"
  by (cases "length xs \<le> n") simp_all

lemma exec_queued:
  assumes "execVerdict (ag_Policy a) ev = None" "ag_deferredCh a = Some ch" "\<not> ag_shut a" "length ch \<le> 256"
  shows "\<exists>a' ch'. handleFastPathExec env ev (a, w) = (a', w) \<and> ag_deferredCh a' = Some ch'
    \<and> map asked ch' = take 256 (map asked ch @ [asks ev]) \<and> length ch' \<le> 256
    \<and> ag_Policy a' = ag_Policy a \<and> ag_shut a' = ag_shut a \<and> ag_panicked a' = ag_panicked a"
  using assms
  by (auto simp: handleFastPathExec_def execVerdict_def CurrentPolicy_def readClock_def asked_def asks_def Let_def
      split: option.splits if_splits)

text \<open>
  Exec events that the access lists do not decide wait in order.  The fast path
  touches nothing outside, and the queue holds the first 256 of them, in the order of their
  arrival; the later ones are dropped until the evaluator has taken some.
\<close>

theorem exec_events_wait_in_order:
  assumes "\<forall>ev\<in>set evs. execVerdict (ag_Policy a) ev = None"
    and "ag_deferredCh a = Some []" "\<not> ag_shut a"
  shows "\<exists>a' ch. fold (handleFastPathExec env) evs (a, w) = (a', w) \<and> ag_deferredCh a' = Some ch
    \<and> map asked ch = take 256 (map asks evs) \<and> ag_panicked a' = ag_panicked a"
proof -
  have "\<exists>a' ch'. fold (handleFastPathExec env) evs (b, w) = (a', w) \<and> ag_deferredCh a' = Some ch'
      \<and> map asked ch' = take 256 (map asked ch @ map asks evs) \<and> ag_panicked a' = ag_panicked b"
    if "\<forall>ev\<in>set evs. execVerdict (ag_Policy b) ev = None" "ag_deferredCh b = Some ch" "\<not> ag_shut b" "length ch \<le> 256" for b ch
    using that
  proof (induction evs arbitrary: b ch)
    case (Cons ev evs)
    then obtain b' ch' where h: "handleFastPathExec env ev (b, w) = (b', w)" "ag_deferredCh b' = Some ch'"
      "map asked ch' = take 256 (map asked ch @ [asks ev])" "length ch' \<le> 256"
      "ag_Policy b' = ag_Policy b" "ag_shut b' = ag_shut b" "ag_panicked b' = ag_panicked b"
      using exec_queued [of b ev ch env w] by auto
    have "take 256 (map asked ch' @ map asks evs) = take 256 (map asked ch @ map asks (ev # evs))"
      unfolding h(3) using take_take_append [of 256 "map asked ch @ [asks ev]"] by simp
    with Cons.IH [of b' ch'] Cons.prems h show ?case by auto
  qed simp
  from this [OF assms(1,2,3)] show ?thesis by simp
qed

definition blockRequest :: "Rule \<Rightarrow> BpfEvent \<Rightarrow> ActionRequest" where
  "blockRequest rule ev = zeroRequest\<lparr>a_Action := r_Action rule, a_PID := uint (b_PID ev), a_ProcessPath := b_Filename ev, a_RuleID := r_ID rule\<rparr>"

lemma exec_blocked:
  assumes "execVerdict (ag_Policy a) ev = Some rule"
  shows "handleFastPathExec env ev (a, w) =
    (recordResponse env \<lparr>rr_Timestamp = None, rr_RuleID = r_ID rule, rr_Category = ''process'',
       rr_Subject = Some [(''pid'', VU32 (b_PID ev)), (''name'', VStr (b_Comm ev)), (''path'', VStr (b_Filename ev))],
       rr_Object = None, rr_Request = blockRequest rule ev, rr_Result = fst (applyReq env (blockRequest rule ev) w)\<rparr> a,
     snd (applyReq env (blockRequest rule ev) w))"
proof -
  have v: "(case EvaluateProcessAccess (ag_Policy a) (zeroSubject\<lparr>s_ProcessName := b_Comm ev, s_ProcessPath := b_Filename ev, s_User := u32 (b_UID ev)\<rparr>) of
      Some rule \<Rightarrow> if r_Decision rule = ''allow'' then None else Some rule | None \<Rightarrow> None) = Some rule"
    using assms by (simp add: execVerdict_def)
  show ?thesis
    unfolding handleFastPathExec_def CurrentPolicy_def Let_def prod.case v option.case
    by (simp add: blockRequest_def split_beta)
qed

text \<open>
  An exec event that a list rule blocks is answered at once and once: exactly one
  request goes out, for that process and with the rule's action, the response is counted, and
  neither the suppressor nor the queue is asked.
\<close>

theorem blocked_exec_answered_once:
  assumes "execVerdict (ag_Policy a) ev = Some rule"
  shows "let req = zeroRequest\<lparr>a_Action := r_Action rule, a_PID := uint (b_PID ev), a_ProcessPath := b_Filename ev, a_RuleID := r_ID rule\<rparr>;
      (a', w') = handleFastPathExec env ev (a, w)
    in w' = snd (applyReq env req w) \<and> ag_ResponseCount a' = ag_ResponseCount a + 1
      \<and> rr_Request (last (ag_History a')) = req \<and> rr_Result (last (ag_History a')) = fst (applyReq env req w)
      \<and> ag_Suppressor a' = ag_Suppressor a \<and> ag_deferredCh a' = ag_deferredCh a"
  unfolding exec_blocked [OF assms]
  by (simp add: blockRequest_def recordResponse_last recordResponse_frame recordResponse_history)

section \<open>A small agent\<close>

text \<open>The world of the examples: the events written and the requests made, latest first.\<close>

definition demoAgent :: "Suppressor option \<Rightarrow> Agent" where
  "demoAgent sp = \<lparr>ag_Policy = samplePolicy\<lparr>p_ProcessAccess := zeroProcessAccess\<lparr>pa_Mode := ''enforce'', pa_Action := ''kill'',
       pa_Blacklist := [zeroMatch\<lparr>m_ProcessName := ''nc''\<rparr>, zeroMatch\<lparr>m_ProcessName := ''systemd-coredumpd''\<rparr>]\<rparr>\<rparr>,
     ag_History = [], ag_MaxHistory = 2, ag_ResponsePath = [], ag_SuppressorStatePath = [], ag_StartedAt = None,
     ag_RunCount = 0, ag_EventCount = 0, ag_ResponseCount = 0, ag_SuppressedTotal = 0, ag_SuppressionReasons = Map.empty,
     ag_RuleHits = Map.empty, ag_Suppressor = sp, ag_mapFiller = Some (newLibbpf\<lparr>lb_comms := [''old'']\<rparr>),
     ag_bpfHealthFn = None, ag_responseCh = None, ag_deferredCh = Some [], ag_shut = False, ag_panicked = False, ag_tick = 0,
     ag_stateFile = None, ag_responseFile = []\<rparr>"

definition demoEnv :: "(Event list \<times> ActionRequest list) Env" where
  "demoEnv = \<lparr>clk = int, wall = (\<lambda>_. \<lparr>Hour = 0, Minute = 0\<rparr>), writeLog = (\<lambda>e (es, rs). (e # es, rs)),
     applyReq = (\<lambda>r (es, rs). (\<lparr>res_Action = a_Action r, res_Success = True, res_Detail = []\<rparr>, (es, r # rs))),
     pidfdKill = (\<lambda>_ w. (False, w)), sysKill = (\<lambda>_ w. w),
     procs = \<lparr>pf_dir = Map.empty, pf_file = Map.empty, pf_exe = Map.empty, pf_userName = Map.empty\<rparr>,
     mapsRead = Map.empty, aliveFirst = (\<lambda>_. True), aliveAgain = (\<lambda>_. True), ownPID = 77,
     supMarshal = Map.empty, supUnmarshal = Map.empty, recMarshal = Map.empty\<rparr>"

definition demoRec :: "string \<Rightarrow> ResponseRecord" where
  "demoRec i = \<lparr>rr_Timestamp = None, rr_RuleID = i, rr_Category = ''process'', rr_Subject = None, rr_Object = None,
     rr_Request = zeroRequest, rr_Result = \<lparr>res_Action = ''kill'', res_Success = True, res_Detail = []\<rparr>\<rparr>"

lemmas demoAgents = demoAgent_def demoEnv_def

theorem response_history_exact_witness:
  "let a = fold (recordResponse demoEnv) (map demoRec [''a'', ''b'', ''c'']) (demoAgent None)
   in map rr_RuleID (ResponseHistory 5 a) = [''b'', ''c''] \<and> ag_ResponseCount a = 3"
proof -
  let ?a = "fold (recordResponse demoEnv) (map demoRec [''a'', ''b'', ''c'']) (demoAgent None)"
  have "map unstamped (ResponseHistory 5 ?a) = map unstamped (map demoRec [''b'', ''c'']) \<and> ag_ResponseCount ?a = 3"
    using response_history_exact [of "demoAgent None" 5 demoEnv "map demoRec [''a'', ''b'', ''c'']"]
    by (simp add: demoAgent_def historyBound_def Let_def)
  moreover from this have "map (rr_RuleID \<circ> unstamped) (ResponseHistory 5 ?a) = map rr_RuleID (map unstamped (map demoRec [''b'', ''c'']))"
    by (metis map_map)
  ultimately show ?thesis by (simp add: unstamped_def demoRec_def comp_def)
qed

definition demoProc :: Process where
  "demoProc = \<lparr>PID = 42, Name = ''nc'', Path = ''/bin/nc'', Cmdline = [], User = [], StartTicks = ''7'', PPID = 1,
     ParentName = [], EUID = [], ContainerID = []\<rparr>"

lemma demo_decision: "AggregatedDecision [killNcRule] = (Some killNcRule, [killNcRule])"
  by simp

theorem match_set_carried_out_witness:
  "case applyMatchSet demoEnv 9 [killNcRule] ''process'' None None (Some demoProc) (demoAgent None, ([], [])) of
     (a, (es, rs)) \<Rightarrow> map e_Decision es = [''block'', ''block''] \<and> map a_Action rs = [''kill''] \<and> map a_PID rs = [42]
       \<and> ag_ResponseCount a = 1"
  using match_set_carried_out [OF _ demo_decision, of "demoAgent None" demoEnv 9 "''process''" None None "([], [])" "Some demoProc"]
  by (simp add: Let_def demoAgents applyResponse_def requestFor_def demoProc_def killNcRule_def auditEvent_def
      recordResponse_history readClock_def recordRuleHit_def split_beta)



definition demoEvent :: "string \<Rightarrow> BpfEvent" where
  "demoEvent n = zeroBpfEvent\<lparr>b_Type := EventExec, b_PID := 42, b_Comm := n, b_Filename := ''/bin/'' @ n\<rparr>"

lemma demo_verdicts:
  "execVerdict (ag_Policy (demoAgent sp)) (demoEvent ''ls'') = None"
  "\<exists>r. execVerdict (ag_Policy (demoAgent sp)) (demoEvent ''nc'') = Some r \<and> r_Action r = ''kill''"
  by (simp_all add: execVerdict_def demoEvent_def demoAgents EvaluateProcessAccess_def Let_def
      actionFor_def decisionFor_def matches_def sample_defs gostr)

theorem exec_events_wait_in_order_witness:
  "\<exists>a ch. fold (handleFastPathExec demoEnv) [demoEvent ''ls'', demoEvent ''ls''] (demoAgent None, ([], [])) = (a, ([], []))
     \<and> ag_deferredCh a = Some ch \<and> map de_comm ch = [''ls'', ''ls'']"
proof -
  have "\<exists>a ch. fold (handleFastPathExec demoEnv) [demoEvent ''ls'', demoEvent ''ls''] (demoAgent None, ([], [])) = (a, ([], []))
     \<and> ag_deferredCh a = Some ch \<and> map asked ch = take 256 (map asks [demoEvent ''ls'', demoEvent ''ls''])
     \<and> ag_panicked a = ag_panicked (demoAgent None)"
    by (rule exec_events_wait_in_order) (simp_all add: demo_verdicts, simp_all add: demoAgents)
  then show ?thesis by (force simp: asks_def asked_def demoEvent_def)
qed

theorem blocked_exec_answered_once_witness:
  "case handleFastPathExec demoEnv (demoEvent ''nc'') (demoAgent None, ([], [])) of
     (a, (es, rs)) \<Rightarrow> es = [] \<and> map a_Action rs = [''kill''] \<and> map a_PID rs = [42] \<and> ag_ResponseCount a = 1"
proof -
  obtain r where r: "execVerdict (ag_Policy (demoAgent None)) (demoEvent ''nc'') = Some r" "r_Action r = ''kill''"
    using demo_verdicts(2) by blast
  from blocked_exec_answered_once [OF r(1), of demoEnv "([], [])"] r(2) show ?thesis
    by (simp add: Let_def demoAgents demoEvent_def split_beta)
qed

end
