(* ===== verification/EventLog.thy ===== *)
theory EventLog
  imports EventChain
begin

text \<open>
  The event logger, \<open>src/internal/eventlog/event.go\<close>: defaults, sealing, rotation and the
  append to the log file, with the syslog copies.  What the operating system answers
  during one call is a record of type \<open>WriteEnv\<close>; the files are those of \<open>Filesys\<close>.
\<close>

section \<open>State and operations\<close>

definition SchemaVersion :: string where "SchemaVersion = ''v0.15''"

record RemoteSyslogConfig =
  rs_Enabled :: bool
  rs_Host :: string
  rs_Port :: int
  rs_Protocol :: string
  rs_Facility :: int
  rs_AppName :: string

definition zeroRemote :: RemoteSyslogConfig where
  "zeroRemote = \<lparr>rs_Enabled = False, rs_Host = [], rs_Port = 0, rs_Protocol = [], rs_Facility = 0, rs_AppName = []\<rparr>"

record Options =
  op_EnableSyslog :: bool
  op_MaxBytes :: int
  op_MaxBackups :: int
  op_Integrity :: IntegrityOptions
  op_RemoteSyslog :: RemoteSyslogConfig

record Logger =
  l_path :: string
  l_host :: string
  l_syslog :: bool  \<comment> \<open>connected to the local syslog\<close>
  l_maxBytes :: int
  l_maxBackups :: int
  l_chain :: chainWriter
  l_remote :: bool  \<comment> \<open>connected to the remote syslog\<close>
  l_remoteCfg :: RemoteSyslogConfig

datatype sent = ToSyslog string | ToRemote string

text \<open>The environment of \<open>NewWithOptions\<close>: which calls succeed.\<close>

record OpenEnv =
  oe_mkdirOK :: bool
  oe_hostname :: string  \<comment> \<open>empty when unknown\<close>
  oe_syslogOK :: bool
  oe_dialOK :: "string \<Rightarrow> string \<Rightarrow> bool"  \<comment> \<open>protocol and address\<close>
  oe_stateReadFault :: bool
  oe_dirFault :: bool

definition NewWithOptions :: "Lib \<Rightarrow> OpenEnv \<Rightarrow> filesys \<Rightarrow> string \<Rightarrow> Options \<Rightarrow> chain_error + Logger \<times> report list" where
  "NewWithOptions lib env fs path opts =
     (if \<not> oe_mkdirOK env then Inl (IOError ''mkdir'')
      else
        (let (cw, reports) = newChainWriter lib (oe_stateReadFault env) (oe_dirFault env) fs path (op_Integrity opts);
             cfg = op_RemoteSyslog opts;
             proto = (if rs_Protocol cfg \<noteq> ''tcp'' then ''udp'' else rs_Protocol cfg);
             port = (if rs_Port cfg \<le> 0 then 514 else rs_Port cfg);
             dialled = (rs_Enabled cfg \<and> rs_Host cfg \<noteq> [] \<and> oe_dialOK env proto (rs_Host cfg @ '':'' @ itoa port))
         in Inr (\<lparr>l_path = path, l_host = oe_hostname env,
                  l_syslog = (op_EnableSyslog opts \<and> oe_syslogOK env),
                  l_maxBytes = op_MaxBytes opts, l_maxBackups = op_MaxBackups opts, l_chain = cw,
                  l_remote = dialled, l_remoteCfg = (if dialled then cfg else zeroRemote)\<rparr>, reports)))"

definition New :: "Lib \<Rightarrow> OpenEnv \<Rightarrow> filesys \<Rightarrow> string \<Rightarrow> bool \<Rightarrow> chain_error + Logger \<times> report list" where
  "New lib env fs path enableSyslog =
     NewWithOptions lib env fs path
       \<lparr>op_EnableSyslog = enableSyslog, op_MaxBytes = 0, op_MaxBackups = 0,
        op_Integrity = \<lparr>io_EnableChain = False, io_Algorithm = [], io_Key = [], io_StatePath = []\<rparr>,
        op_RemoteSyslog = zeroRemote\<rparr>"

text \<open>The environment of one \<open>Write\<close>.\<close>

record WriteEnv =
  w_now :: gotime
  w_hostname :: "string option"
  w_rnd :: "string option"
  w_save :: save_fault
  w_statFault :: bool
  w_removeFails :: bool
  w_shiftFails :: "nat \<Rightarrow> bool"
  w_renameFails :: bool
  w_openFails :: bool
  w_writeFault :: "nat option"  \<comment> \<open>the bytes written before the failure\<close>

definition backupName :: "string \<Rightarrow> nat \<Rightarrow> string" where
  "backupName path i = path @ ''.'' @ natStr i"

text \<open>The loop over \<open>i\<close> from \<open>n\<close> down to 1 that renames backup \<open>i\<close> to \<open>i + 1\<close>.\<close>

fun shiftBackups :: "string \<Rightarrow> (nat \<Rightarrow> bool) \<Rightarrow> nat \<Rightarrow> filesys \<Rightarrow> filesys" where
  "shiftBackups path fails 0 fs = fs"
| "shiftBackups path fails (Suc i) fs =
     shiftBackups path fails i
       (if fails (Suc i) then fs
        else (case fsRename fs (backupName path (Suc i)) (backupName path (Suc (Suc i))) of
                Some fs' \<Rightarrow> fs'
              | None \<Rightarrow> fs))"

definition rotateIfNeeded :: "WriteEnv \<Rightarrow> Logger \<Rightarrow> filesys \<Rightarrow> nat \<Rightarrow> chain_error option \<times> Logger \<times> filesys" where
  "rotateIfNeeded env l fs incoming =
     (if l_maxBytes l \<le> 0 then (None, l, fs)
      else if w_statFault env then (Some (IOError ''stat''), l, fs)
      else (case fsGet fs (l_path l) of
              None \<Rightarrow> (None, l, fs)
            | Some content \<Rightarrow>
                if int (length content) + int incoming \<le> l_maxBytes l then (None, l, fs)
                else
                  (let l = (if l_maxBackups l \<le> 0 then l\<lparr>l_maxBackups := 1\<rparr> else l);
                       b = nat (l_maxBackups l);
                       fs = (if w_removeFails env then fs else fsDel fs (backupName (l_path l) b));
                       fs = shiftBackups (l_path l) (w_shiftFails env) (b - 1) fs
                   in if w_renameFails env then (Some (IOError ''rename''), l, fs)
                      else (case fsRename fs (l_path l) (backupName (l_path l) 1) of
                              Some fs' \<Rightarrow> (None, l, fs')
                            | None \<Rightarrow> (None, l, fs)))))"

definition stripHash :: "Event \<Rightarrow> Event" where
  "stripHash e = e\<lparr>e_HMAC := [], e_Hash := []\<rparr>"

definition remoteLine :: "Lib \<Rightarrow> WriteEnv \<Rightarrow> Logger \<Rightarrow> string \<Rightarrow> string" where
  "remoteLine lib env l msg =
     (let severity = 6;
          facility = push_bit 3 (rs_Facility (l_remoteCfg l));
          facility = (if facility = 0 then push_bit 3 3 else facility);
          priority = or facility severity;
          appName = (if rs_AppName (l_remoteCfg l) = [] then ''edr-agent'' else rs_AppName (l_remoteCfg l));
          hostname = (if l_host l = [] then ''-'' else l_host l)
      in ''<'' @ itoa priority @ ''>1 '' @ rfc3339 lib (w_now env) @ '' '' @ hostname @ '' '' @ appName
         @ '' - - - '' @ msg @ [nl])"

definition fillDefaults :: "WriteEnv \<Rightarrow> Logger \<Rightarrow> Event \<Rightarrow> Event" where
  "fillDefaults env l e =
     (let e = (if e_SchemaVersion e = [] then e\<lparr>e_SchemaVersion := SchemaVersion\<rparr> else e);
          e = (if e_Timestamp e = None then e\<lparr>e_Timestamp := Some (w_now env)\<rparr> else e)
      in if e_Host e = []
         then (if l_host l \<noteq> [] then e\<lparr>e_Host := l_host l\<rparr>
               else (case w_hostname env of Some h \<Rightarrow> e\<lparr>e_Host := h\<rparr> | None \<Rightarrow> e))
         else e)"

definition copies :: "Lib \<Rightarrow> WriteEnv \<Rightarrow> Logger \<Rightarrow> Event \<Rightarrow> sent list" where
  "copies lib env l e =
     (case marshalEvent lib (stripHash e) of
        None \<Rightarrow> []
      | Some plain \<Rightarrow> (if l_syslog l then [ToSyslog plain] else [])
                    @ (if l_remote l then [ToRemote (remoteLine lib env l plain)] else []))"

definition appendLine :: "Lib \<Rightarrow> WriteEnv \<Rightarrow> Logger \<Rightarrow> filesys \<Rightarrow> string \<Rightarrow> Event
    \<Rightarrow> chain_error option \<times> Logger \<times> filesys \<times> sent list" where
  "appendLine lib env l fs raw e =
     (case rotateIfNeeded env l fs (length raw) of
        (Some err, l', fs') \<Rightarrow> (Some err, l', fs', [])
      | (None, l', fs') \<Rightarrow>
          if w_openFails env then (Some (IOError ''open''), l', fs', [])
          else (case w_writeFault env of
                  Some n \<Rightarrow> (Some (IOError ''write''), l', fsAppend fs' (l_path l') (take n raw), [])
                | None \<Rightarrow> (None, l', fsAppend fs' (l_path l') raw, copies lib env l' e)))"

definition Write :: "Lib \<Rightarrow> WriteEnv \<Rightarrow> Logger \<Rightarrow> filesys \<Rightarrow> Event
    \<Rightarrow> chain_error option \<times> Logger \<times> filesys \<times> sent list" where
  "Write lib env l fs e0 =
     (let e = fillDefaults env l e0 in
      if cw_enabled (l_chain l)
      then (case Seal lib (w_rnd env) (w_save env) fs (l_chain l) e of
              (Inl err, cw, fs', _) \<Rightarrow> (Some err, l\<lparr>l_chain := cw\<rparr>, fs', [])
            | (Inr (raw, e'), cw, fs', _) \<Rightarrow> appendLine lib env (l\<lparr>l_chain := cw\<rparr>) fs' raw e')
      else (case marshalEvent lib e of
              None \<Rightarrow> (Some MarshalError, l, fs, [])
            | Some out \<Rightarrow> appendLine lib env l fs (out @ [nl]) e))"

definition ChainSnapshot :: "Logger option \<Rightarrow> ChainState" where
  "ChainSnapshot lp = (case lp of None \<Rightarrow> zeroChainState | Some l \<Rightarrow> cw_state (l_chain l))"

definition Path :: "Logger option \<Rightarrow> string" where
  "Path lp = (case lp of None \<Rightarrow> [] | Some l \<Rightarrow> l_path l)"

definition CloseLogger :: "bool \<Rightarrow> Logger \<Rightarrow> chain_error option \<times> Logger" where
  "CloseLogger syslogCloseOK l =
     (if l_syslog l then ((if syslogCloseOK then None else Some (IOError ''syslog'')), l\<lparr>l_remote := False, l_syslog := False\<rparr>)
      else (None, l\<lparr>l_remote := False\<rparr>))"

section \<open>Layout of the log on disk\<close>

text \<open>
  The lines of the log are spread over the backups, \<open>gs\<close> from the oldest, and the current
  file, \<open>cur\<close>.
\<close>

definition layout :: "string \<Rightarrow> filesys \<Rightarrow> string list list \<Rightarrow> string list \<Rightarrow> bool" where
  "layout path fs gs cur \<longleftrightarrow>
     (\<forall>k \<ge> 1. fsGet fs (backupName path k) = (if k \<le> length gs then Some (unlines (gs ! (length gs - k))) else None))
     \<and> fsGet fs path = (if cur = [] then None else Some (unlines cur))"

definition noStray :: "string \<Rightarrow> filesys \<Rightarrow> bool" where
  "noStray path fs \<longleftrightarrow>
     (\<forall>q. fsGet fs q \<noteq> None \<and> hasPrefix q (path @ ''.'') \<longrightarrow>
        (\<exists>k \<ge> 1. q = backupName path k) \<or> q = path @ ''.state'' \<or> q = path @ ''.state.tmp'')"

definition tidyPath :: "string \<Rightarrow> bool" where
  "tidyPath path \<longleftrightarrow> (case lastIndexC (CHR ''/'') path of None \<Rightarrow> False | Some i \<Rightarrow> 0 < i \<and> take i path \<noteq> ''.'')"

lemma backupName_inj [simp]: "backupName path i = backupName path j \<longleftrightarrow> i = j"
  by (simp add: backupName_def)

lemma backupName_distinct [simp]:
  "backupName path i \<noteq> path" "path \<noteq> backupName path i"
  "backupName path i \<noteq> path @ ''.state''" "backupName path i \<noteq> path @ ''.state.tmp''"
  "path @ ''.state'' \<noteq> backupName path i" "path @ ''.state.tmp'' \<noteq> backupName path i"
proof -
  have "natStr i \<noteq> CHR ''s'' # cs" for cs
    using natStr_hd_digit [of i] by (auto simp: isDigitC_def)
  then show "backupName path i \<noteq> path @ ''.state''" "backupName path i \<noteq> path @ ''.state.tmp''"
    "path @ ''.state'' \<noteq> backupName path i" "path @ ''.state.tmp'' \<noteq> backupName path i"
    by (auto simp: backupName_def) metis+
qed (simp_all add: backupName_def)

lemma shift_one:
  assumes "fsGet fs b = None"
  shows "fsGet (case fsRename fs a b of Some fs' \<Rightarrow> fs' | None \<Rightarrow> fs) q
    = (if q = b then fsGet fs a else if q = a then None else fsGet fs q)"
proof (cases "fsRename fs a b")
  case None
  then have "fsGet fs a = None" by simp
  with assms show ?thesis unfolding None by auto
next
  case (Some fs')
  with fsRename_get [OF this] show ?thesis by simp
qed

lemma shiftBackups_get:
  assumes "fsGet fs (backupName path (Suc n)) = None"
  shows "(\<forall>k. 1 \<le> k \<and> k \<le> n \<longrightarrow> fsGet (shiftBackups path (\<lambda>_. False) n fs) (backupName path (Suc k)) = fsGet fs (backupName path k))
    \<and> fsGet (shiftBackups path (\<lambda>_. False) n fs) (backupName path 1) = None
    \<and> (\<forall>q. (\<forall>k. 1 \<le> k \<and> k \<le> Suc n \<longrightarrow> q \<noteq> backupName path k) \<longrightarrow> fsGet (shiftBackups path (\<lambda>_. False) n fs) q = fsGet fs q)"
  using assms
proof (induction n arbitrary: fs)
  case 0
  then show ?case by auto
next
  case (Suc n)
  let ?fs' = "case fsRename fs (backupName path (Suc n)) (backupName path (Suc (Suc n))) of Some fs' \<Rightarrow> fs' | None \<Rightarrow> fs"
  have get: "fsGet ?fs' q = (if q = backupName path (Suc (Suc n)) then fsGet fs (backupName path (Suc n))
      else if q = backupName path (Suc n) then None else fsGet fs q)" for q
    by (rule shift_one [OF Suc.prems])
  have eq: "shiftBackups path (\<lambda>_. False) (Suc n) fs = shiftBackups path (\<lambda>_. False) n ?fs'" by simp
  have "fsGet ?fs' (backupName path (Suc n)) = None" by (subst get) simp
  note IH = Suc.IH [OF this, folded eq]
  have "fsGet (shiftBackups path (\<lambda>_. False) (Suc n) fs) (backupName path (Suc (Suc n))) = fsGet fs (backupName path (Suc n))"
    using IH get [of "backupName path (Suc (Suc n))"] by simp
  moreover have "fsGet ?fs' (backupName path k) = fsGet fs (backupName path k)" if "k \<le> n" for k
    using get [of "backupName path k"] that by simp
  moreover have "fsGet (shiftBackups path (\<lambda>_. False) (Suc n) fs) q = fsGet fs q"
    if q: "\<forall>k. 1 \<le> k \<and> k \<le> Suc (Suc n) \<longrightarrow> q \<noteq> backupName path k" for q
  proof -
    have "fsGet ?fs' q = fsGet fs q" using get [of q] q by simp
    moreover have "\<forall>k. 1 \<le> k \<and> k \<le> Suc n \<longrightarrow> q \<noteq> backupName path k" using q by simp
    ultimately show ?thesis using IH by metis
  qed
  ultimately show ?case using IH by (simp add: le_Suc_eq del: shiftBackups.simps) metis
qed

lemma layout_append:
  assumes "layout path fs gs cur"
  shows "layout path (fsAppend fs path (out @ [nl])) gs (cur @ [out])"
  using assms by (auto simp: layout_def)

lemma layout_frame:
  assumes "layout path fs gs cur" "\<And>q. q \<noteq> path @ ''.state'' \<Longrightarrow> q \<noteq> path @ ''.state.tmp'' \<Longrightarrow> fsGet fs' q = fsGet fs q"
  shows "layout path fs' gs cur"
  using assms by (simp add: layout_def)

definition rotateGroups :: "int \<Rightarrow> string list list \<Rightarrow> string list \<Rightarrow> string list list" where
  "rotateGroups maxBackups gs cur = (if length gs = nat maxBackups then tl gs else gs) @ [cur]"

text \<open>An environment in which no call of the operating system fails.\<close>

definition faultless :: "WriteEnv \<Rightarrow> bool" where
  "faultless env \<longleftrightarrow> w_save env = SaveOK \<and> \<not> w_statFault env \<and> \<not> w_removeFails env \<and> w_shiftFails env = (\<lambda>_. False)
     \<and> \<not> w_renameFails env \<and> \<not> w_openFails env \<and> w_writeFault env = None"

definition backupsOf :: "Logger \<Rightarrow> int" where
  "backupsOf l = (if l_maxBackups l \<le> 0 then 1 else l_maxBackups l)"

lemma layout_rotate:
  assumes L: "layout path fs gs cur" and cur: "cur \<noteq> []" and b: "1 \<le> b" "length gs \<le> b"
    and fs1: "fs1 = shiftBackups path (\<lambda>_. False) (b - 1) (fsDel fs (backupName path b))"
    and fs2: "fsRename fs1 path (backupName path 1) = Some fs2"
  shows "layout path fs2 (rotateGroups (int b) gs cur) []"
proof -
  obtain n where n: "b = Suc n" using b by (cases b) auto
  have e: "fsGet (fsDel fs (backupName path b)) (backupName path (Suc n)) = None"
    by (simp add: n fsGet_del)
  note sh = shiftBackups_get [OF e]
  have fs1_get: "1 \<le> k \<Longrightarrow> k \<le> n \<Longrightarrow> fsGet fs1 (backupName path (Suc k)) = fsGet fs (backupName path k)"
      "Suc n < k \<Longrightarrow> fsGet fs1 (backupName path k) = fsGet fs (backupName path k)"
      "fsGet fs1 path = fsGet fs path" for k
    using sh by (auto simp: fs1 n fsGet_del)
  let ?gs = "rotateGroups (int b) gs cur"
  have len: "length ?gs = (if length gs = b then b else Suc (length gs))"
    using b by (auto simp: rotateGroups_def)
  have "fsGet fs2 (backupName path k) = (if k \<le> length ?gs then Some (unlines (?gs ! (length ?gs - k))) else None)"
    if k: "1 \<le> k" for k
  proof (cases "k = 1")
    case True
    with L cur fsRename_get [OF fs2] fs1_get(3) len b show ?thesis
      by (auto simp: layout_def rotateGroups_def nth_append)
  next
    case False
    then obtain j where j: "k = Suc j" "1 \<le> j" using k False by (cases k) auto
    have "fsGet fs2 (backupName path k) = fsGet fs1 (backupName path k)"
      using fsRename_get [OF fs2] False by simp
    also have "\<dots> = (if j \<le> n then fsGet fs (backupName path j) else None)"
      using fs1_get(1) [of j] fs1_get(2) [of k] L j b n by (auto simp: layout_def)
    also have "\<dots> = (if k \<le> length ?gs then Some (unlines (?gs ! (length ?gs - k))) else None)"
      using L j b n len by (auto simp: layout_def rotateGroups_def nth_append nth_tl Suc_diff_le)
    finally show ?thesis .
  qed
  moreover have "fsGet fs2 path = None" using fsRename_get [OF fs2] by simp
  ultimately show ?thesis by (simp add: layout_def)
qed


lemma noStray_grow:
  assumes "noStray path fs"
    and "\<And>q. fsGet fs' q \<noteq> None \<Longrightarrow> fsGet fs q \<noteq> None \<or> q = path \<or> (\<exists>k \<ge> 1. q = backupName path k)
       \<or> q = path @ ''.state'' \<or> q = path @ ''.state.tmp''"
  shows "noStray path fs'"
  using assms unfolding noStray_def hasPrefix_def by fastforce

lemma nameIn_inv:
  assumes "nameIn dir p = Some name" "dir \<noteq> []" "dir \<noteq> ''.''"
  shows "p = dir @ ''/'' @ name" "CHR ''/'' \<notin> set name"
  using assms by (auto simp: nameIn_def hasPrefix_def prefix_def split: if_splits)

lemma rotationNumber_inv:
  assumes "rotationNumber base name = Some n"
  shows "\<exists>suf. name = base @ ''.'' @ suf \<and> atoi suf = Some n"
  using assms by (auto simp: rotationNumber_def hasPrefix_def prefix_def split: if_splits option.splits)

lemma atoi_state: "atoi ''state'' = None" "atoi ''state.tmp'' = None"
  by (simp_all add: atoi_def parseNat_def isDigitC_def)

lemma rotatedFiles_layout:
  assumes L: "layout path fs gs cur" and ns: "noStray path fs" and tidy: "tidyPath path" and few: "length gs < 2 ^ 63"
  shows "rotatedFiles fs path = map (backupName path) (rev [1..<Suc (length gs)]) @ (if cur = [] then [] else [path])"
proof -
  obtain i where i: "lastIndexC (CHR ''/'') path = Some i" "0 < i" "take i path \<noteq> ''.''"
    using tidy by (auto simp: tidyPath_def split: option.splits)
  define dir where "dir = take i path"
  define base where "base = drop (Suc i) path"
  have path: "path = dir @ ''/'' @ base" and nos: "CHR ''/'' \<notin> set base" and len: "length dir = i"
    using lastIndexC_Some [OF i(1)] by (auto simp: dir_def base_def)
  have d: "dir \<noteq> []" "dir \<noteq> ''.''" using i len by (auto simp: dir_def)
  let ?nums = "List.map_filter (rotationNumber base) (readDir fs dir)"
  have key: "\<exists>k. 1 \<le> k \<and> k \<le> length gs \<and> n = int k \<and> name = base @ ''.'' @ natStr k"
    if nm: "name \<in> set (readDir fs dir)" and rn: "rotationNumber base name = Some n" for name n
  proof -
    from nm obtain p where p: "fsGet fs p \<noteq> None" "nameIn dir p = Some name"
      by (auto simp: set_readDir)
    obtain suf where suf: "name = base @ ''.'' @ suf" "atoi suf = Some n"
      using rotationNumber_inv [OF rn] by auto
    have pp: "p = path @ ''.'' @ suf" using nameIn_inv [OF p(2) d] suf path by simp
    with p(1) ns have "(\<exists>k \<ge> 1. p = backupName path k) \<or> p = path @ ''.state'' \<or> p = path @ ''.state.tmp''"
      unfolding noStray_def hasPrefix_def prefix_def by fastforce
    then obtain k where k: "k \<ge> 1" "p = backupName path k"
      using pp suf(2) atoi_state by auto
    then have "k \<le> length gs" using L p(1) by (auto simp: layout_def split: if_splits)
    moreover have "suf = natStr k" using pp k(2) by (simp add: backupName_def)
    ultimately show ?thesis using k(1) suf few atoi_natStr [of k] by auto
  qed
  have mem: "int k \<in> set ?nums" if "1 \<le> k" "k \<le> length gs" for k
  proof -
    have "fsGet fs (backupName path k) \<noteq> None" using L that by (simp add: layout_def)
    moreover have "CHR ''/'' \<notin> set (base @ ''.'' @ natStr k)"
      using nos natStr_no [of "CHR ''/''" k] by (simp add: isDigitC_def)
    then have "nameIn dir (backupName path k) = Some (base @ ''.'' @ natStr k)"
      using nameIn_Some [OF d] by (simp add: backupName_def path)
    moreover have "rotationNumber base (base @ ''.'' @ natStr k) = Some (int k)"
      using that few atoi_natStr [of k] by (simp add: rotationNumber_def hasPrefix_def prefix_def)
    ultimately show ?thesis by (force simp: set_map_filter set_readDir)
  qed
  have "sort ?nums = map int [1..<Suc (length gs)]"
  proof (rule sorted_list_of_interval)
    show "distinct ?nums" using key by (intro distinct_map_filter) (auto, metis of_nat_eq_iff)
    show "set ?nums = int ` {1..length gs}"
    proof (intro equalityI subsetI)
      fix v assume "v \<in> set ?nums"
      then obtain name where "name \<in> set (readDir fs dir)" "rotationNumber base name = Some v"
        by (auto simp: set_map_filter)
      from key [OF this] show "v \<in> int ` {1..length gs}" by auto
    next
      fix v assume "v \<in> int ` {1..length gs}"
      then show "v \<in> set ?nums" using mem by auto
    qed
  qed
  moreover have "parentDir path = dir" "drop (length dir + 1) path = base"
    using i(1) len by (simp_all add: parentDir_def dir_def base_def)
  moreover have "path @ ''.'' @ itoa (int k) = backupName path k" for k by (simp add: itoa_def backupName_def)
  moreover have "fsGet fs path = None \<longleftrightarrow> cur = []" using L by (simp add: layout_def)
  ultimately show ?thesis using d by (simp add: rotatedFiles_def Let_def rev_map comp_def del: upt_Suc)
qed


section \<open>What the logger needs of the library\<close>

definition plainS :: "string \<Rightarrow> bool" where
  "plainS s \<longleftrightarrow> list_all (\<lambda>c. 33 \<le> (of_char c :: nat) \<and> (of_char c :: nat) < 127) s"

text \<open>
  JSON represents the event faithfully: whatever plain values its chain fields have, it is
  encoded, decoded with the same chain fields, and the decoded event is encoded to the
  same bytes again.  (An event with text that is not UTF-8 or with an integer above
  \<open>2^53\<close> does not have this property: decoding replaces or rounds the value.)
\<close>

definition jsonStable :: "Lib \<Rightarrow> Event \<Rightarrow> bool" where
  "jsonStable lib e \<longleftrightarrow>
     (\<forall>cid q prev h m. plainS cid \<and> plainS prev \<and> plainS h \<and> plainS m \<longrightarrow>
       (let e2 = e\<lparr>e_IntegrityVersion := IntegrityVersion, e_ChainID := cid, e_Seq := q, e_PrevHash := prev, e_Hash := h, e_HMAC := m\<rparr>
        in \<exists>out e'. marshalEvent lib e2 = Some out \<and> unmarshalEvent lib out = Inr e'
             \<and> e_IntegrityVersion e' = IntegrityVersion \<and> e_ChainID e' = cid \<and> e_Seq e' = q \<and> e_PrevHash e' = prev
             \<and> e_Hash e' = h \<and> e_HMAC e' = m \<and> chainEventBytes lib e' = chainEventBytes lib e2))"

text \<open>Digests and HMACs are hexadecimal, an encoded event is a one-line object, and a decoder
  returns the objects of a file of such lines.\<close>

definition goodLib :: "Lib \<Rightarrow> bool" where
  "goodLib lib \<longleftrightarrow> hexDigests lib \<and> objectTexts lib \<and> (\<forall>k m. list_all isHexC (hmacHex lib k m))
     \<and> (\<forall>ls. (\<forall>l \<in> set ls. \<exists>e. marshalEvent lib e = Some l) \<longrightarrow> decodeStream lib (unlines ls) = (ls, None))"

lemma hex_plain: "list_all isHexC s \<Longrightarrow> plainS s"
proof -
  have "list_all (\<lambda>c. 33 \<le> (of_char c :: nat) \<and> (of_char c :: nat) < 127) ''0123456789abcdef''" by simp
  then show "list_all isHexC s \<Longrightarrow> plainS s"
    unfolding plainS_def isHexC_def list_all_iff by blast
qed

lemma plainS_simps [simp]: "plainS []" "plainS (a @ b) \<longleftrightarrow> plainS a \<and> plainS b"
  by (auto simp: plainS_def)

lemma newChainID_plain: "(\<And>h. rnd = Some h \<Longrightarrow> plainS h) \<Longrightarrow> plainS (newChainID rnd)"
  by (auto simp: newChainID_def split: option.splits) (simp_all add: plainS_def)

section \<open>Sealing one event\<close>

lemma sealChain_step:
  assumes lib: "goodLib lib" and algo: "newHasher algo" and st: "jsonStable lib e"
    and pl: "plainS (cs_ChainID s)" "plainS (cs_LastHash s)" "\<And>h. rnd = Some h \<Longrightarrow> plainS h"
    "plainS (e_HMAC e)"
  shows "\<exists>out s' e2 e'. sealChain lib rnd s e key algo = Inr (out @ [nl], s', e2)
     \<and> marshalEvent lib e2 = Some out \<and> unmarshalEvent lib out = Inr e'
     \<and> e_IntegrityVersion e' = IntegrityVersion \<and> goodLink lib key (cs_LastHash s) e'
     \<and> e_Hash e' = cs_LastHash s' \<and> e_Seq e' = cs_LastSeq s' \<and> e_ChainID e' = cs_ChainID s'
     \<and> (key \<noteq> [] \<longrightarrow> e_HMAC e' = cs_LastHMAC s')
     \<and> cs_LastSeq s' = cs_LastSeq s + 1 \<and> plainS (cs_ChainID s') \<and> plainS (cs_LastHash s')
     \<and> cs_ChainID s' \<noteq> [] \<and> (\<exists>p. cs_LastHash s' = sha256hex lib (cs_LastHash s @ p))"
proof -
  define cid where "cid = (if cs_ChainID s = [] then newChainID rnd else cs_ChainID s)"
  have cid: "plainS cid" "cid \<noteq> []"
    using pl newChainID_plain by (auto simp: cid_def newChainID_def split: option.splits)
  define ev where "ev h m = e\<lparr>e_IntegrityVersion := IntegrityVersion, e_ChainID := cid, e_Seq := cs_LastSeq s + 1,
      e_PrevHash := cs_LastHash s, e_Hash := h, e_HMAC := m\<rparr>" for h m
  have strip: "chainEventBytes lib (ev h m) = marshalEvent lib (ev [] [])" for h m
    by (simp add: chainEventBytes_def stripIntegrity_def ev_def)
  have stab: "\<exists>out e'. marshalEvent lib (ev h m) = Some out \<and> unmarshalEvent lib out = Inr e'
       \<and> e_IntegrityVersion e' = IntegrityVersion \<and> e_ChainID e' = cid \<and> e_Seq e' = cs_LastSeq s + 1
       \<and> e_PrevHash e' = cs_LastHash s \<and> e_Hash e' = h \<and> e_HMAC e' = m
       \<and> chainEventBytes lib e' = marshalEvent lib (ev [] [])" if "plainS h" "plainS m" for h m
    using st [unfolded jsonStable_def Let_def, rule_format, of cid "cs_LastHash s" h m "cs_LastSeq s + 1"]
      that cid pl strip [of h m] by (simp add: ev_def)
  obtain payload where payload: "marshalEvent lib (ev [] []) = Some payload" using stab [of "[]" "[]"] by auto
  define digest where "digest = sha256hex lib (cs_LastHash s @ payload)"
  have dig: "plainS digest" using lib by (auto simp: digest_def goodLib_def hexDigests_def intro: hex_plain)
  define mac where "mac = (if key \<noteq> [] then hmacHex lib key digest else e_HMAC e)"
  have mac: "plainS mac" using lib pl(4) by (auto simp: mac_def goodLib_def intro: hex_plain)
  from stab [OF dig mac] obtain out e' where out: "marshalEvent lib (ev digest mac) = Some out" "unmarshalEvent lib out = Inr e'"
      "e_IntegrityVersion e' = IntegrityVersion" "e_ChainID e' = cid" "e_Seq e' = cs_LastSeq s + 1"
      "e_PrevHash e' = cs_LastHash s" "e_Hash e' = digest" "e_HMAC e' = mac" "chainEventBytes lib e' = Some payload"
    using payload by auto
  define s' where "s' = s\<lparr>cs_ChainID := cid, cs_Algorithm := (if cs_Algorithm s = [] then algo else cs_Algorithm s),
      cs_LastSeq := cs_LastSeq s + 1, cs_LastHMAC := (if key \<noteq> [] then mac else cs_LastHMAC s),
      cs_HasHMACKey := (cs_HasHMACKey s \<or> key \<noteq> []), cs_LastHash := digest\<rparr>"
  have "sealChain lib rnd s e key algo = Inr (out @ [nl], s', ev digest mac)"
    using algo payload out(1)
    by (cases "cs_ChainID s = []"; cases "cs_Algorithm s = []"; cases "key = []")
      (simp_all add: sealChain_def Let_def chainEventBytes_def stripIntegrity_def ev_def cid_def digest_def s'_def mac_def)
  moreover have "goodLink lib key (cs_LastHash s) e'"
    using out by (simp add: goodLink_def recomputeHash_def digest_def mac_def)
  ultimately show ?thesis
    using out dig cid by (auto simp: s'_def digest_def mac_def)
qed


section \<open>The invariant of a log\<close>

text \<open>
  \<open>ls\<close> are all the lines written so far, of which the first \<open>d\<close> have been rotated away;
  \<open>es\<close> are the events they decode to.
\<close>

definition diskInv :: "Lib \<Rightarrow> string \<Rightarrow> string \<Rightarrow> Logger \<Rightarrow> filesys \<Rightarrow> string list \<Rightarrow> Event list
    \<Rightarrow> nat \<Rightarrow> string list list \<Rightarrow> string list \<Rightarrow> bool" where
  "diskInv lib path key l fs ls es d gs cur \<longleftrightarrow>
     l_path l = path \<and> cw_enabled (l_chain l) \<and> cw_key (l_chain l) = key \<and> newHasher (cw_algo (l_chain l))
     \<and> cw_statePth (l_chain l) = path @ ''.state'' \<and> plainS (cs_ChainID (cw_state (l_chain l)))
     \<and> plainS (cs_LastHash (cw_state (l_chain l)))
     \<and> layout path fs gs cur \<and> noStray path fs \<and> int (length gs) \<le> backupsOf l
     \<and> d \<le> length ls \<and> concat gs @ cur = drop d ls
     \<and> (\<forall>x \<in> set ls. \<exists>e. marshalEvent lib e = Some x)
     \<and> map (unmarshalEvent lib) ls = map Inr es \<and> (\<forall>e \<in> set es. e_IntegrityVersion e = IntegrityVersion)"

text \<open>The state of the writer is the head of the chain of all events written.\<close>

definition headInv :: "Lib \<Rightarrow> string \<Rightarrow> ChainState \<Rightarrow> Event list \<Rightarrow> bool" where
  "headInv lib key s es \<longleftrightarrow> chained lib key [] es \<and> headHash [] es = cs_LastHash s
     \<and> headSeq 0 es = cs_LastSeq s \<and> cs_LastSeq s = word_of_nat (length es)
     \<and> (es \<noteq> [] \<longrightarrow> e_ChainID (last es) = cs_ChainID s \<and> cs_ChainID s \<noteq> [])"

definition logInv :: "Lib \<Rightarrow> string \<Rightarrow> string \<Rightarrow> Logger \<Rightarrow> filesys \<Rightarrow> string list \<Rightarrow> Event list
    \<Rightarrow> nat \<Rightarrow> string list list \<Rightarrow> string list \<Rightarrow> bool" where
  "logInv lib path key l fs ls es d gs cur \<longleftrightarrow> diskInv lib path key l fs ls es d gs cur
     \<and> (ls \<noteq> [] \<longrightarrow> cur \<noteq> []) \<and> headInv lib key (cw_state (l_chain l)) es"

lemma saveState_frame:
  assumes "saveState lib fault fs path s = (err, fs')" "q \<noteq> path" "q \<noteq> path @ ''.tmp''"
  shows "fsGet fs' q = fsGet fs q"
  using assms
  by (auto simp: saveState_def Let_def fsGet_del split: if_splits option.splits save_fault.splits dest!: fsRename_get [of _ _ _ _ q])

lemma chainEvents_decoded:
  assumes "map (unmarshalEvent lib) ls = map Inr es" "\<forall>e \<in> set es. e_IntegrityVersion e = IntegrityVersion"
  shows "chainEvents lib ls = es"
  using assms
proof (induction ls arbitrary: es)
  case (Cons x xs)
  then show ?case by (cases es) auto
qed auto

lemma rotate_step:
  assumes F: "faultless env" and L: "layout (l_path l) fs gs cur" and ns: "noStray (l_path l) fs"
    and m: "int (length gs) \<le> backupsOf l"
  shows "\<exists>l1 fs1 gs1 cur1 j. rotateIfNeeded env l fs n = (None, l1, fs1) \<and> l_path l1 = l_path l \<and> l_chain l1 = l_chain l
     \<and> l_host l1 = l_host l \<and> layout (l_path l) fs1 gs1 cur1 \<and> noStray (l_path l) fs1 \<and> int (length gs1) \<le> backupsOf l1
     \<and> backupsOf l1 = backupsOf l \<and> j \<le> length (concat gs @ cur) \<and> concat gs1 @ cur1 = drop j (concat gs @ cur)"
proof (cases "l_maxBytes l \<le> 0 \<or> fsGet fs (l_path l) = None
    \<or> (\<exists>c. fsGet fs (l_path l) = Some c \<and> int (length c) + int n \<le> l_maxBytes l)")
  case True
  then have "rotateIfNeeded env l fs n = (None, l, fs)"
    using F by (auto simp: rotateIfNeeded_def faultless_def split: option.splits)
  with L ns m show ?thesis by (intro exI [of _ l] exI [of _ fs] exI [of _ gs] exI [of _ cur] exI [of _ 0]) simp
next
  case False
  then obtain c where c: "fsGet fs (l_path l) = Some c" "\<not> int (length c) + int n \<le> l_maxBytes l" "\<not> l_maxBytes l \<le> 0"
    by auto
  let ?p = "l_path l" and ?b = "nat (backupsOf l)"
  define l1 where "l1 = (if l_maxBackups l \<le> 0 then l\<lparr>l_maxBackups := 1\<rparr> else l)"
  define fs1 where "fs1 = shiftBackups ?p (\<lambda>_. False) (?b - 1) (fsDel fs (backupName ?p ?b))"
  have b: "1 \<le> ?b" "length gs \<le> ?b" "backupsOf l = int ?b" using m by (auto simp: backupsOf_def)
  obtain k where k: "?b = Suc k" using b(1) by (cases ?b) auto
  have e: "fsGet (fsDel fs (backupName ?p ?b)) (backupName ?p (Suc k)) = None" by (simp add: k fsGet_del)
  note sh = shiftBackups_get [OF e]
  have keep: "fsGet fs1 q = fsGet fs q" if "\<forall>i \<ge> 1. q \<noteq> backupName ?p i" for q
    using sh that by (simp add: fs1_def k fsGet_del)
  have "fsGet fs1 ?p \<noteq> None" using keep [of ?p] c by simp
  then obtain fs2 where fs2: "fsRename fs1 ?p (backupName ?p 1) = Some fs2"
    by (cases "fsRename fs1 ?p (backupName ?p 1)") auto
  have cur: "cur \<noteq> []" using L c(1) by (auto simp: layout_def)
  have rot: "rotateIfNeeded env l fs n = (None, l1, fs2)"
    using F c fs2 by (simp add: rotateIfNeeded_def faultless_def Let_def l1_def fs1_def backupsOf_def split: if_splits)
  have L2: "layout ?p fs2 (rotateGroups (int ?b) gs cur) []"
    by (rule layout_rotate [OF L cur b(1,2) fs1_def fs2])
  have "noStray ?p fs2"
  proof (rule noStray_grow [OF ns])
    fix q assume q: "fsGet fs2 q \<noteq> None"
    show "fsGet fs q \<noteq> None \<or> q = ?p \<or> (\<exists>k \<ge> 1. q = backupName ?p k) \<or> q = ?p @ ''.state'' \<or> q = ?p @ ''.state.tmp''"
      using q fsRename_get [OF fs2, of q] keep [of q] by (auto split: if_splits)
  qed
  moreover have "backupsOf l1 = backupsOf l" "l_path l1 = ?p" "l_chain l1 = l_chain l" "l_host l1 = l_host l"
    by (auto simp: l1_def backupsOf_def)
  moreover have "int (length (rotateGroups (int ?b) gs cur)) \<le> backupsOf l"
    using b by (auto simp: rotateGroups_def)
  moreover have "\<exists>j. j \<le> length (concat gs @ cur) \<and> concat (rotateGroups (int ?b) gs cur) @ [] = drop j (concat gs @ cur)"
  proof (cases "length gs = ?b")
    case True
    then obtain g gs' where "gs = g # gs'" using b(1) by (cases gs) auto
    with True show ?thesis by (intro exI [of _ "length g"]) (simp add: rotateGroups_def)
  qed (auto simp: rotateGroups_def intro: exI [of _ 0])
  ultimately show ?thesis using rot L2 by metis
qed


text \<open>A write whose event JSON represents faithfully, in an environment where at most the open of the log may fail.\<close>

definition stableWrite :: "Lib \<Rightarrow> Logger \<Rightarrow> WriteEnv \<times> Event \<Rightarrow> bool" where
  "stableWrite lib l w \<longleftrightarrow> faultless ((fst w)\<lparr>w_openFails := False\<rparr>) \<and> (\<forall>h. w_rnd (fst w) = Some h \<longrightarrow> plainS h)
     \<and> plainS (e_HMAC (snd w)) \<and> jsonStable lib (fillDefaults (fst w) l (snd w))"

definition goodWrite :: "Lib \<Rightarrow> Logger \<Rightarrow> WriteEnv \<times> Event \<Rightarrow> bool" where
  "goodWrite lib l w \<longleftrightarrow> stableWrite lib l w \<and> \<not> w_openFails (fst w)"

fun writeAll :: "Lib \<Rightarrow> Logger \<Rightarrow> filesys \<Rightarrow> (WriteEnv \<times> Event) list \<Rightarrow> chain_error option list \<times> Logger \<times> filesys" where
  "writeAll lib l fs [] = ([], l, fs)"
| "writeAll lib l fs ((env, e) # ws) =
     (case Write lib env l fs e of
        (err, l', fs', _) \<Rightarrow> (case writeAll lib l' fs' ws of (errs, l'', fs'') \<Rightarrow> (err # errs, l'', fs'')))"

lemma fillDefaults_HMAC [simp]: "e_HMAC (fillDefaults env l e) = e_HMAC e"
  by (simp add: fillDefaults_def Let_def split: option.splits)

lemma fillDefaults_host: "l_host l = l_host l' \<Longrightarrow> fillDefaults env l = fillDefaults env l'"
  by (simp add: fillDefaults_def fun_eq_iff Let_def)

lemma Write_disk:
  assumes lib: "goodLib lib" and inv: "diskInv lib path key l fs ls es d gs cur" and w: "stableWrite lib l (env, e)"
  shows "\<exists>l' fs' sent out e' d' gs' cur'. Write lib env l fs e = (if w_openFails env then Some (IOError ''open'') else None, l', fs', sent)
     \<and> diskInv lib path key l' fs' (if w_openFails env then ls else ls @ [out]) (if w_openFails env then es else es @ [e']) d' gs' cur'
     \<and> (w_openFails env \<or> cur' \<noteq> []) \<and> backupsOf l' = backupsOf l \<and> l_host l' = l_host l
     \<and> goodLink lib key (cs_LastHash (cw_state (l_chain l))) e' \<and> e_Hash e' = cs_LastHash (cw_state (l_chain l'))
     \<and> e_Seq e' = cs_LastSeq (cw_state (l_chain l')) \<and> e_ChainID e' = cs_ChainID (cw_state (l_chain l'))
     \<and> cs_LastSeq (cw_state (l_chain l')) = cs_LastSeq (cw_state (l_chain l)) + 1 \<and> cs_ChainID (cw_state (l_chain l')) \<noteq> []"
proof -
  note I = inv [unfolded diskInv_def]
  let ?cw = "l_chain l" and ?e = "fillDefaults env l e"
  have pl: "newHasher (cw_algo ?cw)" "plainS (cs_ChainID (cw_state ?cw))" "plainS (cs_LastHash (cw_state ?cw))" using I by simp_all
  have w': "faultless (env\<lparr>w_openFails := False\<rparr>)" "\<And>h. w_rnd env = Some h \<Longrightarrow> plainS h" "plainS (e_HMAC ?e)" "jsonStable lib ?e"
    using w by (auto simp: stableWrite_def)
  from sealChain_step [where key = key and rnd = "w_rnd env", OF lib pl(1) w'(4) pl(2,3) w'(2,3)]
  obtain out s' e2 e' where seal: "sealChain lib (w_rnd env) (cw_state ?cw) ?e key (cw_algo ?cw) = Inr (out @ [nl], s', e2)"
      "marshalEvent lib e2 = Some out" "unmarshalEvent lib out = Inr e'" "e_IntegrityVersion e' = IntegrityVersion"
      "goodLink lib key (cs_LastHash (cw_state ?cw)) e'" "e_Hash e' = cs_LastHash s'" "e_Seq e' = cs_LastSeq s'"
      "e_ChainID e' = cs_ChainID s'" "cs_LastSeq s' = cs_LastSeq (cw_state ?cw) + 1" "plainS (cs_ChainID s')"
      "plainS (cs_LastHash s')" "cs_ChainID s' \<noteq> []" by blast
  obtain err fs1 where save: "saveState lib (w_save env) fs (cw_statePth ?cw) s' = (err, fs1)"
    by (cases "saveState lib (w_save env) fs (cw_statePth ?cw) s'")
  let ?l = "l\<lparr>l_chain := ?cw\<lparr>cw_state := s'\<rparr>\<rparr>"
  have eq: "Write lib env l fs e = appendLine lib env ?l fs1 (out @ [nl]) e2"
    using I seal(1) save by (simp add: Write_def Let_def Seal_def)
  have keep: "fsGet fs1 q = fsGet fs q" if "q \<noteq> path @ ''.state''" "q \<noteq> path @ ''.state.tmp''" for q
    using saveState_frame [OF save, of q] that I by simp
  have L: "layout (l_path ?l) fs1 gs cur" using layout_frame [OF _ keep] I by simp
  have "noStray path fs1" by (rule noStray_grow [of path fs]) (use I keep in auto)
  then have ns: "noStray (l_path ?l) fs1" using I by simp
  have bk: "backupsOf ?l = backupsOf l" by (simp add: backupsOf_def)
  have m: "int (length gs) \<le> backupsOf ?l" unfolding bk using I by blast
  have sel: "l_path ?l = path" "l_chain ?l = ?cw\<lparr>cw_state := s'\<rparr>" "l_host ?l = l_host l" using I by simp_all
  have renv: "rotateIfNeeded (env\<lparr>w_openFails := False\<rparr>) = rotateIfNeeded env"
    by (intro ext) (simp add: rotateIfNeeded_def Let_def cong: if_cong option.case_cong)
  from rotate_step [OF w'(1) L ns m, of "length (out @ [nl])", unfolded sel bk renv]
  obtain l1 fs2 gs1 cur1 j where rot: "rotateIfNeeded env ?l fs1 (length (out @ [nl])) = (None, l1, fs2)"
      "l_path l1 = path" "l_chain l1 = ?cw\<lparr>cw_state := s'\<rparr>" "l_host l1 = l_host l" "layout path fs2 gs1 cur1" "noStray path fs2"
      "int (length gs1) \<le> backupsOf l1" "backupsOf l1 = backupsOf l" "j \<le> length (concat gs @ cur)"
      "concat gs1 @ cur1 = drop j (concat gs @ cur)"
    by blast
  have d: "d + j \<le> length ls" "concat gs1 @ cur1 = drop (d + j) ls"
    using I rot(9,10) by (auto simp: add.commute)
  have st: "cw_state (l_chain l1) = s'" using rot(3) by simp
  show ?thesis
  proof (cases "w_openFails env")
    case True
    have W: "Write lib env l fs e = (Some (IOError ''open''), l1, fs2, [])"
      using eq rot(1) True by (simp add: appendLine_def)
    have "diskInv lib path key l1 fs2 ls es (d + j) gs1 cur1"
      unfolding diskInv_def using I seal(10,11) rot d by simp
    with W True seal rot(4,8) st show ?thesis by auto
  next
    case False
    let ?fs = "fsAppend fs2 path (out @ [nl])"
    have W: "Write lib env l fs e = (None, l1, ?fs, copies lib env l1 e2)"
      using eq rot(1,2) w'(1) False by (simp add: appendLine_def faultless_def)
    have ns': "noStray path ?fs" by (rule noStray_grow [OF rot(6)]) (auto split: if_splits)
    have "diskInv lib path key l1 ?fs (ls @ [out]) (es @ [e']) (d + j) gs1 (cur1 @ [out])"
      unfolding diskInv_def
      using I seal(2,3,4,10,11) rot ns' d layout_append [OF rot(5), of out] by auto
    with W False seal rot(4,8) st show ?thesis by fastforce
  qed
qed

lemma headInv_extend:
  assumes "headInv lib key s es" "goodLink lib key (cs_LastHash s) e'" "e_Hash e' = cs_LastHash s'" "e_Seq e' = cs_LastSeq s'"
    and "e_ChainID e' = cs_ChainID s'" "cs_LastSeq s' = cs_LastSeq s + 1" "cs_ChainID s' \<noteq> []"
  shows "headInv lib key s' (es @ [e'])"
  using assms by (simp add: headInv_def)

lemma Write_step:
  assumes lib: "goodLib lib" and inv: "logInv lib path key l fs ls es d gs cur" and w: "goodWrite lib l (env, e)"
  shows "\<exists>l' fs' sent out e' d' gs' cur'. Write lib env l fs e = (None, l', fs', sent)
     \<and> logInv lib path key l' fs' (ls @ [out]) (es @ [e']) d' gs' cur'
     \<and> backupsOf l' = backupsOf l \<and> l_host l' = l_host l"
proof -
  have st: "stableWrite lib l (env, e)" "\<not> w_openFails env" using w by (auto simp: goodWrite_def)
  have di: "diskInv lib path key l fs ls es d gs cur" "headInv lib key (cw_state (l_chain l)) es"
    using inv by (simp_all add: logInv_def)
  from Write_disk [OF lib di(1) st(1)] st(2) obtain l' fs' sent out e' d' gs' cur' where
    W: "Write lib env l fs e = (None, l', fs', sent)" "diskInv lib path key l' fs' (ls @ [out]) (es @ [e']) d' gs' cur'"
      "cur' \<noteq> []" "backupsOf l' = backupsOf l" "l_host l' = l_host l"
      "goodLink lib key (cs_LastHash (cw_state (l_chain l))) e'" "e_Hash e' = cs_LastHash (cw_state (l_chain l'))"
      "e_Seq e' = cs_LastSeq (cw_state (l_chain l'))" "e_ChainID e' = cs_ChainID (cw_state (l_chain l'))"
      "cs_LastSeq (cw_state (l_chain l')) = cs_LastSeq (cw_state (l_chain l)) + 1" "cs_ChainID (cw_state (l_chain l')) \<noteq> []"
    by auto
  have "logInv lib path key l' fs' (ls @ [out]) (es @ [e']) d' gs' cur'"
    using W(2,3) headInv_extend [OF di(2) W(6-11)] by (simp add: logInv_def)
  with W show ?thesis by blast
qed

lemma writeAll_inv:
  assumes "goodLib lib" "logInv lib path key l fs ls es d gs cur" "\<forall>w \<in> set ws. goodWrite lib l w"
  shows "\<exists>l' fs' ls' es' d' gs' cur'. writeAll lib l fs ws = (replicate (length ws) None, l', fs')
     \<and> logInv lib path key l' fs' (ls @ ls') (es @ es') d' gs' cur' \<and> length ls' = length ws \<and> backupsOf l' = backupsOf l"
  using assms(2,3)
proof (induction ws arbitrary: l fs ls es d gs cur)
  case Nil
  then show ?case by (intro exI [of _ l] exI [of _ fs] exI [of _ "[]"]) auto
next
  case (Cons w ws)
  obtain env e where w: "w = (env, e)" by (cases w)
  from Write_step [OF assms(1) Cons.prems(1), of env e] Cons.prems(2) w
  obtain l1 fs1 sent out e' d1 gs1 cur1 where W: "Write lib env l fs e = (None, l1, fs1, sent)"
      "logInv lib path key l1 fs1 (ls @ [out]) (es @ [e']) d1 gs1 cur1" "backupsOf l1 = backupsOf l" "l_host l1 = l_host l"
    by auto
  have "\<forall>w \<in> set ws. goodWrite lib l1 w"
    using Cons.prems(2) fillDefaults_host [OF W(4)] by (simp add: goodWrite_def stableWrite_def)
  from Cons.IH [OF W(2) this] obtain l' fs' ls' es' d' gs' cur' where
    "writeAll lib l1 fs1 ws = (replicate (length ws) None, l', fs')"
    "logInv lib path key l' fs' ((ls @ [out]) @ ls') ((es @ [e']) @ es') d' gs' cur'" "length ls' = length ws" "backupsOf l' = backupsOf l1"
    by auto
  with W w show ?case
    by (intro exI [of _ l'] exI [of _ fs'] exI [of _ "out # ls'"] exI [of _ "e' # es'"] exI [of _ d'] exI [of _ gs'] exI [of _ cur']) simp
qed


lemma recover_nothing:
  assumes "\<And>q. fsGet fs q = None"
  shows "recoverFromLog lib df fs key algo path = None"
proof -
  have "fold (recoverFile lib fs key algo) files None = None" for files
    by (induction files) (auto simp: recoverFile_def assms)
  then show ?thesis unfolding recoverFromLog_def .
qed

lemma fresh_logInv:
  assumes "NewWithOptions lib env [] path opts = Inr (l, reports)" "io_EnableChain (op_Integrity opts)"
    and "newHasher (algorithm (op_Integrity opts))" "io_StatePath (op_Integrity opts) = []" "\<not> oe_stateReadFault env"
  shows "logInv lib path (io_Key (op_Integrity opts)) l [] [] [] 0 [] []"
    and "backupsOf l = (if op_MaxBackups opts \<le> 0 then 1 else op_MaxBackups opts)"
  using assms
  by (auto simp: NewWithOptions_def newChainWriter_def loadState_def fsGet_def recover_nothing zeroChainState_def
      logInv_def diskInv_def headInv_def layout_def noStray_def statePathFor_def backupsOf_def Let_def split: if_splits prod.splits)

text \<open>What a log that satisfies the invariant decodes to, file by file.\<close>

lemma decode_group:
  assumes "goodLib lib" "\<forall>x \<in> set ls. \<exists>e. marshalEvent lib e = Some x"
  shows "decodeStream lib (unlines ls) = (ls, None)"
  using assms unfolding goodLib_def by blast

lemma disk_files:
  assumes lib: "goodLib lib" and inv: "diskInv lib path key l fs ls es d gs cur" and tidy: "tidyPath path" and few: "backupsOf l < 2 ^ 63"
  shows "list_all (cleanFile lib fs) (rotatedFiles fs path)" "logValues lib fs path = drop d ls"
    "chainEvents lib (logValues lib fs path) = drop d es"
proof -
  note I = inv [unfolded diskInv_def]
  have L: "layout path fs gs cur" using I by simp
  have "int (length gs) < 2 ^ 63" using I few by linarith
  then have m: "length gs < 2 ^ 63" by simp
  have files: "rotatedFiles fs path = map (backupName path) (rev [1..<Suc (length gs)]) @ (if cur = [] then [] else [path])"
    using rotatedFiles_layout [OF L _ tidy m] I by simp
  have sub: "set x \<subseteq> set ls" if "x \<in> set gs \<or> x = cur" for x
  proof -
    have "set x \<subseteq> set (concat gs @ cur)" using that by auto
    also have "\<dots> \<subseteq> set ls" using I set_drop_subset by metis
    finally show ?thesis .
  qed
  have dec: "decodeStream lib (unlines x) = (x, None)" "list_all (parses lib) x" if "x \<in> set gs \<or> x = cur" for x
  proof -
    show "decodeStream lib (unlines x) = (x, None)"
      using sub [OF that] I by (intro decode_group [OF lib]) auto
    have "parses lib y" if "y \<in> set ls" for y
    proof -
      from that I have "unmarshalEvent lib y \<in> Inr ` set es" by (metis image_eqI list.set_map)
      then show ?thesis by (auto simp: parses_def)
    qed
    then show "list_all (parses lib) x" using sub [OF that] by (auto simp: list_all_iff)
  qed
  have grp: "fsGet fs (backupName path k) = Some (unlines (gs ! (length gs - k)))" "gs ! (length gs - k) \<in> set gs"
    if "1 \<le> k" "k \<le> length gs" for k
    using L that by (auto simp: layout_def)
  have curf: "cur \<noteq> [] \<Longrightarrow> fsGet fs path = Some (unlines cur)" using L by (simp add: layout_def)
  show "list_all (cleanFile lib fs) (rotatedFiles fs path)"
  proof -
    have clean: "cleanFile lib fs f" if "fsGet fs f = Some (unlines x)" "x \<in> set gs \<or> x = cur" for f x
      using that(1) dec [OF that(2)] by (simp add: cleanFile_def)
    have "cleanFile lib fs (backupName path k)" if "1 \<le> k" "k \<le> length gs" for k
      using clean grp [OF that] by blast
    moreover have "cur \<noteq> [] \<Longrightarrow> cleanFile lib fs path" using clean curf by blast
    ultimately show ?thesis unfolding files list_all_iff by (auto simp del: upt_Suc)
  qed
  have "map (valuesOf lib fs) (map (backupName path) (rev [1..<Suc (length gs)])) = gs"
  proof (rule nth_equalityI)
    show "length (map (valuesOf lib fs) (map (backupName path) (rev [1..<Suc (length gs)]))) = length gs" by (simp del: upt_Suc)
    fix i assume "i < length (map (valuesOf lib fs) (map (backupName path) (rev [1..<Suc (length gs)])))"
    then have i: "i < length gs" by (simp del: upt_Suc)
    then have "rev [1..<Suc (length gs)] ! i = length gs - i" by (simp add: rev_nth del: upt_Suc)
    with i grp [of "length gs - i"] dec(1) show "map (valuesOf lib fs) (map (backupName path) (rev [1..<Suc (length gs)])) ! i = gs ! i"
      by (simp add: valuesOf_def del: upt_Suc)
  qed
  then have "logValues lib fs path = concat gs @ cur"
    using curf dec(1) [of cur] by (simp add: logValues_def files valuesOf_def del: upt_Suc)
  then show lv: "logValues lib fs path = drop d ls" using I by simp
  have "map (unmarshalEvent lib) (drop d ls) = map Inr (drop d es)" using I by (metis drop_map)
  then show "chainEvents lib (logValues lib fs path) = drop d es"
    unfolding lv by (rule chainEvents_decoded) (use I in \<open>auto dest: in_set_dropD\<close>)
qed

lemma logInv_verdict:
  assumes lib: "goodLib lib" and inv: "logInv lib path key l fs ls es d gs cur" and tidy: "tidyPath path" and few: "backupsOf l < 2 ^ 63"
    and res: "Verify lib False fs path key = Inr res"
  shows "OK res \<longleftrightarrow> length (logValues lib fs path) = length ls"
    "LastHash res = cs_LastHash (cw_state (l_chain l))" "LastSeq res = word_of_nat (length ls)"
proof -
  have di: "diskInv lib path key l fs ls es d gs cur" using inv by (simp add: logInv_def)
  note I = inv [unfolded logInv_def diskInv_def headInv_def] and F = disk_files [OF lib di tidy few] and V = Verify_result [OF res]
  have len: "length es = length ls" using I by (metis length_map)
  have split: "headHash [] es = headHash (headHash [] (take d es)) (drop d es)" "headSeq 0 es = headSeq (headSeq 0 (take d es)) (drop d es)"
      "chained lib key (headHash [] (take d es)) (drop d es)" "chained lib key [] (take d es)"
    using I headHash_append [of "[]" "take d es" "drop d es"] headSeq_append [of 0 "take d es" "drop d es"]
      chained_append [of lib key "[]" "take d es" "drop d es"] by auto
  have tail: "d = 0 \<or> d < length ls"
  proof (cases "ls = []")
    case False
    then have "drop d ls \<noteq> []" using I by auto
    then show ?thesis by simp
  qed (use I in auto)
  have ok: "OK res \<longleftrightarrow> d = 0"
  proof (cases "d = 0")
    case True
    then show ?thesis using V(1) F I by simp
  next
    case False
    with tail len obtain x xs where x: "drop d es = x # xs" by (cases "drop d es") auto
    have "take d es \<noteq> []" using False x by (cases es) auto
    with chained_head [OF _ split(4)] lib have "headHash [] (take d es) \<noteq> []" by (auto simp: goodLib_def)
    then have "\<not> chained lib key [] (drop d es)" using split(3) x by (auto simp: goodLink_def)
    with V(1) F(3) False show ?thesis by simp
  qed
  then show "OK res \<longleftrightarrow> length (logValues lib fs path) = length ls" using F(2) tail by auto
  have head: "headHash p (drop d es) = headHash [] (drop d es)" "headSeq q (drop d es) = headSeq 0 (drop d es)" if "d > 0" for p q
    using that tail len by (cases "drop d es"; simp)+
  have "headHash [] (drop d es) = headHash [] es" "headSeq 0 (drop d es) = headSeq 0 es"
    using split(1,2) head by (metis drop0 neq0_conv)+
  moreover have "headHash [] es = cs_LastHash (cw_state (l_chain l))" "headSeq 0 es = word_of_nat (length ls)"
    using I len by simp_all
  ultimately show "LastHash res = cs_LastHash (cw_state (l_chain l))" "LastSeq res = word_of_nat (length ls)"
    using V(2,3) unfolding F(3) by simp_all
qed


lemma writeAll_host:
  assumes "goodLib lib" "logInv lib path key l fs ls es d gs cur" "\<forall>w \<in> set ws. goodWrite lib l w"
    and "writeAll lib l fs ws = (errs, l', fs')"
  shows "l_host l' = l_host l"
  using assms(2-)
proof (induction ws arbitrary: l fs ls es d gs cur errs)
  case (Cons w ws)
  obtain env e where w: "w = (env, e)" by (cases w)
  from Write_step [OF assms(1) Cons.prems(1), of env e] Cons.prems(2) w
  obtain l1 fs1 sent out e' d1 gs1 cur1 where W: "Write lib env l fs e = (None, l1, fs1, sent)"
      "logInv lib path key l1 fs1 (ls @ [out]) (es @ [e']) d1 gs1 cur1" "l_host l1 = l_host l"
    by auto
  obtain errs1 where "writeAll lib l1 fs1 ws = (errs1, l', fs')"
    using Cons.prems(3) W(1) w by (auto split: prod.splits)
  moreover have "\<forall>w \<in> set ws. goodWrite lib l1 w"
    using Cons.prems(2) fillDefaults_host [OF W(3)] by (simp add: goodWrite_def stableWrite_def)
  ultimately show ?case using Cons.IH [OF W(2)] W(3) by simp
qed simp

lemma Write_head_nonempty:
  assumes "goodLib lib" "diskInv lib path key l fs ls es d gs cur" "stableWrite lib l (env, e)"
    and "Write lib env l fs e = (err, l', fs', sent)"
  shows "cs_LastHash (cw_state (l_chain l')) \<noteq> []"
proof -
  from Write_disk [OF assms(1-3)] assms(4) obtain e' where
    "goodLink lib key (cs_LastHash (cw_state (l_chain l))) e'" "e_Hash e' = cs_LastHash (cw_state (l_chain l'))"
    by auto
  then have "\<exists>t. cs_LastHash (cw_state (l_chain l')) = sha256hex lib t" by (metis goodLinkD)
  moreover have "length (sha256hex lib t) = 64" for t using assms(1) by (simp add: goodLib_def hexDigests_def)
  ultimately show ?thesis by (metis length_0_conv zero_neq_numeral)
qed

text \<open>Neither the whole chain with a misplaced last link, nor any proper suffix of it, is a chain from the empty head.\<close>

lemma broken_suffix:
  assumes "hexDigests lib" "chained lib key [] es" "goodLink lib key h e" "h \<noteq> headHash [] es" "d \<le> length es"
    and "h \<noteq> []"
  shows "\<not> chained lib key [] (drop d (es @ [e]))"
proof (cases "d = 0")
  case True
  with assms(3,4) show ?thesis by (auto simp: goodLink_def)
next
  case False
  show ?thesis
  proof (cases "drop d es")
    case Nil
    with assms(3,5,6) show ?thesis by (auto simp: goodLink_def)
  next
    case (Cons x xs)
    have "chained lib key [] (take d es)" "chained lib key (headHash [] (take d es)) (drop d es)"
      using assms(2) chained_append [of lib key "[]" "take d es" "drop d es"] by auto
    moreover have "take d es \<noteq> []" using False Cons by (cases es) auto
    ultimately show ?thesis
      using chained_head [OF assms(1), of key "take d es"] Cons assms(5) by (auto simp: goodLink_def)
  qed
qed

lemma head_last:
  assumes "es \<noteq> []"
  shows "headHash p es = e_Hash (last es)" "headSeq q es = e_Seq (last es)"
  using assms by (induction es arbitrary: p q) auto

section \<open>A concrete run\<close>

definition quiet :: "gotime \<Rightarrow> WriteEnv" where
  "quiet t = \<lparr>w_now = t, w_hostname = None, w_rnd = Some ''00ff'', w_save = SaveOK, w_statFault = False,
     w_removeFails = False, w_shiftFails = (\<lambda>_. False), w_renameFails = False, w_openFails = False, w_writeFault = None\<rparr>"

definition demoOpen :: OpenEnv where
  "demoOpen = \<lparr>oe_mkdirOK = True, oe_hostname = ''host'', oe_syslogOK = False, oe_dialOK = (\<lambda>_ _. False),
     oe_stateReadFault = False, oe_dirFault = False\<rparr>"

definition demoOpts :: "int \<Rightarrow> Options" where
  "demoOpts maxBytes = \<lparr>op_EnableSyslog = False, op_MaxBytes = maxBytes, op_MaxBackups = 1,
     op_Integrity = \<lparr>io_EnableChain = True, io_Algorithm = [], io_Key = ''key'', io_StatePath = []\<rparr>,
     op_RemoteSyslog = zeroRemote\<rparr>"

definition demoLogger :: "int \<Rightarrow> Logger" where
  "demoLogger maxBytes = \<lparr>l_path = ''/l/e'', l_host = ''host'', l_syslog = False, l_maxBytes = maxBytes, l_maxBackups = 1,
     l_chain = \<lparr>cw_enabled = True, cw_key = ''key'', cw_algo = ''sha256'', cw_state = zeroChainState, cw_statePth = ''/l/e.state''\<rparr>,
     l_remote = False, l_remoteCfg = zeroRemote\<rparr>"

lemma demo_open: "NewWithOptions demoLib demoOpen [] ''/l/e'' (demoOpts n) = Inr (demoLogger n, [])"
  by (simp add: NewWithOptions_def demoOpen_def demoOpts_def newChainWriter_def loadState_def fsGet_def recover_nothing
      algorithm_def statePathFor_def zeroChainState_def demoLogger_def zeroRemote_def Let_def)

lemma demo_goodLib: "goodLib demoLib"
proof -
  have "list_all isHexC (demoDigest s)" for s
    using demo_hexDigests by (simp add: hexDigests_def)
  moreover have "linesOf (unlines ls) = ls" if "\<forall>x \<in> set ls. \<exists>e. marshalEvent demoLib e = Some x" for ls
    using that by (intro linesOf_unlines) (auto simp: demo_text)
  ultimately show ?thesis
    using demo_hexDigests demo_objectTexts by (simp add: goodLib_def)
qed

lemma demo_jsonStable: "jsonStable demoLib e"
  by (simp add: jsonStable_def Let_def demo_roundtrip)
    (simp add: demoNorm_def chainEventBytes_def stripIntegrity_def demoMarshal_def)

lemma demo_stableWrite: "plainS (e_HMAC e) \<Longrightarrow> stableWrite demoLib l ((quiet t)\<lparr>w_openFails := b\<rparr>, e)"
  by (simp add: stableWrite_def demo_jsonStable faultless_def quiet_def) (simp add: plainS_def)

lemma demo_goodWrite: "plainS (e_HMAC e) \<Longrightarrow> goodWrite demoLib l (quiet t, e)"
  using demo_stableWrite [where e = e and l = l and t = t and b = False] by (simp add: goodWrite_def quiet_def)

lemma demo_tidy: "tidyPath ''/l/e''"
  by (simp add: tidyPath_def)

section \<open>Properties\<close>

text \<open>The configuration the properties are about: a chained log in a new directory, state file in the default place.\<close>

definition chainedOptions :: "Options \<Rightarrow> bool" where
  "chainedOptions opts \<longleftrightarrow> io_EnableChain (op_Integrity opts) \<and> newHasher (algorithm (op_Integrity opts))
     \<and> io_StatePath (op_Integrity opts) = [] \<and> op_MaxBackups opts < 2 ^ 63"

lemma run_inv:
  assumes "goodLib lib" "chainedOptions opts"
    and "NewWithOptions lib env [] path opts = Inr (l0, reports)" "\<not> oe_stateReadFault env"
    and "\<forall>w \<in> set ws. goodWrite lib l0 w" "writeAll lib l0 [] ws = (errs, l, fs)"
  shows "\<exists>ls es d gs cur. errs = replicate (length ws) None \<and> length ls = length ws \<and> backupsOf l < 2 ^ 63
     \<and> logInv lib path (io_Key (op_Integrity opts)) l fs ls es d gs cur"
proof -
  have inv: "logInv lib path (io_Key (op_Integrity opts)) l0 [] [] [] 0 [] []" and b: "backupsOf l0 < 2 ^ 63"
    using fresh_logInv [OF assms(3)] assms(2,4) by (auto simp: chainedOptions_def)
  from writeAll_inv [OF assms(1) inv assms(5)] assms(6) b show ?thesis by fastforce
qed

lemma log_verdict:
  assumes "goodLib lib" "chainedOptions opts" "tidyPath path"
    and "NewWithOptions lib env [] path opts = Inr (l0, reports)" "\<not> oe_stateReadFault env"
    and "\<forall>w \<in> set ws. goodWrite lib l0 w" "writeAll lib l0 [] ws = (errs, l, fs)"
  shows "errs = replicate (length ws) None
    \<and> (\<exists>res. Verify lib False fs path (io_Key (op_Integrity opts)) = Inr res
        \<and> (OK res \<longleftrightarrow> length (logValues lib fs path) = length ws)
        \<and> LastHash res = cs_LastHash (ChainSnapshot (Some l)) \<and> LastSeq res = word_of_nat (length ws))"
proof -
  from run_inv [OF assms(1,2,4-7)] obtain ls es d gs cur where
    R: "errs = replicate (length ws) None" "length ls = length ws" "backupsOf l < 2 ^ 63"
      "logInv lib path (io_Key (op_Integrity opts)) l fs ls es d gs cur" by auto
  obtain res where res: "Verify lib False fs path (io_Key (op_Integrity opts)) = Inr res" using Verify_total by blast
  from logInv_verdict [OF assms(1) R(4) assms(3) R(3) res] R res show ?thesis
    by (simp add: ChainSnapshot_def)
qed




text \<open>
  A write that fails after the event was sealed leaves a permanent break.  The
  writer has already moved its head to the event that never reached the file, so once the
  next write succeeds the log no longer verifies (unless the lost event's hash is by
  accident the previous head).
\<close>

theorem failed_write_breaks_chain:
  assumes "goodLib lib" "chainedOptions opts" "tidyPath path"
    and "NewWithOptions lib env [] path opts = Inr (l0, reports)" "\<not> oe_stateReadFault env"
    and "\<forall>w \<in> set ws. goodWrite lib l0 w" "writeAll lib l0 [] ws = (errs, l1, fs1)"
    and "stableWrite lib l0 (env1, e1)" "w_openFails env1" "goodWrite lib l0 (env2, e2)"
    and "Write lib env1 l1 fs1 e1 = (err2, l2, fs2, sent2)" "Write lib env2 l2 fs2 e2 = (err3, l3, fs3, sent3)"
    and "cs_LastHash (ChainSnapshot (Some l2)) \<noteq> cs_LastHash (ChainSnapshot (Some l1))"
  shows "err2 = Some (IOError ''open'') \<and> err3 = None
    \<and> (\<exists>res. Verify lib False fs3 path (io_Key (op_Integrity opts)) = Inr res \<and> \<not> OK res)"
proof -
  let ?key = "io_Key (op_Integrity opts)"
  from run_inv [OF assms(1,2,4-7)] obtain ls es d gs cur where
    R: "backupsOf l1 < 2 ^ 63" "logInv lib path ?key l1 fs1 ls es d gs cur" "l_host l1 = l_host l0"
    using writeAll_host [OF assms(1) fresh_logInv(1) [OF assms(4)] assms(6)] assms(2,5,7) by (auto simp: chainedOptions_def)
  have di: "diskInv lib path ?key l1 fs1 ls es d gs cur" and hd: "headInv lib ?key (cw_state (l_chain l1)) es"
    using R(2) by (simp_all add: logInv_def)
  have st1: "stableWrite lib l1 (env1, e1)"
    using assms(8) fillDefaults_host [OF R(3)] by (simp add: stableWrite_def)
  from Write_disk [OF assms(1) di st1] assms(9,11) obtain d2 gs2 cur2 where
    W1: "err2 = Some (IOError ''open'')" "diskInv lib path ?key l2 fs2 ls es d2 gs2 cur2" "backupsOf l2 = backupsOf l1" "l_host l2 = l_host l1"
    by auto
  have st2: "stableWrite lib l2 (env2, e2)" "\<not> w_openFails env2"
    using assms(10) fillDefaults_host [of l2 l0] R(3) W1(4) by (simp_all add: goodWrite_def stableWrite_def)
  from Write_disk [OF assms(1) W1(2) st2(1)] st2(2) assms(12) obtain out e3 d3 gs3 cur3 where
    W2: "err3 = None" "diskInv lib path ?key l3 fs3 (ls @ [out]) (es @ [e3]) d3 gs3 cur3" "cur3 \<noteq> []" "backupsOf l3 = backupsOf l2"
      "goodLink lib ?key (cs_LastHash (cw_state (l_chain l2))) e3"
    by auto
  obtain res where res: "Verify lib False fs3 path ?key = Inr res" using Verify_total by blast
  have few: "backupsOf l3 < 2 ^ 63" using R(1) W1(3) W2(4) by simp
  have ev: "chainEvents lib (logValues lib fs3 path) = drop d3 (es @ [e3])"
    by (rule disk_files(3) [OF assms(1) W2(2) assms(3) few])
  have "length (es @ [e3]) = length (ls @ [out])" "drop d3 (ls @ [out]) \<noteq> []"
    using W2(2,3) unfolding diskInv_def by (metis length_map, auto)
  then have d3: "d3 \<le> length es" by auto
  have "\<not> chained lib ?key [] (drop d3 (es @ [e3]))"
    using d3 hd W2(5) assms(1,13) Write_head_nonempty [OF assms(1) di st1 assms(11)]
    by (intro broken_suffix) (auto simp: headInv_def goodLib_def ChainSnapshot_def)
  with Verify_result(1) [OF res] ev res W1(1) W2(1) show ?thesis by auto
qed

theorem failed_write_breaks_chain_witness:
  "\<exists>l2 fs2 l3 fs3 sent2 sent3 res.
     Write demoLib ((quiet 1)\<lparr>w_openFails := True\<rparr>) (demoLogger 0) [] zeroEvent = (Some (IOError ''open''), l2, fs2, sent2)
     \<and> Write demoLib (quiet 2) l2 fs2 zeroEvent = (None, l3, fs3, sent3)
     \<and> Verify demoLib False fs3 ''/l/e'' ''key'' = Inr res \<and> \<not> OK res"
proof -
  let ?env1 = "(quiet 1)\<lparr>w_openFails := True\<rparr>" and ?l = "demoLogger 0"
  obtain err2 l2 fs2 sent2 where w1: "Write demoLib ?env1 ?l [] zeroEvent = (err2, l2, fs2, sent2)" by (metis surj_pair)
  obtain err3 l3 fs3 sent3 where w2: "Write demoLib (quiet 2) l2 fs2 zeroEvent = (err3, l3, fs3, sent3)" by (metis surj_pair)
  have z: "plainS (e_HMAC zeroEvent)" by (simp add: zeroEvent_def)
  have o: "chainedOptions (demoOpts 0)" "\<not> oe_stateReadFault demoOpen" "io_Key (op_Integrity (demoOpts 0)) = ''key''"
    by (simp_all add: chainedOptions_def demoOpts_def algorithm_def newHasher_def demoOpen_def)
  have "logInv demoLib ''/l/e'' ''key'' ?l [] [] [] 0 [] []"
    using fresh_logInv(1) [OF demo_open [of 0]] o by (simp add: chainedOptions_def)
  then have di: "diskInv demoLib ''/l/e'' ''key'' ?l [] [] [] 0 [] []" by (simp add: logInv_def)
  have "cs_LastHash (cw_state (l_chain l2)) \<noteq> []"
    by (rule Write_head_nonempty [OF demo_goodLib di demo_stableWrite [OF z] w1])
  then have "cs_LastHash (ChainSnapshot (Some l2)) \<noteq> cs_LastHash (ChainSnapshot (Some ?l))"
    by (simp add: ChainSnapshot_def demoLogger_def zeroChainState_def)
  with failed_write_breaks_chain [OF demo_goodLib o(1) demo_tidy demo_open o(2) _ _ demo_stableWrite [OF z] _ demo_goodWrite [OF z] w1 w2, of "[]" "[]"]
  show ?thesis using w1 w2 o(3) by auto
qed

text \<open>
  Recovery of the head.  When the state file is lost, a writer opened on the log
  recovers the chain identifier, the sequence number and the hash the previous writer ended
  with, from the last line of the log, and reports the recovery: the next event continues
  the chain.  (The scanner gives up on a line of a mebibyte, so every line must be shorter.)
\<close>

theorem lost_state_recovered:
  assumes "goodLib lib" "chainedOptions opts"
    and "NewWithOptions lib env [] path opts = Inr (l0, reports)" "\<not> oe_stateReadFault env"
    and "\<forall>w \<in> set ws. goodWrite lib l0 w" "ws \<noteq> []" "writeAll lib l0 [] ws = (errs, l, fs)"
    and "\<forall>x \<in> set (linesOf (case fsGet fs path of Some c \<Rightarrow> c | None \<Rightarrow> [])). length x < 2 ^ 20"
  shows "\<exists>cw. newChainWriter lib False False (fsDel fs (path @ ''.state'')) path (op_Integrity opts) = (cw, [StateRecovered])
     \<and> cs_ChainID (cw_state cw) = cs_ChainID (ChainSnapshot (Some l))
     \<and> cs_LastSeq (cw_state cw) = cs_LastSeq (ChainSnapshot (Some l))
     \<and> cs_LastHash (cw_state cw) = cs_LastHash (ChainSnapshot (Some l))"
proof -
  let ?key = "io_Key (op_Integrity opts)" and ?fs = "fsDel fs (path @ ''.state'')"
  from run_inv [OF assms(1-5,7)] obtain ls es d gs cur where
    R: "length ls = length ws" "logInv lib path ?key l fs ls es d gs cur" by auto
  note I = R(2) [unfolded logInv_def diskInv_def headInv_def]
  have ne: "ls \<noteq> []" "cur \<noteq> []" "es \<noteq> []" using R(1) assms(6) I by auto
  obtain xs x where cur: "cur = xs @ [x]" using ne(2) by (cases cur rule: rev_cases) auto
  have x: "x = last ls" using I cur ne(1) by (metis append_is_Nil_conv last_appendR last_drop last_snoc list.distinct(1) not_less drop_all)
  have fl: "fsGet fs path = Some (unlines cur)" using I ne(2) by (simp add: layout_def)
  have sub: "set cur \<subseteq> set ls" using I by (metis Un_upper2 order_trans set_append set_drop_subset)
  have clean: "nl \<notin> set y \<and> cr \<notin> set y" if "y \<in> set cur" for y
    using that sub I assms(1) by (metis goodLib_def objectTexts_def subsetD)
  then have lines: "linesOf (unlines cur) = cur" by (intro linesOf_unlines) auto
  have scan: "scanLines (2 ^ 20) (unlines cur) = cur"
    using clean assms(8) fl lines by (intro scanLines_unlines) auto
  have "unmarshalEvent lib x = Inr (last es)"
    using I x ne by (metis last_map)
  moreover have "e_IntegrityVersion (last es) = IntegrityVersion" using I ne by simp
  moreover have hash: "e_Hash (last es) = cs_LastHash (cw_state (l_chain l))" "e_Seq (last es) = cs_LastSeq (cw_state (l_chain l))"
  proof -
    have "headHash [] es = cs_LastHash (cw_state (l_chain l))" "headSeq 0 es = cs_LastSeq (cw_state (l_chain l))" using I by blast+
    then show "e_Hash (last es) = cs_LastHash (cw_state (l_chain l))" "e_Seq (last es) = cs_LastSeq (cw_state (l_chain l))"
      using head_last [OF ne(3)] by simp_all
  qed
  moreover have "e_ChainID (last es) = cs_ChainID (cw_state (l_chain l))" "cs_ChainID (cw_state (l_chain l)) \<noteq> []"
    using I ne by blast+
  moreover have "e_Hash (last es) \<noteq> []"
  proof -
    have hx: "hexDigests lib" using assms(1) by (simp add: goodLib_def)
    have ch: "chained lib ?key [] es" and hh: "headHash [] es = cs_LastHash (cw_state (l_chain l))" using I by blast+
    have "length (headHash [] es) = 64" using chained_head [OF hx ch] ne(3) by simp
    then show ?thesis unfolding hash(1) hh by auto
  qed
  ultimately have step: "recoverStep lib ?key algo x found = Some \<lparr>cs_ChainID = cs_ChainID (cw_state (l_chain l)),
      cs_LastSeq = cs_LastSeq (cw_state (l_chain l)), cs_LastHash = cs_LastHash (cw_state (l_chain l)),
      cs_LastHMAC = e_HMAC (last es), cs_Algorithm = algo, cs_LegacyAck = False, cs_HasHMACKey = (?key \<noteq> [])\<rparr>" for algo found
    by (simp add: recoverStep_def)
  have "recoverFile lib ?fs ?key algo path found = recoverStep lib ?key algo x (fold (recoverStep lib ?key algo) xs found)" for algo found
    using fl scan by (simp add: recoverFile_def fsGet_del cur)
  then have "recoverFromLog lib False ?fs ?key algo path = Some \<lparr>cs_ChainID = cs_ChainID (cw_state (l_chain l)),
      cs_LastSeq = cs_LastSeq (cw_state (l_chain l)), cs_LastHash = cs_LastHash (cw_state (l_chain l)),
      cs_LastHMAC = e_HMAC (last es), cs_Algorithm = algo, cs_LegacyAck = False, cs_HasHMACKey = (?key \<noteq> [])\<rparr>" for algo
    by (simp add: recoverFromLog_def step)
  then show ?thesis
    using assms(2) by (simp add: newChainWriter_def chainedOptions_def loadState_def statePathFor_def fsGet_del
        zeroChainState_def Let_def ChainSnapshot_def)
qed

text \<open>The event the first write of the concrete run seals.\<close>

definition demoFirst :: "gotime \<Rightarrow> Event" where
  "demoFirst t = (let e = zeroEvent\<lparr>e_SchemaVersion := SchemaVersion, e_Timestamp := Some t, e_Host := ''host'',
        e_IntegrityVersion := IntegrityVersion, e_ChainID := ''edr-00ff'', e_Seq := 1\<rparr>;
      h = demoDigest (demoMarshal e)
      in e\<lparr>e_Hash := h, e_HMAC := demoDigest (''key'' @ h)\<rparr>)"

lemma demo_first_file:
  assumes "writeAll demoLib (demoLogger 0) [] [(quiet t, zeroEvent)] = (errs, l, fs)"
  shows "fsGet fs ''/l/e'' = Some (unlines [demoMarshal (demoFirst t)])"
  using assms
  by (simp add: Write_def Let_def fillDefaults_def quiet_def demoLogger_def zeroEvent_def Seal_def sealChain_def newHasher_def
      zeroChainState_def newChainID_def chainEventBytes_def stripIntegrity_def saveState_def fsRename_def appendLine_def
      rotateIfNeeded_def copies_def stripHash_def demoFirst_def fsGet_del split: prod.splits option.splits) (auto simp: fsGet_del)

theorem lost_state_recovered_witness:
  "\<exists>errs l fs cw. writeAll demoLib (demoLogger 0) [] [(quiet 1, zeroEvent)] = (errs, l, fs)
     \<and> newChainWriter demoLib False False (fsDel fs ''/l/e.state'') ''/l/e'' (op_Integrity (demoOpts 0)) = (cw, [StateRecovered])
     \<and> cs_LastHash (cw_state cw) = cs_LastHash (ChainSnapshot (Some l))"
proof -
  let ?ws = "[(quiet 1, zeroEvent)]"
  obtain errs l fs where run: "writeAll demoLib (demoLogger 0) [] ?ws = (errs, l, fs)" by (metis surj_pair)
  have "plainS (e_HMAC zeroEvent)" by (simp add: zeroEvent_def)
  then have w: "\<forall>w \<in> set ?ws. goodWrite demoLib (demoLogger 0) w" by (simp add: demo_goodWrite)
  have o: "chainedOptions (demoOpts 0)" "\<not> oe_stateReadFault demoOpen"
    by (simp_all add: chainedOptions_def demoOpts_def algorithm_def newHasher_def demoOpen_def)
  have "length (demoMarshal (demoFirst 1)) < 2 ^ 20"
    by (simp add: length_demoMarshal) (simp add: demoFirst_def Let_def zeroEvent_def IntegrityVersion_def demoDigest_def length_natStr_digit)
  then have len: "\<forall>x \<in> set (linesOf (case fsGet fs ''/l/e'' of Some c \<Rightarrow> c | None \<Rightarrow> [])). length x < 2 ^ 20"
    by (simp add: demo_first_file [OF run] del: unlines_simps)
  from lost_state_recovered [OF demo_goodLib o(1) demo_open o(2) w _ run len] run show ?thesis by auto
qed

end
