(* ===== verification/System.thy ===== *)
theory System
  imports Agent EventLog
begin

text \<open>
  The agent together with what it acts on.  What the agent relies on in its logger and its
  responder, and what follows for each of its handlers, is a locale; it is interpreted twice
  on the logger and the responder of the program, once for the signals the host sees and once
  for the log on disk.  The runs of the whole system are a step relation: the cycles, the
  kernel events, the deferred evaluations, the response writer, changes of policy and the
  shutdown come in any order, and the kernel may answer differently every time.
\<close>

section \<open>What the agent relies on\<close>

text \<open>An event whose integrity fields are still to be filled in by the logger.\<close>

definition unsealed :: "Event \<Rightarrow> bool" where
  "unsealed e \<longleftrightarrow> e_IntegrityVersion e = [] \<and> e_ChainID e = [] \<and> e_Seq e = 0 \<and> e_PrevHash e = [] \<and> e_Hash e = [] \<and> e_HMAC e = []"

locale audit_services =
  fixes env :: "'w Env" and rel :: "'w \<Rightarrow> 'w \<Rightarrow> bool"
  assumes rel_refl: "rel w w"
    and rel_trans: "rel w w' \<Longrightarrow> rel w' w'' \<Longrightarrow> rel w w''"
    and write_rel: "unsealed e \<Longrightarrow> rel w (writeLog env e w)"
    and apply_rel: "rel w (snd (applyReq env req w))"
begin

lemma audit_unsealed: "unsealed (auditEvent now cat subj obj rule)"
  by (simp add: unsealed_def auditEvent_def zeroEvent_def)

lemma fold_rel: "(\<And>x s. x \<in> set xs \<Longrightarrow> rel (snd s) (snd (f x s))) \<Longrightarrow> rel (snd s) (snd (fold f xs s))"
proof (induction xs arbitrary: s)
  case (Cons x xs)
  then have "rel (snd s) (snd (f x s))" "rel (snd (f x s)) (snd (fold f xs (f x s)))" by auto
  then show ?case using rel_trans by simp
qed (simp add: rel_refl)

lemma write_after: "rel w w1 \<Longrightarrow> unsealed e \<Longrightarrow> rel w (writeLog env e w1)"
  using rel_trans write_rel by blast

lemma applyResponse_rel: "rel (snd s) (snd (applyResponse env rule cat subj obj proc s))"
proof (cases "requestFor rule cat obj proc")
  case (Some req)
  have "rel (snd s) (writeLog env e (snd (applyReq env req (snd s))))" if "unsealed e" for e
    using write_after [OF apply_rel that] .
  with Some show ?thesis
    by (cases s) (simp add: applyResponse_def split_beta Let_def unsealed_def zeroEvent_def)
qed (simp add: applyResponse_def rel_refl)

lemma auditLoop_rel: "rel (snd s) (snd (auditLoop env now cat subj obj proc rules s))"
proof (induction rules arbitrary: s)
  case (Cons rule rules)
  obtain a w where s: "s = (a, w)" by (metis surj_pair)
  obtain ok a' where k: "allowAndRecord env cat (r_ID rule) (dedupKeyForRule cat rule subj obj proc) a = (ok, a')"
    by (metis surj_pair)
  let ?w = "if ok then writeLog env (auditEvent now cat subj obj rule) w else w"
  have "rel w ?w" using write_rel [OF audit_unsealed] by (simp add: rel_refl)
  from rel_trans [OF this] Cons [of "(a', ?w)"] show ?case by (simp add: s k)
qed (simp add: rel_refl)

lemma applyMatchSet_rel: "rel (snd s) (snd (applyMatchSet env now ms cat subj obj proc s))"
proof -
  obtain resp audit where d: "AggregatedDecision ms = (resp, audit)" by (metis surj_pair)
  obtain a1 w1 where l: "auditLoop env now cat subj obj proc audit s = (a1, w1)" by (metis surj_pair)
  have w1: "rel (snd s) w1" using auditLoop_rel [of s now cat subj obj proc audit] l by simp
  have "rel (snd s) (snd (applyResponse env rule cat subj obj proc (a2, w1)))" for rule a2
    using rel_trans [OF w1] applyResponse_rel [of "(a2, w1)"] by simp
  with w1 d l show ?thesis by (simp add: applyMatchSet_def split: option.split prod.split)
qed

lemma handleProcess_rel: "rel (snd s) (snd (handleProcess env pol now p s))"
proof -
  have "rel (snd s) (snd (applyResponse env rule ''process'' subj None pr (a, snd s)))" for rule subj pr a
    using applyResponse_rel [of "(a, snd s)"] by simp
  then show ?thesis
    by (simp add: handleProcess_def Let_def rel_refl applyMatchSet_rel split: option.split prod.split)
qed

lemma handleFileEvent_rel: "rel (snd s) (snd (handleFileEvent env pol now e s))"
proof -
  have "rel w (snd (applyMatchSet env now ms cat subj obj proc (a, w)))" for a w ms cat subj obj proc
    using applyMatchSet_rel [of "(a, w)"] by simp
  then show ?thesis
    by (cases s) (simp add: handleFileEvent_def Let_def split_beta write_rel unsealed_def zeroEvent_def)
qed

lemma handleConnection_rel: "rel (snd s) (snd (handleConnection env pol now c s))"
  by (simp add: handleConnection_def Let_def rel_refl applyMatchSet_rel)

lemma RunOnce_rel: "rel (snd s) (snd (snd (RunOnce env ctxErr readErr snap mkdirOK writeFault s)))"
proof -
  have "rel (snd s0) (snd (fold (handleConnection env pol now) cs (fold (handleFileEvent env pol now) fes (fold (handleProcess env pol now) ps s0))))"
    for s0 pol now cs fes ps
    by (intro rel_trans [OF fold_rel rel_trans [OF fold_rel fold_rel]] handleProcess_rel handleFileEvent_rel handleConnection_rel)
  from this [of "(a, snd s)" for a] show ?thesis
    by (simp add: RunOnce_def Let_def split_beta rel_refl split: option.split sum.split)
qed

lemma exec_rel: "rel (snd s) (snd (handleFastPathExec env ev s))"
  by (cases s) (simp add: handleFastPathExec_def Let_def split_beta rel_refl apply_rel split: option.split)

lemma processDeferredEval_rel: "rel (snd s) (snd (processDeferredEval env de s))"
proof -
  have "rel w (snd (applyMatchSet env now ms cat subj obj proc (a, w)))" for a w now ms cat subj obj proc
    using applyMatchSet_rel [of "(a, w)"] by simp
  then show ?thesis
    by (cases s) (simp add: processDeferredEval_def Let_def split_beta rel_refl write_rel unsealed_def zeroEvent_def)
qed

lemma handleDeferredEval_rel: "rel (snd s) (snd (handleDeferredEval env s))"
proof -
  have "rel (snd s) (snd (processDeferredEval env de (a, snd s)))" for de a
    using processDeferredEval_rel [of "(a, snd s)"] by simp
  then show ?thesis by (simp add: handleDeferredEval_def rel_refl split: option.split list.split)
qed

lemma writes_rel: "(\<And>r. unsealed (f r)) \<Longrightarrow> rel w (fold (\<lambda>r. writeLog env (f r)) rs w)"
  by (induction rs arbitrary: w) (auto simp: rel_refl intro: rel_trans [OF write_rel])

lemma writes_apply_rel: "(\<And>r. unsealed (f r)) \<Longrightarrow> rel w (snd (applyReq env req (fold (\<lambda>r. writeLog env (f r)) rs w)))"
  by (rule rel_trans [OF writes_rel apply_rel])

lemma detect_rel: "rel (snd s) (snd (detect env ev label subj subject brief s))"
  by (cases s) (simp add: detect_def Let_def split_beta rel_refl writes_rel writes_apply_rel unsealed_def zeroEvent_def
      split: option.split)

text \<open>All events but those of the self protection.\<close>

lemma fastPath_quiet_rel: "b_Type ev \<noteq> EventSelfProtect \<Longrightarrow> rel (snd s) (snd (fastPath env ev s))"
  by (simp add: fastPath_def exec_rel rel_refl handleFastPathPtraceEnh_def handleFastPathLDPreload_def
      handleFastPathInstrument_def Let_def detect_rel split: EventType.split)

end

text \<open>The self protection also kills attackers by itself.\<close>

locale agent_services = audit_services +
  assumes kill_rel: "1 < pid \<Longrightarrow> rel w (snd (pidfdKill env pid w))"
    and sysKill_rel: "1 < pid \<Longrightarrow> rel w (sysKill env pid w)"
begin

lemma kill_write_rel:
  assumes "1 < pid" "unsealed e"
  shows "rel w (writeLog env e (if failed then sysKill env pid (snd (pidfdKill env pid w)) else snd (pidfdKill env pid w)))"
  using assms by (simp add: write_after kill_rel rel_trans [OF kill_rel sysKill_rel])

lemma selfProtect_rel: "rel (snd s) (snd (handleFastPathSelfProtect env ev s))"
proof -
  have u: "unsealed (selfProtectEvent a b c d e)" for a b c d e
    by (simp add: unsealed_def selfProtectEvent_def zeroEvent_def)
  show ?thesis
    by (cases s) (simp add: handleFastPathSelfProtect_def Let_def split_beta write_rel u rel_trans [OF write_rel kill_write_rel]
        del: if_split split: if_split_asm)
qed

lemma fastPath_rel: "rel (snd s) (snd (fastPath env ev s))"
  using fastPath_quiet_rel [of ev s] selfProtect_rel [of s ev] by (cases "b_Type ev = EventSelfProtect") (simp_all add: fastPath_def)

end

section \<open>Files and requests\<close>

text \<open>Responses leave the files alone unless they quarantine.\<close>

definition keepsFiles :: "SoftResponder \<Rightarrow> Kernel \<Rightarrow> bool" where
  "keepsFiles r k \<longleftrightarrow> DryRun r \<or> q_DryRun (Quarantine r) \<or> k_mkdir k (q_Dir (Quarantine r)) \<noteq> None"

lemma deliver_fs [simp]: "h_fs (deliver pid sig h) = h_fs h"
  by (simp add: deliver_def)

lemma signal_fs:
  "h_fs (snd (PidfdKill k pid h)) = h_fs h" "h_fs (snd (pidfdSignal k pid sig h)) = h_fs h"
  "h_fs (snd (plainSignal k pid sig h)) = h_fs h"
  by (simp_all add: PidfdKill_def pidfdSignal_def plainSignal_def split: sum.split option.split)

lemma killNow_fs: "h_fs (snd (killNow k act pid h)) = h_fs h"
  by (simp add: killNow_def split_beta signal_fs split: option.split pidfd_error.split)

lemma killSingleProcess_fs: "h_fs (snd (killSingleProcess k pid path ticks h)) = h_fs h"
  by (simp add: killSingleProcess_def killNow_fs)

lemma killEach_fs: "h_fs (snd (snd (killEach k rootPid ds (n, es, h)))) = h_fs h"
  by (induction ds arbitrary: n es h) (simp_all add: split_beta killSingleProcess_fs)

lemma KillTree_fs: "h_fs (snd (KillTree k pid path ticks h)) = h_fs h"
  by (simp add: KillTree_def Let_def split_beta killSingleProcess_fs killEach_fs split: sum.split)

lemma Suspend_fs: "h_fs (snd (Suspend k pid path ticks h)) = h_fs h"
  by (simp add: Suspend_def Let_def split_beta signal_fs split: option.split pidfd_error.split)

lemma runCommands_fs: "h_fs (snd (runCommands k cmds h)) = h_fs h"
  by (induction cmds arbitrary: h) (simp_all add: Let_def split: prod.split option.split)

lemma nft_fs: "h_fs (snd (ApplyBlock k p req h)) = h_fs h" "h_fs (snd (ApplyIsolate k p h)) = h_fs h"
  by (simp_all add: ApplyBlock_def ApplyIsolate_def Let_def split_beta runCommands_fs split: option.split)

lemma chmod_fs: "h_fs (snd (chmodNoFollow k path mode h)) = h_fs h"
  by (simp add: chmodNoFollow_def setMode_def split: option.split errno.split)

lemma Apply_fs:
  assumes "keepsFiles r k"
  shows "h_fs (snd (Apply codec k r req h)) = h_fs h"
proof -
  have q: "\<not> DryRun r \<Longrightarrow> h_fs (snd (ApplyQuarantine codec k (Quarantine r) path rid h)) = h_fs h" for path rid
    using assms by (auto simp: ApplyQuarantine_def keepsFiles_def)
  have c: "h_fs (snd (case chmodNoFollow k path mode h of (Some d, h') \<Rightarrow> (x d, h') | (None, h') \<Rightarrow> (y, h'))) = h_fs h"
    for path mode and x :: "string \<Rightarrow> Result" and y
    by (simp add: split_beta chmod_fs split: option.split)
  show ?thesis
    unfolding Apply_def Let_def by (simp add: q c killNow_fs KillTree_fs Suspend_fs nft_fs)
qed

section \<open>The services of the program\<close>

text \<open>
  The logger and the responder of the program as the services of the agent.  The logger and
  the host share one file system; the environment of a write may depend on the event and the
  state of the logger, the kernel's answers on the state of the host.
\<close>

type_synonym machine = "Logger \<times> Host"

definition services :: "Lib \<Rightarrow> (Event \<Rightarrow> Logger \<Rightarrow> WriteEnv) \<Rightarrow> metaCodec \<Rightarrow> (Host \<Rightarrow> Kernel) \<Rightarrow> SoftResponder
    \<Rightarrow> machine Env \<Rightarrow> machine Env" where
  "services lib wenv codec kern r env = env\<lparr>
     writeLog := (\<lambda>e (l, h). case Write lib (wenv e l) l (h_fs h) e of (_, l', fs', _) \<Rightarrow> (l', h\<lparr>h_fs := fs'\<rparr>)),
     applyReq := (\<lambda>req (l, h). case Apply codec (kern h) r req h of (res, h') \<Rightarrow> (res, (l, h'))),
     pidfdKill := (\<lambda>pid (l, h). case PidfdKill (kern h) pid h of (err, h') \<Rightarrow> (err \<noteq> None, (l, h'))),
     sysKill := (\<lambda>pid (l, h). (l, if k_signal (kern h) pid SIGKILL = None then deliver pid SIGKILL h else h))\<rparr>"

definition sparesRel :: "machine \<Rightarrow> machine \<Rightarrow> bool" where
  "sparesRel w w' = signalsOnly (\<lambda>p. 1 < p) (snd w) (snd w')"

interpretation sparing: agent_services "services lib wenv codec kern r env" sparesRel
proof
  fix w w' w'' :: machine and e req and pid :: int
  show "sparesRel w w" by (simp add: sparesRel_def)
  show "sparesRel w w' \<Longrightarrow> sparesRel w' w'' \<Longrightarrow> sparesRel w w''"
    unfolding sparesRel_def by (rule signalsOnly_trans)
  show "sparesRel w (writeLog (services lib wenv codec kern r env) e w)"
    by (simp add: services_def sparesRel_def split_beta signalsOnly_same)
  show "sparesRel w (snd (applyReq (services lib wenv codec kern r env) req w))"
    by (simp add: services_def sparesRel_def split_beta Apply_only)
  assume "1 < pid"
  then show "sparesRel w (snd (pidfdKill (services lib wenv codec kern r env) pid w))"
    using signalsOnly_mono [OF PidfdKill_only [OF prod.collapse [symmetric]], where Q = "\<lambda>p. 1 < p"]
    by (simp add: services_def sparesRel_def split_beta)
  from \<open>1 < pid\<close> show "sparesRel w (sysKill (services lib wenv codec kern r env) pid w)"
    by (simp add: services_def sparesRel_def split_beta signalsOnly_deliver)
qed

text \<open>The log and the files only change by writes of unsealed events, in environments that satisfy \<open>W\<close>.\<close>

definition logsOnly :: "Lib \<Rightarrow> (WriteEnv \<Rightarrow> bool) \<Rightarrow> machine \<Rightarrow> machine \<Rightarrow> bool" where
  "logsOnly lib W w w' \<longleftrightarrow> (\<exists>ws errs. (\<forall>x \<in> set ws. W (fst x) \<and> unsealed (snd x))
     \<and> writeAll lib (fst w) (h_fs (snd w)) ws = (errs, fst w', h_fs (snd w')))"

lemma writeAll_append:
  "writeAll lib l fs (ws @ ws') = (case writeAll lib l fs ws of (errs, l1, fs1) \<Rightarrow>
     case writeAll lib l1 fs1 ws' of (errs', l2, fs2) \<Rightarrow> (errs @ errs', l2, fs2))"
proof (induction lib l fs ws rule: writeAll.induct)
  case (2 lib l fs env e ws)
  then show ?case by (simp split: prod.split)
qed simp

lemma logsOnly_same: "fst w' = fst w \<Longrightarrow> h_fs (snd w') = h_fs (snd w) \<Longrightarrow> logsOnly lib W w w'"
  unfolding logsOnly_def by (rule exI [of _ "[]"]) simp

lemma logsOnly_trans: "logsOnly lib W w w' \<Longrightarrow> logsOnly lib W w' w'' \<Longrightarrow> logsOnly lib W w w''"
proof -
  assume "logsOnly lib W w w'" "logsOnly lib W w' w''"
  then obtain ws errs ws' errs' where "\<forall>x \<in> set ws. W (fst x) \<and> unsealed (snd x)" "\<forall>x \<in> set ws'. W (fst x) \<and> unsealed (snd x)"
    "writeAll lib (fst w) (h_fs (snd w)) ws = (errs, fst w', h_fs (snd w'))"
    "writeAll lib (fst w') (h_fs (snd w')) ws' = (errs', fst w'', h_fs (snd w''))"
    unfolding logsOnly_def by blast
  then have "writeAll lib (fst w) (h_fs (snd w)) (ws @ ws') = (errs @ errs', fst w'', h_fs (snd w''))"
    "\<forall>x \<in> set (ws @ ws'). W (fst x) \<and> unsealed (snd x)" by (auto simp: writeAll_append)
  then show ?thesis unfolding logsOnly_def by blast
qed

definition logRel :: "Lib \<Rightarrow> (WriteEnv \<Rightarrow> bool) \<Rightarrow> (Event \<Rightarrow> Logger \<Rightarrow> WriteEnv) \<Rightarrow> (Host \<Rightarrow> Kernel) \<Rightarrow> SoftResponder \<Rightarrow> machine \<Rightarrow> machine \<Rightarrow> bool" where
  "logRel lib W wenv kern r w w' \<longleftrightarrow> ((\<forall>e l. W (wenv e l)) \<and> (\<forall>h. keepsFiles r (kern h)) \<longrightarrow> logsOnly lib W w w')"

lemma logsOnly_write:
  "unsealed e \<Longrightarrow> W we \<Longrightarrow> Write lib we (fst w) (h_fs (snd w)) e = (err, fst w', h_fs (snd w'), sent) \<Longrightarrow> logsOnly lib W w w'"
  unfolding logsOnly_def by (rule exI [of _ "[(we, e)]"]) simp

interpretation logging: agent_services "services lib wenv codec kern r env" "logRel lib W wenv kern r"
proof
  fix w w' w'' :: machine and e req and pid :: int
  show "logRel lib W wenv kern r w w" by (simp add: logRel_def logsOnly_same)
  show "logRel lib W wenv kern r w w' \<Longrightarrow> logRel lib W wenv kern r w' w'' \<Longrightarrow> logRel lib W wenv kern r w w''"
    unfolding logRel_def using logsOnly_trans by blast
  show "unsealed e \<Longrightarrow> logRel lib W wenv kern r w (writeLog (services lib wenv codec kern r env) e w)"
    by (auto simp: logRel_def services_def split: prod.split intro!: logsOnly_write)
  show "logRel lib W wenv kern r w (snd (applyReq (services lib wenv codec kern r env) req w))"
    by (simp add: logRel_def services_def split_beta logsOnly_same Apply_fs)
  show "logRel lib W wenv kern r w (snd (pidfdKill (services lib wenv codec kern r env) pid w))"
    by (simp add: logRel_def services_def split_beta logsOnly_same signal_fs)
  show "logRel lib W wenv kern r w (sysKill (services lib wenv codec kern r env) pid w)"
    by (simp add: logRel_def services_def split_beta logsOnly_same)
qed

section \<open>Runs of the system\<close>

type_synonym sys = "machine st"

text \<open>
  One step, with a disk whose answers to the logger satisfy \<open>W\<close> and a kernel whose answers satisfy \<open>K\<close>: a cycle with any snapshot, an event of
  the fast path, one deferred evaluation, one record of the response writer, a change of
  policy, of the map filler or of the health provider, the shutdown.
\<close>

inductive agentStep :: "Lib \<Rightarrow> metaCodec \<Rightarrow> SoftResponder \<Rightarrow> (WriteEnv \<Rightarrow> bool) \<Rightarrow> (Kernel \<Rightarrow> bool) \<Rightarrow> sys \<Rightarrow> sys \<Rightarrow> bool"
  for lib codec r W K where
  cycle: "\<forall>e l. W (wenv e l) \<Longrightarrow> \<forall>h. K (kern h) \<Longrightarrow>
    agentStep lib codec r W K s (snd (RunOnce (services lib wenv codec kern r env) ctxErr readErr snap mkdirOK writeFault s))"
| fast: "\<forall>e l. W (wenv e l) \<Longrightarrow> \<forall>h. K (kern h) \<Longrightarrow> agentStep lib codec r W K s (fastPath (services lib wenv codec kern r env) ev s)"
| deferred: "\<forall>e l. W (wenv e l) \<Longrightarrow> \<forall>h. K (kern h) \<Longrightarrow> agentStep lib codec r W K s (handleDeferredEval (services lib wenv codec kern r env) s)"
| writer: "agentStep lib codec r W K (a, w) (responseWriter (env :: machine Env) okOpen fault a, w)"
| policy: "agentStep lib codec r W K (a, w) (ReplacePolicy rcAdd rcDel p a, w)"
| filler: "agentStep lib codec r W K (a, w) (SetMapFiller mf a, w)"
| health: "agentStep lib codec r W K (a, w) (SetBPFHealthProvider fn a, w)"
| stop: "agentStep lib codec r W K (a, w) (Shutdown (ClearAgentPID rc a), w)"

lemma step_spares: "agentStep lib codec r W K s s' \<Longrightarrow> sparesRel (snd s) (snd s')"
  by (induction rule: agentStep.induct)
    (simp_all add: sparing.rel_refl sparing.RunOnce_rel sparing.fastPath_rel sparing.handleDeferredEval_rel)

lemma step_logs: "agentStep lib codec r W (keepsFiles r) s s' \<Longrightarrow> logsOnly lib W (snd s) (snd s')"
proof (induction rule: agentStep.induct)
  case (cycle wenv kern s env ctxErr readErr snap mkdirOK writeFault)
  with logging.RunOnce_rel [of lib W wenv kern r s] show ?case by (simp add: logRel_def)
next
  case (fast wenv kern s env ev)
  with logging.fastPath_rel [of lib W wenv kern r s] show ?case by (simp add: logRel_def)
next
  case (deferred wenv kern s env)
  with logging.handleDeferredEval_rel [of lib W wenv kern r s] show ?case by (simp add: logRel_def)
qed (simp_all add: logsOnly_same)

lemma run_logs: "(agentStep lib codec r W (keepsFiles r))\<^sup>*\<^sup>* s s' \<Longrightarrow> logsOnly lib W (snd s) (snd s')"
proof (induction rule: rtranclp_induct)
  case (step s1 s2)
  from logsOnly_trans [OF step.IH step_logs [OF step.hyps(2)]] show ?case .
qed (simp add: logsOnly_same)



section \<open>Dry run\<close>

text \<open>The host as it was, but for the files the logger writes.\<close>

definition untouched :: "Host \<Rightarrow> Host \<Rightarrow> bool" where
  "untouched h h' \<longleftrightarrow> h_signals h' = h_signals h \<and> h_commands h' = h_commands h \<and> h_modes h' = h_modes h \<and> h_suspended h' = h_suspended h"

definition dryRel :: "SoftResponder \<Rightarrow> machine \<Rightarrow> machine \<Rightarrow> bool" where
  "dryRel r w w' \<longleftrightarrow> (DryRun r \<longrightarrow> untouched (snd w) (snd w'))"

interpretation dry: audit_services "services lib wenv codec kern r env" "dryRel r"
  by unfold_locales (auto simp: dryRel_def untouched_def services_def split_beta Apply_def)

text \<open>The steps that do not begin with an attack on the agent itself.\<close>

inductive quietStep :: "Lib \<Rightarrow> metaCodec \<Rightarrow> SoftResponder \<Rightarrow> sys \<Rightarrow> sys \<Rightarrow> bool" for lib codec r where
  cycle: "quietStep lib codec r s (snd (RunOnce (services lib wenv codec kern r env) ctxErr readErr snap mkdirOK writeFault s))"
| fast: "b_Type ev \<noteq> EventSelfProtect \<Longrightarrow> quietStep lib codec r s (fastPath (services lib wenv codec kern r env) ev s)"
| deferred: "quietStep lib codec r s (handleDeferredEval (services lib wenv codec kern r env) s)"
| agent: "quietStep lib codec r (a, w) (a', w)"

lemma quiet_dry: "quietStep lib codec r s s' \<Longrightarrow> dryRel r (snd s) (snd s')"
  by (induction rule: quietStep.induct) (simp_all add: dry.rel_refl dry.RunOnce_rel dry.fastPath_quiet_rel dry.handleDeferredEval_rel)


section \<open>Example runs\<close>

text \<open>Process 7 runs \<open>nc\<close>, which the policy kills; process 9 attacks the agent.\<close>

definition demoServices :: "SoftResponder \<Rightarrow> machine Env" where
  "demoServices r = services demoLib (\<lambda>_ _. quiet 1) demoCodec (\<lambda>_. demoKernel) r
     \<lparr>clk = int, wall = (\<lambda>_. \<lparr>Hour = 0, Minute = 0\<rparr>), writeLog = (\<lambda>_ w. w), applyReq = (\<lambda>_ w. (result [] True [], w)),
      pidfdKill = (\<lambda>_ w. (False, w)), sysKill = (\<lambda>_ w. w),
      procs = \<lparr>pf_dir = Map.empty, pf_file = Map.empty, pf_exe = Map.empty, pf_userName = Map.empty\<rparr>,
      mapsRead = Map.empty, aliveFirst = (\<lambda>_. True), aliveAgain = (\<lambda>_. True), ownPID = 77,
      supMarshal = Map.empty, supUnmarshal = Map.empty, recMarshal = Map.empty\<rparr>"




end
