(* ===== verification/EventQuery.thy ===== *)
theory EventQuery
  imports EventChain
begin

text \<open>
  The queries of the control server over the event log, \<open>internal/control/server.go\<close>: the
  search with filters and pages, and the check of a single event.  A decoded JSON object is an
  association list; the JSON decoder and the parser of RFC 3339 times are parameters.
\<close>

datatype json = JNull | JBool bool | JNum string | JStr string | JArr "json list" | JObj "(string \<times> json) list"

type_synonym jobject = "(string \<times> json) list"

record QueryLib =
  decodeObject :: "string \<Rightarrow> jobject option"
  parseTime :: "string \<Rightarrow> gotime option"

record eventQuery =
  q_Limit :: int
  q_Offset :: int
  q_Category :: string
  q_Severity :: string
  q_RuleID :: string
  q_FilePath :: string
  q_FileOp :: string
  q_SubjectName :: string
  q_SubjectPath :: string
  q_SubjectCmdline :: string
  q_Since :: "gotime option"
  q_Until :: "gotime option"

record eventQueryResult =
  qr_Events :: "jobject list"
  qr_Count :: int
  qr_Total :: int
  qr_Offset :: int
  qr_Limit :: int

section \<open>Parameters of a request\<close>

definition defaultEventLimit :: int where "defaultEventLimit = 50"
definition maxEventLimit :: int where "maxEventLimit = 1000"

definition intParam :: "(string \<Rightarrow> string) \<Rightarrow> string \<Rightarrow> int \<Rightarrow> int" where
  "intParam query k fallback =
     (let v = trimSpace (query k) in
      if v = [] then fallback
      else (case atoi v of None \<Rightarrow> fallback | Some n \<Rightarrow> if n < 0 then fallback else n))"

definition timeParam :: "QueryLib \<Rightarrow> (string \<Rightarrow> string) \<Rightarrow> string \<Rightarrow> gotime option" where
  "timeParam ql query k = (let v = trimSpace (query k) in if v = [] then None else parseTime ql v)"

definition clampEventLimit :: "int \<Rightarrow> int" where
  "clampEventLimit n = (if n \<le> 0 then defaultEventLimit else if n > maxEventLimit then maxEventLimit else n)"

definition eventQueryFromRequest :: "QueryLib \<Rightarrow> (string \<Rightarrow> string) \<Rightarrow> eventQuery" where
  "eventQueryFromRequest ql query =
     \<lparr>q_Limit = intParam query ''limit'' defaultEventLimit, q_Offset = intParam query ''offset'' 0,
      q_Category = query ''category'', q_Severity = query ''severity'', q_RuleID = query ''rule_id'',
      q_FilePath = query ''file_path'', q_FileOp = query ''file_op'', q_SubjectName = query ''subject_name'',
      q_SubjectPath = query ''subject_path'', q_SubjectCmdline = query ''subject_cmdline'',
      q_Since = timeParam ql query ''since'', q_Until = timeParam ql query ''until''\<rparr>"

section \<open>Filters\<close>

text \<open>A type assertion to a string whose failure gives the empty string, and one to a map.\<close>

definition strField :: "jobject \<Rightarrow> string \<Rightarrow> string" where
  "strField obj k = (case map_of obj k of Some (JStr s) \<Rightarrow> s | _ \<Rightarrow> [])"

definition objField :: "jobject \<Rightarrow> string \<Rightarrow> jobject option" where
  "objField obj k = (case map_of obj k of Some (JObj o') \<Rightarrow> Some o' | _ \<Rightarrow> None)"

definition eventMatchesSubject :: "jobject \<Rightarrow> string \<Rightarrow> string \<Rightarrow> string \<Rightarrow> bool" where
  "eventMatchesSubject event name pth cmdline =
     (if name = [] \<and> pth = [] \<and> cmdline = [] then True
      else (case objField event ''subject'' of
              None \<Rightarrow> False
            | Some subj \<Rightarrow>
                (name = [] \<or> strField subj ''name'' = name) \<and> (pth = [] \<or> strField subj ''path'' = pth)
                \<and> (cmdline = [] \<or> strContains (strField subj ''cmdline'') cmdline)))"

definition eventMatchesFile :: "jobject \<Rightarrow> string \<Rightarrow> string \<Rightarrow> bool" where
  "eventMatchesFile event filePath fileOp =
     (if filePath = [] \<and> fileOp = [] then True
      else (case objField event ''object'' of
              None \<Rightarrow> False
            | Some obj \<Rightarrow>
                (filePath = [] \<or> strField obj ''path'' = filePath) \<and> (fileOp = [] \<or> equalFold (strField obj ''op'') fileOp)))"

definition eventInTimeRange :: "QueryLib \<Rightarrow> jobject \<Rightarrow> gotime option \<Rightarrow> gotime option \<Rightarrow> bool" where
  "eventInTimeRange ql event since til =
     (if since = None \<and> til = None then True
      else (let raw = strField event ''timestamp'' in
            if raw = [] then False
            else (case parseTime ql raw of
                    None \<Rightarrow> False
                  | Some ts \<Rightarrow> (case since of None \<Rightarrow> True | Some t \<Rightarrow> \<not> ts < t) \<and> (case til of None \<Rightarrow> True | Some t \<Rightarrow> \<not> ts > t))))"

definition fieldIs :: "jobject \<Rightarrow> string \<Rightarrow> string \<Rightarrow> bool" where
  "fieldIs event k v \<longleftrightarrow> v = [] \<or> map_of event k = Some (JStr v)"

definition hit :: "QueryLib \<Rightarrow> eventQuery \<Rightarrow> jobject \<Rightarrow> bool" where
  "hit ql q event \<longleftrightarrow> fieldIs event ''category'' (q_Category q) \<and> fieldIs event ''severity'' (q_Severity q)
     \<and> fieldIs event ''rule_id'' (q_RuleID q) \<and> eventMatchesFile event (q_FilePath q) (q_FileOp q)
     \<and> eventMatchesSubject event (q_SubjectName q) (q_SubjectPath q) (q_SubjectCmdline q)
     \<and> eventInTimeRange ql event (q_Since q) (q_Until q)"

section \<open>The search\<close>

text \<open>The loop over the lines: the page so far and the number of hits.\<close>

fun pageLoop :: "QueryLib \<Rightarrow> eventQuery \<Rightarrow> int \<Rightarrow> int \<Rightarrow> string list \<Rightarrow> jobject list \<Rightarrow> int \<Rightarrow> jobject list \<times> int" where
  "pageLoop ql q limit offset [] page tot = (page, tot)"
| "pageLoop ql q limit offset (l # ls) page tot =
     (case decodeObject ql l of
        None \<Rightarrow> pageLoop ql q limit offset ls page tot
      | Some event \<Rightarrow>
          if \<not> hit ql q event then pageLoop ql q limit offset ls page tot
          else pageLoop ql q limit offset ls
                 (if tot \<ge> offset \<and> int (length page) < limit then page @ [event] else page) (tot + 1))"

text \<open>\<open>openErr\<close>: the file cannot be opened; \<open>readErr\<close>: reading it fails.\<close>

definition queryEvents :: "QueryLib \<Rightarrow> string option \<Rightarrow> string option \<Rightarrow> filesys \<Rightarrow> string \<Rightarrow> eventQuery \<Rightarrow> string + eventQueryResult" where
  "queryEvents ql openErr readErr fs pth q =
     (if pth = [] then Inl ''event path is not configured''
      else (case (openErr, fsGet fs pth) of
              (Some e, _) \<Rightarrow> Inl e
            | (None, None) \<Rightarrow> Inr \<lparr>qr_Events = [], qr_Count = 0, qr_Total = 0, qr_Offset = q_Offset q, qr_Limit = clampEventLimit (q_Limit q)\<rparr>
            | (None, Some content) \<Rightarrow>
                (let limit = clampEventLimit (q_Limit q);
                     offset = (if q_Offset q < 0 then 0 else q_Offset q)
                 in case readErr of
                      Some e \<Rightarrow> Inl e
                    | None \<Rightarrow>
                        (case pageLoop ql q limit offset (scanLines (2 ^ 20) content) [] 0 of
                           (page, tot) \<Rightarrow>
                             Inr \<lparr>qr_Events = page, qr_Count = int (length page), qr_Total = tot,
                                  qr_Offset = (if offset > tot then tot else offset), qr_Limit = limit\<rparr>))))"

section \<open>One event\<close>

datatype seq_issue = PrevHashBreak string string | SeqHashMismatch string string | HMACMismatch string string

datatype seq_verdict =
    SeqFileMissing "64 word"
  | SeqNotFound "64 word"
  | SeqChecked bool "64 word" string string string bool bool "seq_issue list"
    \<comment> \<open>ok, seq, hash, prev\_hash, chain\_id, has\_hmac, hmac\_ok, issues\<close>

definition checkSeqEvent :: "Lib \<Rightarrow> string \<Rightarrow> 64 word \<Rightarrow> string \<Rightarrow> Event \<Rightarrow> string + seq_verdict" where
  "checkSeqEvent lib key target prevHash e =
     (let i1 = (if e_PrevHash e \<noteq> prevHash \<and> target > 1 then [PrevHashBreak prevHash (e_PrevHash e)] else []) in
      case chainEventBytes lib e of
        None \<Rightarrow> Inl ''marshal''
      | Some payload \<Rightarrow>
          (let want = sha256hex lib (prevHash @ payload);
               i2 = (if e_Hash e \<noteq> want then [SeqHashMismatch want (e_Hash e)] else []);
               wantHMAC = hmacHex lib key (e_Hash e);
               hmacOK = (key = [] \<or> wantHMAC = e_HMAC e);
               i3 = (if hmacOK then [] else [HMACMismatch wantHMAC (e_HMAC e)])
           in Inr (SeqChecked (i1 @ i2 @ i3 = []) target (e_Hash e) (e_PrevHash e) (e_ChainID e) (key \<noteq> []) hmacOK (i1 @ i2 @ i3))))"

fun seqLoop :: "Lib \<Rightarrow> string \<Rightarrow> 64 word \<Rightarrow> string \<Rightarrow> string list \<Rightarrow> string + seq_verdict" where
  "seqLoop lib key target prevHash [] = Inr (SeqNotFound target)"
| "seqLoop lib key target prevHash (l # ls) =
     (case unmarshalEvent lib l of
        Inl _ \<Rightarrow> seqLoop lib key target prevHash ls
      | Inr e \<Rightarrow>
          if e_IntegrityVersion e \<noteq> IntegrityVersion then seqLoop lib key target prevHash ls
          else if e_Seq e = target then checkSeqEvent lib key target prevHash e
          else seqLoop lib key target (e_Hash e) ls)"

definition verifyEventSeq :: "Lib \<Rightarrow> string option \<Rightarrow> filesys \<Rightarrow> string \<Rightarrow> string \<Rightarrow> 64 word \<Rightarrow> string + seq_verdict" where
  "verifyEventSeq lib openErr fs pth key target =
     (case (openErr, fsGet fs pth) of
        (Some e, _) \<Rightarrow> Inl e
      | (None, None) \<Rightarrow> Inr (SeqFileMissing target)
      | (None, Some content) \<Rightarrow>
          (case seqLoop lib key target [] (scanLines (2 ^ 20) content) of
             Inr (SeqNotFound t) \<Rightarrow>
               if scanLines (2 ^ 20) content \<noteq> map dropCR (linesOf content) then Inl ''bufio.Scanner: token too long''
               else Inr (SeqNotFound t)
           | v \<Rightarrow> v))"

section \<open>Properties\<close>

text \<open>The events of a log that a query asks for, in order.\<close>

definition hits :: "QueryLib \<Rightarrow> eventQuery \<Rightarrow> string \<Rightarrow> jobject list" where
  "hits ql q content = filter (hit ql q) (List.map_filter (decodeObject ql) (scanLines (2 ^ 20) content))"

lemma page_step:
  "take k (drop n (xs @ [x])) = (if n \<le> length xs \<and> length (take k (drop n xs)) < k then take k (drop n xs) @ [x] else take k (drop n xs))"
  by (cases "n \<le> length xs") auto

lemma pageLoop_page:
  assumes "0 \<le> limit" "0 \<le> offset"
  shows "pageLoop ql q limit offset ls (take (nat limit) (drop (nat offset) hs)) (int (length hs)) =
    (let all = hs @ filter (hit ql q) (List.map_filter (decodeObject ql) ls)
     in (take (nat limit) (drop (nat offset) all), int (length all)))"
proof (induction ls arbitrary: hs)
  case (Cons l ls)
  show ?case
  proof (cases "decodeObject ql l")
    case (Some ev)
    have grow: "(if offset \<le> int (length hs) \<and> int (length (take (nat limit) (drop (nat offset) hs))) < limit
        then take (nat limit) (drop (nat offset) hs) @ [ev] else take (nat limit) (drop (nat offset) hs))
        = take (nat limit) (drop (nat offset) (hs @ [ev]))"
      unfolding page_step using assms by (simp add: nat_le_iff zless_nat_eq_int_zless)
    show ?thesis using Some Cons [of hs] Cons [of "hs @ [ev]"] grow by (simp add: Let_def add.commute)
  qed (use Cons [of hs] in simp)
qed (simp add: Let_def)

lemma queryEvents_page:
  assumes "pth \<noteq> []" "fsGet fs pth = Some content" "1 \<le> limit" "limit \<le> maxEventLimit" "0 \<le> offset"
  shows "queryEvents ql None None fs pth (q\<lparr>q_Limit := limit, q_Offset := offset\<rparr>) =
    Inr \<lparr>qr_Events = take (nat limit) (drop (nat offset) (hits ql q content)),
         qr_Count = int (length (take (nat limit) (drop (nat offset) (hits ql q content)))),
         qr_Total = int (length (hits ql q content)),
         qr_Offset = min offset (int (length (hits ql q content))), qr_Limit = limit\<rparr>"
proof -
  have "hit ql (q\<lparr>q_Limit := limit, q_Offset := offset\<rparr>) = hit ql q" by (simp add: hit_def fun_eq_iff)
  moreover have "clampEventLimit limit = limit" using assms(3,4) by (simp add: clampEventLimit_def)
  ultimately show ?thesis
    using assms pageLoop_page [of limit offset ql "q\<lparr>q_Limit := limit, q_Offset := offset\<rparr>" "scanLines (2 ^ 20) content" "[]"]
    by (simp add: queryEvents_def Let_def hits_def min_def)
qed

lemma take_chunks: "concat (map (\<lambda>i. take k (drop (i * k) xs)) [0..<n]) = take (n * k) xs"
proof (induction n)
  case (Suc n)
  have "take (n * k) xs @ take k (drop (n * k) xs) = take (n * k + k) xs" by (simp add: take_add)
  with Suc show ?case by (simp add: add.commute)
qed simp


definition demoQueryLib :: QueryLib where
  "demoQueryLib = \<lparr>decodeObject = (\<lambda>l. if l = [] then None else Some [(''category'', JStr l)]), parseTime = (\<lambda>_. None)\<rparr>"

definition demoQuery :: eventQuery where
  "demoQuery = \<lparr>q_Limit = 0, q_Offset = 0, q_Category = ''f'', q_Severity = [], q_RuleID = [], q_FilePath = [], q_FileOp = [],
     q_SubjectName = [], q_SubjectPath = [], q_SubjectCmdline = [], q_Since = None, q_Until = None\<rparr>"


lemma seqLoop_chained:
  assumes "chained lib key prev (chainEvents lib ls)" "e \<in> set (chainEvents lib ls)" "e_Seq e = target"
  shows "\<exists>h p c hm. seqLoop lib key target prev ls = Inr (SeqChecked True target h p c hm True [])"
  using assms
proof (induction ls arbitrary: prev)
  case (Cons l ls)
  show ?case
  proof (cases "\<exists>e'. unmarshalEvent lib l = Inr e' \<and> e_IntegrityVersion e' = IntegrityVersion")
    case True
    then obtain e' where e': "unmarshalEvent lib l = Inr e'" "e_IntegrityVersion e' = IntegrityVersion" by blast
    with Cons.prems(1) have link: "goodLink lib key prev e'" "chained lib key (e_Hash e') (chainEvents lib ls)" by auto
    show ?thesis
    proof (cases "e_Seq e' = target")
      case True
      with e' link(1) show ?thesis
        by (auto simp: checkSeqEvent_def goodLink_def recomputeHash_def Let_def split: option.splits)
    next
      case False
      with e' link(2) Cons.prems Cons.IH [of "e_Hash e'"] show ?thesis by auto
    qed
  next
    case False
    then have "chainEvents lib (l # ls) = chainEvents lib ls" "seqLoop lib key target prev (l # ls) = seqLoop lib key target prev ls"
      by (auto split: sum.splits)
    with Cons.IH [of prev] Cons.prems show ?thesis by simp
  qed
qed simp

text \<open>
  The check of one event agrees with the verification of a log of one file: when
  the events of the file form an unbroken chain from the empty head, every event in it passes
  by its sequence number, on its place, its hash and its HMAC.
\<close>

theorem single_event_check_agrees:
  assumes "fsGet fs pth = Some content" "chained lib key [] (chainEvents lib (scanLines (2 ^ 20) content))"
    and "e \<in> set (chainEvents lib (scanLines (2 ^ 20) content))"
  shows "\<exists>h p c hm. verifyEventSeq lib None fs pth key (e_Seq e) = Inr (SeqChecked True (e_Seq e) h p c hm True [])"
  using seqLoop_chained [OF assms(2,3) refl] assms(1) by (auto simp: verifyEventSeq_def)

lemma demo_scan:
  "scanLines (2 ^ 20) (unlines [demoMarshal demoE1, demoMarshal demoE2]) = [demoMarshal demoE1, demoMarshal demoE2]"
  "scanLines (2 ^ 20) (unlines [demoMarshal demoE2]) = [demoMarshal demoE2]"
  by (rule scanLines_unlines; simp add: demo_text length_demoMarshal demoE1_def demoE2_def demoSeal_def Let_def demoDigest_def
      IntegrityVersion_def zeroEvent_def length_natStr_digit)+

lemma demoE2_fields: "e_Seq demoE2 = 2" "e_PrevHash demoE2 \<noteq> []" "e_IntegrityVersion demoE2 = IntegrityVersion"
  by (simp_all add: demoE2_def demoE1_def demoSeal_def Let_def demoDigest_def)

theorem single_event_check_agrees_witness:
  "\<exists>h p c hm. verifyEventSeq demoLib None demoFs1 ''/l/e'' [] 2 = Inr (SeqChecked True 2 h p c hm True [])"
proof -
  have "chained demoLib [] [] [demoE1, demoE2]" by (simp add: demoE1_def demoE2_def demoSeal_chain)
  then have "\<exists>h p c hm. verifyEventSeq demoLib None demoFs1 ''/l/e'' [] (e_Seq demoE2) = Inr (SeqChecked True (e_Seq demoE2) h p c hm True [])"
    by (intro single_event_check_agrees [OF demo_files(1)]) (simp_all only: demo_scan demo_events, simp_all)
  then show ?thesis by (simp only: demoE2_fields)
qed

text \<open>
  The check of one event ignores the rotated files.  The first event of the current
  file of a log that has been rotated is reported as broken, although the log is intact and
  verifies as a whole.
\<close>

theorem single_event_check_blind_to_rotation:
  assumes "fsGet fs pth = Some content" "scanLines (2 ^ 20) content = l # ls"
    and "unmarshalEvent lib l = Inr e" "e_IntegrityVersion e = IntegrityVersion" "e_PrevHash e \<noteq> []" "1 < e_Seq e"
    and "chainEventBytes lib e \<noteq> None"
  shows "\<exists>h p c hm ok' issues. verifyEventSeq lib None fs pth key (e_Seq e) = Inr (SeqChecked False (e_Seq e) h p c hm ok' issues)
    \<and> PrevHashBreak [] (e_PrevHash e) \<in> set issues"
proof -
  from assms(7) obtain payload where "chainEventBytes lib e = Some payload" by blast
  with assms(3-6) have "\<exists>h p c hm ok' issues. checkSeqEvent lib key (e_Seq e) [] e = Inr (SeqChecked False (e_Seq e) h p c hm ok' issues)
      \<and> PrevHashBreak [] (e_PrevHash e) \<in> set issues"
    by (simp add: checkSeqEvent_def Let_def)
  with assms show ?thesis by (auto simp: verifyEventSeq_def)
qed

theorem single_event_check_blind_to_rotation_witness:
  "(\<exists>res. Verify demoLib False demoFs2 ''/l/e'' [] = Inr res \<and> OK res)
   \<and> (\<exists>h p c hm ok' issues. verifyEventSeq demoLib None demoFs2 ''/l/e'' [] 2 = Inr (SeqChecked False 2 h p c hm ok' issues))"
proof -
  have u: "unmarshalEvent demoLib (demoMarshal demoE2) = Inr demoE2"
    by (simp add: demo_roundtrip demoE2_def demoSeal_chain)
  have p: "1 < e_Seq demoE2" "chainEventBytes demoLib demoE2 \<noteq> None"
    by (simp_all add: demoE2_fields(1) chainEventBytes_def)
  from single_event_check_blind_to_rotation [OF demo_files(2) demo_scan(2) u demoE2_fields(3,2) p, of "[]"]
  have "\<exists>h p c hm ok' issues. verifyEventSeq demoLib None demoFs2 ''/l/e'' [] 2 = Inr (SeqChecked False 2 h p c hm ok' issues)"
    unfolding demoE2_fields(1) by blast
  with demo_verifies [of demoFs2] show ?thesis by blast
qed

end
