(* ===== verification/Security.thy ===== *)
theory Security
  imports Filesys "HOL-Library.Sublist"
begin

text \<open>
  Who may use the control socket and which files it may name, \<open>internal/control/security.go\<close>:
  the credentials of the peer, the checks on them, and the containment of paths below a
  directory.  An absolute path is the list of its components, the root is the empty list.
  What \<open>lstat\<close> tells about a path is an argument; \<open>filepath.Abs\<close>, \<open>Rel\<close> and
  \<open>EvalSymlinks\<close> are those of the Go library.
\<close>

section \<open>Credentials\<close>

record peerCred =
  uid :: "32 word"
  gid :: "32 word"
  pid :: int

text \<open>\<open>ConnContext\<close>: the credentials the kernel gives for a connection, none for other connections.\<close>

definition ConnContext :: "bool \<Rightarrow> bool \<Rightarrow> peerCred option \<Rightarrow> peerCred option" where
  "ConnContext isUnix rawOK ucred =
     (if \<not> isUnix \<or> \<not> rawOK then None
      else (let cred = (case ucred of Some c \<Rightarrow> c | None \<Rightarrow> \<lparr>uid = 0, gid = 0, pid = 0\<rparr>)
            in if uid cred = 0 \<and> gid cred = 0 \<and> pid cred = 0 then None else Some cred))"

definition auditLoginUIDUnset :: "32 word" where
  "auditLoginUIDUnset = 4294967295"

datatype auth_error =
    NoAuthorizedUIDs
  | MissingCredentials
  | NotAuthorized "32 word"
  | InvalidPID int
  | LoginUIDUnreadable
  | LoginUIDInvalid
  | UIDNotRoot "32 word"
  | LoginUIDNotRoot "32 word"

text \<open>\<open>strconv.ParseUint\<close> in base 10 for 32 bits.\<close>

definition parseUint32 :: "string \<Rightarrow> 32 word option" where
  "parseUint32 s = (case parseNat s of Some n \<Rightarrow> if n < 2 ^ 32 then Some (word_of_nat n) else None | None \<Rightarrow> None)"

definition readProcLoginUID :: "(string \<Rightarrow> string option) \<Rightarrow> int \<Rightarrow> auth_error + 32 word" where
  "readProcLoginUID readFile p =
     (if p \<le> 0 then Inl (InvalidPID p)
      else (case readFile (''/proc/'' @ itoa p @ ''/loginuid'') of
              None \<Rightarrow> Inl LoginUIDUnreadable
            | Some raw \<Rightarrow> (case parseUint32 (trimSpace raw) of None \<Rightarrow> Inl LoginUIDInvalid | Some n \<Rightarrow> Inr n)))"

text \<open>The credentials and the login uid are returned with an error too.\<close>

definition shutdownCredential :: "(string \<Rightarrow> string option) \<Rightarrow> peerCred option \<Rightarrow> peerCred \<times> 32 word \<times> auth_error option" where
  "shutdownCredential readFile peer =
     (case peer of
        None \<Rightarrow> (\<lparr>uid = 0, gid = 0, pid = 0\<rparr>, 0, Some MissingCredentials)
      | Some cred \<Rightarrow>
          (case readProcLoginUID readFile (pid cred) of
             Inl e \<Rightarrow> (cred, 0, Some e)
           | Inr n \<Rightarrow> (cred, n, None)))"

definition authorizeRootLogin :: "(string \<Rightarrow> string option) \<Rightarrow> peerCred option \<Rightarrow> peerCred \<times> 32 word \<times> auth_error option" where
  "authorizeRootLogin readFile peer =
     (case shutdownCredential readFile peer of
        (cred, loginUID, Some e) \<Rightarrow> (cred, loginUID, Some e)
      | (cred, loginUID, None) \<Rightarrow>
          if uid cred \<noteq> 0 then (cred, loginUID, Some (UIDNotRoot (uid cred)))
          else if loginUID \<noteq> 0 \<and> loginUID \<noteq> auditLoginUIDUnset then (cred, loginUID, Some (LoginUIDNotRoot loginUID))
          else (cred, loginUID, None))"

definition authorize :: "peerCred option \<Rightarrow> int list \<Rightarrow> auth_error option" where
  "authorize peer allowedUIDs =
     (if allowedUIDs = [] then Some NoAuthorizedUIDs
      else (case peer of
              None \<Rightarrow> Some MissingCredentials
            | Some cred \<Rightarrow>
                if list_ex (\<lambda>u. uid cred = word_of_int u) allowedUIDs then None else Some (NotAuthorized (uid cred))))"

section \<open>Paths\<close>

type_synonym path = "string list"

datatype stat = Absent | StatErr string | LinkTo string | IsDir | IsFile

datatype path_error =
    BaseNotConfigured
  | PathRequired
  | NotExist
  | StatFailed string
  | NotDirectory
  | TooManyLinks
  | NoWorkingDir
  | BaseIsLink
  | EscapesBase
  | ComponentIsLink path
  | MkdirError string

text \<open>\<open>filepath.Clean\<close> on the components of an absolute path.\<close>

fun cleanAux :: "path \<Rightarrow> path \<Rightarrow> path" where
  "cleanAux acc [] = rev acc"
| "cleanAux acc (c # cs) =
     (if c = [] \<or> c = ''.'' then cleanAux acc cs
      else if c = ''..'' then cleanAux (tl acc) cs
      else cleanAux (c # acc) cs)"

definition cleanPath :: "path \<Rightarrow> path" where
  "cleanPath cs = cleanAux [] cs"

text \<open>\<open>filepath.Abs\<close>; \<open>cwd\<close> is the working directory, if it is known.\<close>

definition absPath :: "path option \<Rightarrow> string \<Rightarrow> path_error + path" where
  "absPath cwd s =
     (if hasPrefix s ''/'' then Inr (cleanPath (splitC (CHR ''/'') s))
      else (case cwd of None \<Rightarrow> Inl NoWorkingDir | Some d \<Rightarrow> Inr (cleanPath (d @ splitC (CHR ''/'') s))))"

definition pathText :: "path \<Rightarrow> string" where
  "pathText p = CHR ''/'' # joinS ''/'' p"

text \<open>\<open>filepath.Clean\<close>; a relative path keeps the steps up at its front.\<close>

fun cleanRel :: "string list \<Rightarrow> string list \<Rightarrow> string list" where
  "cleanRel acc [] = rev acc"
| "cleanRel acc (c # cs) =
     (if c = [] \<or> c = ''.'' then cleanRel acc cs
      else if c = ''..'' \<and> acc \<noteq> [] \<and> hd acc \<noteq> ''..'' then cleanRel (tl acc) cs
      else cleanRel (c # acc) cs)"

definition cleanName :: "string \<Rightarrow> string" where
  "cleanName s =
     (if hasPrefix s ''/'' then pathText (cleanPath (splitC (CHR ''/'') s))
      else (let cs = cleanRel [] (splitC (CHR ''/'') s) in if cs = [] then ''.'' else joinS ''/'' cs))"

text \<open>\<open>filepath.Join\<close> of two names, \<open>filepath.Dir\<close> and \<open>filepath.Base\<close>.\<close>

definition joinName :: "string \<Rightarrow> string \<Rightarrow> string" where
  "joinName p n = (if p = [] \<and> n = [] then [] else if p = [] then cleanName n else if n = [] then cleanName p else cleanName (p @ ''/'' @ n))"

definition dirOf :: "string \<Rightarrow> string" where
  "dirOf s = cleanName (case lastIndexC (CHR ''/'') s of Some i \<Rightarrow> take (Suc i) s | None \<Rightarrow> [])"

definition baseOf :: "string \<Rightarrow> string" where
  "baseOf s =
     (let t = trimRightC (CHR ''/'') s in
      if s = [] then ''.'' else if t = [] then ''/''
      else (case lastIndexC (CHR ''/'') t of Some i \<Rightarrow> drop (Suc i) t | None \<Rightarrow> t))"

text \<open>\<open>filepath.Rel\<close> of two absolute clean paths, as components.\<close>

fun relPath :: "path \<Rightarrow> path \<Rightarrow> path" where
  "relPath (b # bs) (t # ts) = (if b = t then relPath bs ts else replicate (Suc (length bs)) ''..'' @ t # ts)"
| "relPath bs ts = replicate (length bs) ''..'' @ ts"

text \<open>
  \<open>filepath.EvalSymlinks\<close>: \<open>n\<close> links may still be followed, \<open>dest\<close> has been resolved, the
  components \<open>rest\<close> of the text are to come.
\<close>

function walkLinks :: "(path \<Rightarrow> stat) \<Rightarrow> nat \<Rightarrow> path \<Rightarrow> path \<Rightarrow> path_error + path" where
  "walkLinks lstat n dest [] = Inr dest"
| "walkLinks lstat n dest (c # rest) =
     (if c = [] \<or> c = ''.'' then walkLinks lstat n dest rest
      else if c = ''..'' then walkLinks lstat n (butlast dest) rest
      else (case lstat (dest @ [c]) of
              Absent \<Rightarrow> Inl NotExist
            | StatErr e \<Rightarrow> Inl (StatFailed e)
            | IsDir \<Rightarrow> walkLinks lstat n (dest @ [c]) rest
            | IsFile \<Rightarrow> if rest \<noteq> [] then Inl NotDirectory else walkLinks lstat n (dest @ [c]) rest
            | LinkTo t \<Rightarrow>
                (case n of
                   0 \<Rightarrow> Inl TooManyLinks
                 | Suc m \<Rightarrow> walkLinks lstat m (if hasPrefix t ''/'' then [] else dest) (splitC (CHR ''/'') t @ rest))))"
  by pat_completeness auto
termination
  by (relation "measures [\<lambda>(_, n, _, _). n, \<lambda>(_, _, _, rest). length rest]") auto

definition EvalSymlinks :: "(path \<Rightarrow> stat) \<Rightarrow> path \<Rightarrow> path_error + path" where
  "EvalSymlinks lstat p = walkLinks lstat 255 [] p"

text \<open>The loop of \<open>resolvePathAllowMissing\<close>, up to the first component that exists.\<close>

function climb :: "(path \<Rightarrow> stat) \<Rightarrow> path \<Rightarrow> path \<Rightarrow> path_error + path \<times> path" where
  "climb lstat cur sfx =
     (case lstat cur of
        Absent \<Rightarrow> if cur = [] then Inr (cur, sfx) else climb lstat (butlast cur) (sfx @ [last cur])
      | StatErr e \<Rightarrow> Inl (StatFailed e)
      | LinkTo t \<Rightarrow> (case EvalSymlinks lstat cur of Inl e \<Rightarrow> Inl e | Inr r \<Rightarrow> Inr (r, sfx))
      | _ \<Rightarrow> Inr (cur, sfx))"
  by pat_completeness auto
termination
  by (relation "measure (\<lambda>(_, cur, _). length cur)") auto

declare climb.simps [simp del]

definition resolvePathAllowMissing :: "(path \<Rightarrow> stat) \<Rightarrow> path option \<Rightarrow> string \<Rightarrow> path_error + path" where
  "resolvePathAllowMissing lstat cwd s =
     (case absPath cwd s of
        Inl e \<Rightarrow> Inl e
      | Inr a \<Rightarrow>
          (case climb lstat a [] of
             Inl e \<Rightarrow> Inl e
           | Inr (cur, sfx) \<Rightarrow>
               (case EvalSymlinks lstat cur of
                  Inl NotExist \<Rightarrow> Inr (cleanPath (cur @ rev sfx))
                | Inl e \<Rightarrow> Inl e
                | Inr resolved \<Rightarrow> Inr (cleanPath (resolved @ rev sfx)))))"

definition isLink :: "stat \<Rightarrow> bool" where
  "isLink st = (case st of LinkTo _ \<Rightarrow> True | _ \<Rightarrow> False)"

definition safePathUnder :: "(path \<Rightarrow> stat) \<Rightarrow> path option \<Rightarrow> string \<Rightarrow> string \<Rightarrow> path_error + path" where
  "safePathUnder lstat cwd baseDir candidate =
     (if trimSpace baseDir = [] then Inl BaseNotConfigured
      else if trimSpace candidate = [] then Inl PathRequired
      else (case resolvePathAllowMissing lstat cwd candidate of
              Inl e \<Rightarrow> Inl e
            | Inr cand \<Rightarrow>
                (case absPath cwd baseDir of
                   Inl e \<Rightarrow> Inl e
                 | Inr base \<Rightarrow>
                     if isLink (lstat base) then Inl BaseIsLink
                     else if relPath base cand \<noteq> [] \<and> hd (relPath base cand) = ''..'' then Inl EscapesBase
                     else Inr cand)))"

text \<open>The prefixes of a path in the order of the walk; the root only when the path is the root.\<close>

definition walk :: "path \<Rightarrow> path list" where
  "walk p = (if p = [] then [[]] else map (\<lambda>i. take i p) [1..<Suc (length p)])"

fun recheckNoSymlink :: "(path \<Rightarrow> stat) \<Rightarrow> path list \<Rightarrow> path_error option" where
  "recheckNoSymlink lstat [] = None"
| "recheckNoSymlink lstat (q # qs) =
     (case lstat q of
        Absent \<Rightarrow> Some NotExist
      | StatErr e \<Rightarrow> Some (StatFailed e)
      | LinkTo _ \<Rightarrow> Some (ComponentIsLink q)
      | _ \<Rightarrow> recheckNoSymlink lstat qs)"

text \<open>\<open>lstat'\<close> is the answer after \<open>MkdirAll\<close>, \<open>mkdirErr\<close> its failure.\<close>

fun validateWalk :: "(path \<Rightarrow> stat) \<Rightarrow> string option \<Rightarrow> (path \<Rightarrow> stat) \<Rightarrow> path \<Rightarrow> path list \<Rightarrow> path_error option" where
  "validateWalk lstat mkdirErr lstat' a [] = None"
| "validateWalk lstat mkdirErr lstat' a (q # qs) =
     (case lstat q of
        Absent \<Rightarrow> (case mkdirErr of Some e \<Rightarrow> Some (MkdirError e) | None \<Rightarrow> recheckNoSymlink lstat' (walk a))
      | StatErr e \<Rightarrow> Some (StatFailed e)
      | LinkTo _ \<Rightarrow> Some (ComponentIsLink q)
      | _ \<Rightarrow> validateWalk lstat mkdirErr lstat' a qs)"

definition ValidateBaseNotSymlink :: "(path \<Rightarrow> stat) \<Rightarrow> string option \<Rightarrow> (path \<Rightarrow> stat) \<Rightarrow> path option \<Rightarrow> string \<Rightarrow> path_error option" where
  "ValidateBaseNotSymlink lstat mkdirErr lstat' cwd s =
     (if trimSpace s = [] then None
      else (case absPath cwd s of
              Inl e \<Rightarrow> Some e
            | Inr a \<Rightarrow> validateWalk lstat mkdirErr lstat' a (walk a)))"

section \<open>Paths: lemmas\<close>

definition ordinary :: "string \<Rightarrow> bool" where
  "ordinary c \<longleftrightarrow> c \<noteq> [] \<and> c \<noteq> ''.'' \<and> c \<noteq> ''..''"

lemma cleanAux_ordinary: "list_all ordinary acc \<Longrightarrow> list_all ordinary (cleanAux acc cs)"
proof (induction acc cs rule: cleanAux.induct)
  case (2 acc c cs)
  from 2(4) have "list_all ordinary (tl acc)" by (cases acc) simp_all
  moreover have "ordinary c \<longleftrightarrow> \<not> (c = [] \<or> c = ''.'') \<and> c \<noteq> ''..''" by (auto simp: ordinary_def)
  ultimately show ?case using 2 by simp
qed (simp add: list_all_rev)

lemma cleanPath_ordinary: "list_all ordinary (cleanPath cs)"
  by (simp add: cleanPath_def cleanAux_ordinary)

lemma cleanAux_id: "list_all ordinary cs \<Longrightarrow> cleanAux acc cs = rev acc @ cs"
  by (induction cs arbitrary: acc) (simp_all add: ordinary_def)

lemma cleanPath_id: "list_all ordinary cs \<Longrightarrow> cleanPath cs = cs"
  by (simp add: cleanPath_def cleanAux_id)

lemma absPath_ordinary: "absPath cwd s = Inr p \<Longrightarrow> list_all ordinary p"
  by (auto simp: absPath_def cleanPath_ordinary split: if_splits option.splits)

text \<open>The relative path leaves the base exactly when the base is not a prefix.\<close>

lemma relPath_prefix:
  "list_all ordinary t \<Longrightarrow> (relPath b t = [] \<or> hd (relPath b t) \<noteq> ''..'') = prefix b t"
proof (induction b arbitrary: t)
  case (Cons b bs)
  then show ?case by (cases t) (auto simp: ordinary_def)
qed (auto simp: ordinary_def neq_Nil_conv)

definition realPath :: "(path \<Rightarrow> stat) \<Rightarrow> path \<Rightarrow> bool" where
  "realPath lstat p \<longleftrightarrow> list_all ordinary p \<and> (\<forall>i \<le> length p. 0 < i \<longrightarrow> lstat (take i p) \<in> {IsDir, IsFile})"

lemma realPath_snoc: "realPath lstat (p @ [c]) \<longleftrightarrow> realPath lstat p \<and> ordinary c \<and> lstat (p @ [c]) \<in> {IsDir, IsFile}"
  by (auto simp: realPath_def le_Suc_eq)

lemma realPath_butlast: "realPath lstat p \<Longrightarrow> realPath lstat (butlast p)"
  by (cases p rule: rev_cases) (simp_all add: realPath_snoc)

lemma walkLinks_real: "walkLinks lstat n dest rest = Inr r \<Longrightarrow> realPath lstat dest \<Longrightarrow> realPath lstat r"
proof (induction lstat n dest rest rule: walkLinks.induct)
  case (2 lstat n dest c rest)
  have nil: "realPath lstat []" by (simp add: realPath_def)
  show ?case
  proof (cases "ordinary c")
    case True
    then have "realPath lstat (dest @ [c])" if "lstat (dest @ [c]) \<in> {IsDir, IsFile}"
      using that 2 by (simp add: realPath_snoc)
    with 2 True nil show ?thesis
      by (auto simp: ordinary_def split: stat.splits nat.splits if_splits)
  qed (use 2 in \<open>auto simp: ordinary_def realPath_butlast\<close>)
qed simp

lemma EvalSymlinks_real: "EvalSymlinks lstat p = Inr r \<Longrightarrow> realPath lstat r"
  by (simp add: EvalSymlinks_def walkLinks_real realPath_def [of lstat "[]"])

lemma climb_parts:
  "climb lstat cur sfx = Inr (cur', sfx') \<Longrightarrow> list_all ordinary cur \<Longrightarrow> list_all ordinary sfx
    \<Longrightarrow> list_all ordinary cur' \<and> list_all ordinary sfx'"
proof (induction lstat cur sfx rule: climb.induct)
  case (1 lstat cur sfx)
  show ?case
  proof (cases "lstat cur")
    case Absent
    have "cur \<noteq> [] \<Longrightarrow> list_all ordinary (butlast cur) \<and> ordinary (last cur)"
      using 1(3) by (cases cur rule: rev_cases) simp_all
    with Absent 1 show ?thesis by (simp add: climb.simps [of lstat cur] split: if_splits)
  qed (use 1 EvalSymlinks_real in \<open>auto simp: climb.simps [of lstat cur] realPath_def split: sum.splits\<close>)
qed

text \<open>What the resolver returns: a resolved part, then the missing components.\<close>

lemma resolve_parts:
  assumes "resolvePathAllowMissing lstat cwd s = Inr p"
  shows "\<exists>r m. p = r @ m \<and> list_all ordinary p
    \<and> (realPath lstat r \<or> (\<exists>cur. r = cur \<and> EvalSymlinks lstat cur = Inl NotExist))"
proof -
  from assms obtain a cur sfx where a: "absPath cwd s = Inr a" "climb lstat a [] = Inr (cur, sfx)"
    by (auto simp: resolvePathAllowMissing_def split: sum.splits prod.splits)
  with climb_parts [OF a(2) absPath_ordinary [OF a(1)]] have o: "list_all ordinary cur" "list_all ordinary (rev sfx)"
    by (auto simp: list_all_rev)
  from assms a consider r where "EvalSymlinks lstat cur = Inr r" "p = cleanPath (r @ rev sfx)"
    | "EvalSymlinks lstat cur = Inl NotExist" "p = cleanPath (cur @ rev sfx)"
    by (auto simp: resolvePathAllowMissing_def split: sum.splits path_error.splits)
  then show ?thesis
  proof cases
    case 1
    from EvalSymlinks_real [OF 1(1)] have "realPath lstat r" "list_all ordinary r" by (auto simp: realPath_def)
    with 1(2) o show ?thesis by (auto simp: cleanPath_id)
  next
    case 2
    with o have "p = cur @ rev sfx" "list_all ordinary p" by (auto simp: cleanPath_id)
    with 2(1) show ?thesis by blast
  qed
qed

section \<open>Properties\<close>


text \<open>\<open>/etc/edr\<close> is a directory, \<open>/etc/edr/out\<close> a link to \<open>/etc\<close>.\<close>

definition demoStat :: "path \<Rightarrow> stat" where
  "demoStat p = (if p = [] \<or> p = [''etc''] \<or> p = [''etc'', ''edr''] then IsDir
     else if p = [''etc'', ''edr'', ''out''] then LinkTo ''/etc'' else Absent)"


text \<open>
  A configuration directory that has been accepted is real: after the check, every
  component of its path is there and none is a symbolic link, whether it existed before or was
  made by the check.
\<close>

theorem validated_base_is_real:
  assumes "ValidateBaseNotSymlink lstat mkdirErr lstat' cwd s = None" "trimSpace s \<noteq> []"
  shows "\<exists>a. absPath cwd s = Inr a \<and> (realPath lstat a \<or> mkdirErr = None \<and> realPath lstat' a)"
proof -
  have re: "recheckNoSymlink f qs = None \<Longrightarrow> \<forall>q \<in> set qs. f q \<in> {IsDir, IsFile}" for f qs
    by (induction qs) (auto split: stat.splits)
  have va: "validateWalk lstat mkdirErr lstat' a qs = None \<Longrightarrow> (\<forall>q \<in> set qs. lstat q \<in> {IsDir, IsFile})
      \<or> mkdirErr = None \<and> (\<forall>q \<in> set (walk a). lstat' q \<in> {IsDir, IsFile})" for a qs
    by (induction qs) (auto split: stat.splits option.splits dest: re)
  from assms obtain a where a: "absPath cwd s = Inr a" "validateWalk lstat mkdirErr lstat' a (walk a) = None"
    by (auto simp: ValidateBaseNotSymlink_def split: sum.splits)
  have "take i a \<in> set (walk a)" if "i \<le> length a" "0 < i" for i
    using that by (auto simp: walk_def image_def simp del: upt_Suc)
  then have "\<forall>q \<in> set (walk a). f q \<in> {IsDir, IsFile} \<Longrightarrow> realPath f a" for f
    using absPath_ordinary [OF a(1)] by (auto simp: realPath_def)
  with va [OF a(2)] a(1) show ?thesis by blast
qed

theorem validated_base_is_real_witness:
  "ValidateBaseNotSymlink demoStat None demoStat None ''/etc/edr'' = None \<and> realPath demoStat [''etc'', ''edr'']
   \<and> ValidateBaseNotSymlink demoStat None demoStat None ''/etc/edr/out'' = Some (ComponentIsLink [''etc'', ''edr'', ''out''])"
proof -
  have abs: "absPath None ''/etc/edr'' = Inr [''etc'', ''edr'']" "absPath None ''/etc/edr/out'' = Inr [''etc'', ''edr'', ''out'']"
    by (simp_all add: absPath_def cleanPath_def gostr)
  have v: "ValidateBaseNotSymlink demoStat None demoStat None ''/etc/edr'' = None"
    "ValidateBaseNotSymlink demoStat None demoStat None ''/etc/edr/out'' = Some (ComponentIsLink [''etc'', ''edr'', ''out''])"
    unfolding ValidateBaseNotSymlink_def abs by (simp_all add: walk_def upt_rec demoStat_def gostr)
  with validated_base_is_real [OF v(1)] abs show ?thesis by (auto simp: gostr)
qed

end
