(* ===== verification/Keys.thy ===== *)
theory Keys
  imports Filesys
begin

text \<open>
  Keys, \<open>internal/integrity\<close>: the HMAC key of the event log (\<open>keystore.go\<close>) and the Ed25519
  keys that sign policies (\<open>sign.go\<close>).  Byte slices are strings.  Hexadecimal and base64 are
  those of the Go library; Ed25519 itself is a parameter: \<open>newKey\<close> makes the 64-byte private
  key of a seed, \<open>sign\<close> and \<open>verify\<close> are its two operations.
\<close>

section \<open>Encodings\<close>

definition hexC :: "nat \<Rightarrow> char" where
  "hexC d = (if d < 10 then char_of (48 + d) else char_of (87 + d))"

definition hexDigitVal :: "char \<Rightarrow> nat option" where
  "hexDigitVal c = (let n = of_char c in
     if 48 \<le> n \<and> n \<le> 57 then Some (n - 48)
     else if 97 \<le> n \<and> n \<le> 102 then Some (n - 87)
     else if 65 \<le> n \<and> n \<le> 70 then Some (n - 55) else None)"

text \<open>\<open>hex.EncodeToString\<close> and \<open>hex.DecodeString\<close>; \<^term>\<open>None\<close>: an invalid or a missing digit.\<close>

fun hexEncode :: "string \<Rightarrow> string" where
  "hexEncode [] = []"
| "hexEncode (c # cs) = hexC (of_char c div 16) # hexC (of_char c mod 16) # hexEncode cs"

fun hexDecode :: "string \<Rightarrow> string option" where
  "hexDecode [] = Some []"
| "hexDecode [a] = None"
| "hexDecode (a # b # cs) =
     (case (hexDigitVal a, hexDigitVal b, hexDecode cs) of
        (Some x, Some y, Some s) \<Rightarrow> Some (char_of (16 * x + y) # s)
      | _ \<Rightarrow> None)"

definition b64Val :: "char \<Rightarrow> nat option" where
  "b64Val c = (let n = of_char c in
     if 65 \<le> n \<and> n \<le> 90 then Some (n - 65)
     else if 97 \<le> n \<and> n \<le> 122 then Some (n - 71)
     else if 48 \<le> n \<and> n \<le> 57 then Some (n + 4)
     else if c = CHR ''+'' then Some 62 else if c = CHR ''/'' then Some 63 else None)"

text \<open>\<open>base64.StdEncoding.DecodeString\<close> on the text without line breaks.\<close>

fun b64Quads :: "string \<Rightarrow> string option" where
  "b64Quads [] = Some []"
| "b64Quads (a # b # c # d # s) =
     (if c = CHR ''='' then
        (if d = CHR ''='' \<and> s = []
         then (case (b64Val a, b64Val b) of (Some w, Some x) \<Rightarrow> Some [char_of (4 * w + x div 16)] | _ \<Rightarrow> None)
         else None)
      else if d = CHR ''='' then
        (if s = []
         then (case (b64Val a, b64Val b, b64Val c) of
                 (Some w, Some x, Some y) \<Rightarrow> Some [char_of (4 * w + x div 16), char_of (16 * (x mod 16) + y div 4)] | _ \<Rightarrow> None)
         else None)
      else
        (case (b64Val a, b64Val b, b64Val c, b64Val d, b64Quads s) of
           (Some w, Some x, Some y, Some z, Some out) \<Rightarrow>
             Some (char_of (4 * w + x div 16) # char_of (16 * (x mod 16) + y div 4) # char_of (64 * (y mod 4) + z) # out)
         | _ \<Rightarrow> None))"
| "b64Quads s = None"

definition b64Decode :: "string \<Rightarrow> string option" where
  "b64Decode s = b64Quads (filter (\<lambda>c. c \<noteq> nl \<and> c \<noteq> cr) s)"

section \<open>The key of the event log\<close>

datatype KeySource = SourceEnv | SourceFile | SourceGenFile

datatype key_error =
    EmptyPath
  | NoEnv
  | BadEncoding
  | WrongSize nat
  | ReadFailed string
  | MkdirFailed string
  | RandFailed string
  | WriteFailed string
  | RenameFailed string

record KeyEnv =
  ke_getenv :: string
  ke_readErr :: "string option"              \<comment> \<open>a failure other than a missing file\<close>
  ke_mkdirErr :: "string option"
  ke_rand :: "string + string"               \<comment> \<open>32 random bytes\<close>
  ke_writeErr :: "(string \<times> string) option" \<comment> \<open>the error and what it leaves in the file\<close>
  ke_renameErr :: "string option"

definition keySize :: nat where "keySize = 32"

definition sized :: "string option \<Rightarrow> key_error + string" where
  "sized b = (case b of None \<Rightarrow> Inl BadEncoding | Some k \<Rightarrow> if length k \<noteq> keySize then Inl (WrongSize (length k)) else Inr k)"

definition loadFromEnv :: "KeyEnv \<Rightarrow> key_error + string" where
  "loadFromEnv env =
     (let raw = trimSpace (ke_getenv env) in
      if raw = [] then Inl NoEnv
      else if hasPrefix raw ''hex:'' then sized (hexDecode (drop 4 raw))
      else if hasPrefix raw ''b64:'' then sized (b64Decode (drop 4 raw))
      else if length raw \<noteq> keySize then Inl (WrongSize (length raw))
      else Inr raw)"

definition generateAndPersist :: "KeyEnv \<Rightarrow> string \<Rightarrow> filesys \<Rightarrow> (key_error + string) \<times> filesys" where
  "generateAndPersist env path fs =
     (case ke_mkdirErr env of
        Some err \<Rightarrow> (Inl (MkdirFailed err), fs)
      | None \<Rightarrow>
          (case ke_rand env of
             Inl err \<Rightarrow> (Inl (RandFailed err), fs)
           | Inr key \<Rightarrow>
               (let tmp = path @ ''.tmp'' in
                case ke_writeErr env of
                  Some (err, left) \<Rightarrow> (Inl (WriteFailed err), fsPut fs tmp left)
                | None \<Rightarrow>
                    (case ke_renameErr env of
                       Some err \<Rightarrow> (Inl (RenameFailed err), fsDel (fsPut fs tmp key) tmp)
                     | None \<Rightarrow> (Inr key, case fsRename (fsPut fs tmp key) tmp path of Some fs' \<Rightarrow> fs' | None \<Rightarrow> fs)))))"

definition LoadOrCreate :: "KeyEnv \<Rightarrow> string \<Rightarrow> filesys \<Rightarrow> (key_error + string \<times> KeySource) \<times> filesys" where
  "LoadOrCreate env path fs =
     (if path = [] then (Inl EmptyPath, fs)
      else (case loadFromEnv env of
              Inr k \<Rightarrow> (Inr (k, SourceEnv), fs)
            | Inl err \<Rightarrow>
                if err \<noteq> NoEnv then (Inl err, fs)
                else (case (ke_readErr env, fsGet fs path) of
                        (Some e, _) \<Rightarrow> (Inl (ReadFailed e), fs)
                      | (None, Some b) \<Rightarrow> if length b = keySize then (Inr (b, SourceFile), fs) else (Inl (WrongSize (length b)), fs)
                      | (None, None) \<Rightarrow>
                          (case generateAndPersist env path fs of
                             (Inl e, fs') \<Rightarrow> (Inl e, fs')
                           | (Inr k, fs') \<Rightarrow> (Inr (k, SourceGenFile), fs')))))"

definition EncodeKey :: "string \<Rightarrow> string" where
  "EncodeKey key = ''hex:'' @ hexEncode key"

section \<open>Signing keys\<close>

record SigningKey =
  Private :: string
  Public :: string

datatype sign_error = FileMissing | FileError string | BadLength nat | BadHex | NilKey

text \<open>\<open>ed25519.PrivateKey\<close>: the seed followed by the public key.\<close>

definition keyOfSeed :: "(string \<Rightarrow> string) \<Rightarrow> string \<Rightarrow> SigningKey" where
  "keyOfSeed newKey seed = (let priv = newKey seed in \<lparr>Private = priv, Public = drop 32 priv\<rparr>)"

definition GenerateSigningKey :: "(string \<Rightarrow> string) \<Rightarrow> string + string \<Rightarrow> sign_error + SigningKey" where
  "GenerateSigningKey newKey rnd = (case rnd of Inl e \<Rightarrow> Inl (FileError e) | Inr seed \<Rightarrow> Inr (keyOfSeed newKey seed))"

definition trimString :: "string \<Rightarrow> string" where
  "trimString s = rev (dropWhile (\<lambda>c. c = nl \<or> c = cr \<or> c = CHR '' '') (rev s))"

definition readKeyFile :: "string option \<Rightarrow> filesys \<Rightarrow> string \<Rightarrow> sign_error + string" where
  "readKeyFile readErr fs path =
     (case readErr of
        Some e \<Rightarrow> Inl (FileError e)
      | None \<Rightarrow> (case fsGet fs path of None \<Rightarrow> Inl FileMissing | Some raw \<Rightarrow> Inr raw))"

definition LoadSigningKey :: "(string \<Rightarrow> string) \<Rightarrow> string option \<Rightarrow> filesys \<Rightarrow> string \<Rightarrow> sign_error + SigningKey" where
  "LoadSigningKey newKey readErr fs path =
     (case readKeyFile readErr fs path of
        Inl e \<Rightarrow> Inl e
      | Inr content \<Rightarrow>
          (let raw = trimString content in
           if length raw = 64 then
             (case hexDecode raw of None \<Rightarrow> Inl BadHex | Some seed \<Rightarrow> Inr (keyOfSeed newKey seed))
           else if length raw = 128 then
             (case hexDecode raw of None \<Rightarrow> Inl BadHex | Some full \<Rightarrow> Inr (keyOfSeed newKey (take 32 full)))
           else Inl (BadLength (length raw))))"

text \<open>\<open>SaveSigningKey\<close> and \<open>SavePublicKey\<close>; a failed write leaves the text it gives.\<close>

definition saveKeyFile :: "string option \<Rightarrow> (string \<times> string) option \<Rightarrow> string \<Rightarrow> string \<Rightarrow> filesys \<Rightarrow> sign_error option \<times> filesys" where
  "saveKeyFile mkdirErr writeErr bytes path fs =
     (case mkdirErr of
        Some e \<Rightarrow> (Some (FileError e), fs)
      | None \<Rightarrow>
          (case writeErr of
             Some (e, left) \<Rightarrow> (Some (FileError e), fsPut fs path left)
           | None \<Rightarrow> (None, fsPut fs path (hexEncode bytes @ [nl]))))"

definition SaveSigningKey :: "string option \<Rightarrow> (string \<times> string) option \<Rightarrow> SigningKey \<Rightarrow> string \<Rightarrow> filesys \<Rightarrow> sign_error option \<times> filesys" where
  "SaveSigningKey mkdirErr writeErr key = saveKeyFile mkdirErr writeErr (take 32 (Private key))"

definition SavePublicKey :: "string option \<Rightarrow> (string \<times> string) option \<Rightarrow> string \<Rightarrow> string \<Rightarrow> filesys \<Rightarrow> sign_error option \<times> filesys" where
  "SavePublicKey = saveKeyFile"

definition LoadPublicKey :: "string option \<Rightarrow> filesys \<Rightarrow> string \<Rightarrow> sign_error + string" where
  "LoadPublicKey readErr fs path =
     (case readKeyFile readErr fs path of
        Inl e \<Rightarrow> Inl e
      | Inr content \<Rightarrow>
          (let raw = trimString content in
           if length raw \<noteq> 64 then Inl (BadLength (length raw))
           else (case hexDecode raw of None \<Rightarrow> Inl BadHex | Some pub \<Rightarrow> Inr pub)))"

definition Sign :: "(string \<Rightarrow> string \<Rightarrow> string) \<Rightarrow> SigningKey option \<Rightarrow> string \<Rightarrow> sign_error + string" where
  "Sign sign key data =
     (case key of
        None \<Rightarrow> Inl NilKey
      | Some k \<Rightarrow> if Private k = [] then Inl NilKey else Inr (hexEncode (sign (Private k) data)))"

definition VerifySignature :: "(string \<Rightarrow> string \<Rightarrow> string \<Rightarrow> bool) \<Rightarrow> string \<Rightarrow> string \<Rightarrow> string \<Rightarrow> sign_error + bool" where
  "VerifySignature verify pub data sigHex =
     (case hexDecode (trimString sigHex) of None \<Rightarrow> Inl BadHex | Some sig \<Rightarrow> Inr (verify pub data sig))"

definition SignatureFile :: "string \<Rightarrow> string" where
  "SignatureFile policyPath = policyPath @ ''.sig''"

definition LoadOrCreateSigningKey ::
  "(string \<Rightarrow> string) \<Rightarrow> string option \<Rightarrow> string + string \<Rightarrow> string option \<Rightarrow> (string \<times> string) option \<Rightarrow> string \<Rightarrow> filesys
    \<Rightarrow> (sign_error + SigningKey \<times> string) \<times> filesys" where
  "LoadOrCreateSigningKey newKey readErr rnd mkdirErr writeErr path fs =
     (if path = [] then (Inl (FileError ''signing key path is empty''), fs)
      else (case LoadSigningKey newKey readErr fs path of
              Inr key \<Rightarrow> (Inr (key, ''loaded''), fs)
            | Inl e \<Rightarrow>
                if e \<noteq> FileMissing then (Inl e, fs)
                else (case GenerateSigningKey newKey rnd of
                        Inl e \<Rightarrow> (Inl e, fs)
                      | Inr key \<Rightarrow>
                          (case SaveSigningKey mkdirErr writeErr key path fs of
                             (Some e, fs') \<Rightarrow> (Inl e, fs')
                           | (None, fs') \<Rightarrow> (Inr (key, ''generated''), fs')))))"

section \<open>Encodings: lemmas\<close>

lemma hexC_val: "d < 16 \<Longrightarrow> hexDigitVal (hexC d) = Some d"
  by (auto simp: hexDigitVal_def hexC_def Let_def)

lemma hexC_plain: "d < 16 \<Longrightarrow> hexC d \<noteq> nl \<and> hexC d \<noteq> cr \<and> hexC d \<noteq> CHR '' '' \<and> \<not> isSpace (hexC d)"
proof -
  assume d: "d < 16"
  have "(of_char (hexC d) :: nat) = (if d < 10 then 48 + d else 87 + d)" using d by (simp add: hexC_def)
  then have "48 \<le> (of_char (hexC d) :: nat)" by simp
  then show ?thesis by (auto simp: nl_def cr_def isSpace_def)
qed

lemma char_nibbles: "(of_char c :: nat) div 16 < 16" "(of_char c :: nat) mod 16 < 16"
  by (simp_all add: less_mult_imp_div_less)

lemma hexDecode_hexEncode [simp]: "hexDecode (hexEncode s) = Some s"
proof (induction s)
  case (Cons c cs)
  then show ?case using char_nibbles [of c] by (simp add: hexC_val)
qed simp

lemma length_hexEncode [simp]: "length (hexEncode s) = 2 * length s"
  by (induction s) simp_all

lemma hexEncode_plain: "x \<in> set (hexEncode s) \<Longrightarrow> x \<noteq> nl \<and> x \<noteq> cr \<and> x \<noteq> CHR '' '' \<and> \<not> isSpace x"
proof (induction s)
  case (Cons c cs)
  then show ?case using hexC_plain [OF char_nibbles(1) [of c]] hexC_plain [OF char_nibbles(2) [of c]] by auto
qed simp

lemma dropWhile_all_not: "(\<And>x. x \<in> set xs \<Longrightarrow> \<not> P x) \<Longrightarrow> dropWhile P xs = xs"
  by (cases xs) auto

lemma trimString_hex: "trimString (hexEncode s @ [nl]) = hexEncode s" "trimString (hexEncode s) = hexEncode s"
proof -
  have "dropWhile (\<lambda>c. c = nl \<or> c = cr \<or> c = CHR '' '') (rev (hexEncode s)) = rev (hexEncode s)"
    by (rule dropWhile_all_not) (use hexEncode_plain in auto)
  then show "trimString (hexEncode s @ [nl]) = hexEncode s" "trimString (hexEncode s) = hexEncode s"
    by (simp_all add: trimString_def)
qed

lemma trimSpace_EncodeKey: "trimSpace (EncodeKey k) = EncodeKey k"
proof -
  have plain: "\<not> isSpace x" if "x \<in> set (EncodeKey k)" for x
    using that hexEncode_plain [of x k] by (auto simp: EncodeKey_def isSpace_def)
  then have "dropWhile isSpace (EncodeKey k) = EncodeKey k" "dropWhile isSpace (rev (EncodeKey k)) = rev (EncodeKey k)"
    by (intro dropWhile_all_not; simp)+
  then show ?thesis by (simp add: trimSpace_def)
qed

section \<open>Properties\<close>


definition quietKeyEnv :: KeyEnv where
  "quietKeyEnv = \<lparr>ke_getenv = [], ke_readErr = None, ke_mkdirErr = None, ke_rand = Inr (replicate 32 (CHR ''k'')),
     ke_writeErr = None, ke_renameErr = None\<rparr>"


text \<open>
  What the holder of a signing key signs, the agent accepts.  A key that has been
  saved is read back unchanged, the agent reads the public half from its own file, and a
  signature made with the first verifies with the second, when Ed25519 is correct.
\<close>

theorem signature_accepted:
  assumes "\<And>seed. length seed = 32 \<Longrightarrow> length (newKey seed) = 64 \<and> take 32 (newKey seed) = seed"
    and "\<And>seed m. length seed = 32 \<Longrightarrow> verify (drop 32 (newKey seed)) m (sign (newKey seed) m)"
    and "length seed = 32" "keyOfSeed newKey seed = key"
    and "SaveSigningKey None None key path fs = (None, fs1)" "SavePublicKey None None (Public key) pubPath agentFs = (None, fs2)"
  shows "LoadSigningKey newKey None fs1 path = Inr key \<and> LoadPublicKey None fs2 pubPath = Inr (Public key)
    \<and> (\<exists>sig. Sign sign (Some key) m = Inr sig \<and> VerifySignature verify (Public key) m (sig @ [nl]) = Inr True)"
proof -
  have k: "Private key = newKey seed" "Public key = drop 32 (newKey seed)" "length (newKey seed) = 64" "take 32 (newKey seed) = seed"
    using assms(1,3,4) by (auto simp: keyOfSeed_def Let_def)
  then have f: "fsGet fs1 path = Some (hexEncode seed @ [nl])" "fsGet fs2 pubPath = Some (hexEncode (Public key) @ [nl])"
    using assms(5,6) by (auto simp: SaveSigningKey_def SavePublicKey_def saveKeyFile_def)
  show ?thesis
  proof (intro conjI)
    show "LoadSigningKey newKey None fs1 path = Inr key"
      using f(1) assms(3,4) by (simp add: LoadSigningKey_def readKeyFile_def trimString_hex)
    show "LoadPublicKey None fs2 pubPath = Inr (Public key)"
      using f(2) k by (simp add: LoadPublicKey_def readKeyFile_def trimString_hex)
    show "\<exists>sig. Sign sign (Some key) m = Inr sig \<and> VerifySignature verify (Public key) m (sig @ [nl]) = Inr True"
      using k assms(2,3) by (auto simp: Sign_def VerifySignature_def trimString_hex)
  qed
qed

theorem signature_accepted_witness:
  "let key = keyOfSeed (\<lambda>s. s @ s) (replicate 32 (CHR ''s''))
   in \<exists>fs sig. SaveSigningKey None None key ''/s'' [] = (None, fs) \<and> LoadSigningKey (\<lambda>s. s @ s) None fs ''/s'' = Inr key
     \<and> Sign (\<lambda>k m. drop 32 k @ m) (Some key) ''policy'' = Inr sig
     \<and> VerifySignature (\<lambda>p m s. s = p @ m) (Public key) ''policy'' (sig @ [nl]) = Inr True"
proof -
  let ?seed = "replicate 32 (CHR ''s'')"
  let ?key = "keyOfSeed (\<lambda>s. s @ s) ?seed"
  obtain fs1 where s1: "SaveSigningKey None None ?key ''/s'' [] = (None, fs1)" by (simp add: SaveSigningKey_def saveKeyFile_def)
  obtain fs2 where s2: "SavePublicKey None None (Public ?key) ''/p'' [] = (None, fs2)" by (simp add: SavePublicKey_def saveKeyFile_def)
  have "LoadSigningKey (\<lambda>s. s @ s) None fs1 ''/s'' = Inr ?key \<and> LoadPublicKey None fs2 ''/p'' = Inr (Public ?key)
    \<and> (\<exists>sig. Sign (\<lambda>k m. drop 32 k @ m) (Some ?key) ''policy'' = Inr sig
         \<and> VerifySignature (\<lambda>p m s. s = p @ m) (Public ?key) ''policy'' (sig @ [nl]) = Inr True)"
    by (rule signature_accepted [OF _ _ _ refl s1 s2]) simp_all
  with s1 show ?thesis unfolding Let_def by blast
qed

end
