(* ===== verification/Anchor.thy ===== *)
theory Anchor
  imports EventChain
begin

text \<open>
  The remote anchor, \<open>internal/eventlog/anchor.go\<close>: the head of the chain is pushed to an HTTP
  endpoint and to a file mirror, and compared with the local log later.  The encoding of a
  record and the answers of the endpoint are parameters.
\<close>

record AnchorRecord =
  ar_ChainID :: string
  ar_Seq :: "64 word"
  ar_Hash :: string
  ar_HMAC :: string
  ar_PushedAt :: gotime
  ar_Hostname :: string
  ar_BootID :: string

record Anchor =
  an_url :: string
  an_filePath :: string
  an_hostname :: string
  an_bootID :: string
  an_lastSeq :: "64 word"

record AnchorOptions =
  ao_URL :: string
  ao_FilePath :: string
  ao_Interval :: duration
  ao_Hostname :: string
  ao_BootID :: string

datatype anchor_error = HTTPError string | HTTPStatus int | EncodeError | DecodeError | FileFailed string

text \<open>The outside: the JSON codec, the endpoint (an error or a status, with a body), the file system's faults.\<close>

record AnchorEnv =
  ae_encode :: "AnchorRecord \<Rightarrow> string option"
  ae_decode :: "string \<Rightarrow> AnchorRecord option"
  ae_decodeStream :: "string \<Rightarrow> AnchorRecord option"   \<comment> \<open>the first value of a body\<close>
  ae_post :: "string \<Rightarrow> string \<Rightarrow> string + int"
  ae_get :: "string \<Rightarrow> string + int \<times> string"
  ae_mkdirErr :: "string option"
  ae_writeErr :: "(string \<times> string) option"
  ae_readErr :: "string option"
  ae_now :: gotime

definition NewAnchor :: "AnchorOptions \<Rightarrow> Anchor option" where
  "NewAnchor opts =
     (if ao_URL opts = [] \<and> ao_FilePath opts = [] then None
      else Some \<lparr>an_url = ao_URL opts, an_filePath = ao_FilePath opts, an_hostname = ao_Hostname opts,
                 an_bootID = ao_BootID opts, an_lastSeq = 0\<rparr>)"

definition pushHTTP :: "AnchorEnv \<Rightarrow> Anchor \<Rightarrow> AnchorRecord \<Rightarrow> anchor_error option" where
  "pushHTTP env a rec =
     (case ae_encode env rec of
        None \<Rightarrow> Some EncodeError
      | Some body \<Rightarrow>
          (case ae_post env (an_url a) body of
             Inl e \<Rightarrow> Some (HTTPError e)
           | Inr st \<Rightarrow> if st < 200 \<or> st \<ge> 300 then Some (HTTPStatus st) else None))"

definition fetchHTTP :: "AnchorEnv \<Rightarrow> Anchor \<Rightarrow> anchor_error + AnchorRecord option" where
  "fetchHTTP env a =
     (case ae_get env (an_url a) of
        Inl e \<Rightarrow> Inl (HTTPError e)
      | Inr (st, body) \<Rightarrow>
          if st = 404 then Inr None
          else if st < 200 \<or> st \<ge> 300 then Inl (HTTPStatus st)
          else (case ae_decodeStream env (take (2 ^ 16) body) of None \<Rightarrow> Inl DecodeError | Some rec \<Rightarrow> Inr (Some rec)))"

definition pushFile :: "AnchorEnv \<Rightarrow> Anchor \<Rightarrow> AnchorRecord \<Rightarrow> filesys \<Rightarrow> anchor_error option \<times> filesys" where
  "pushFile env a rec fs =
     (case ae_mkdirErr env of
        Some e \<Rightarrow> (Some (FileFailed e), fs)
      | None \<Rightarrow>
          (case ae_encode env rec of
             None \<Rightarrow> (Some EncodeError, fs)
           | Some raw \<Rightarrow>
               (case ae_writeErr env of
                  Some (e, left) \<Rightarrow> (Some (FileFailed e), fsPut fs (an_filePath a) left)
                | None \<Rightarrow> (None, fsPut fs (an_filePath a) raw))))"

definition fetchFile :: "AnchorEnv \<Rightarrow> Anchor \<Rightarrow> filesys \<Rightarrow> anchor_error + AnchorRecord option" where
  "fetchFile env a fs =
     (case ae_readErr env of
        Some e \<Rightarrow> Inl (FileFailed e)
      | None \<Rightarrow>
          (case fsGet fs (an_filePath a) of
             None \<Rightarrow> Inr None
           | Some raw \<Rightarrow> (case ae_decode env raw of None \<Rightarrow> Inl DecodeError | Some rec \<Rightarrow> Inr (Some rec))))"

definition Push :: "AnchorEnv \<Rightarrow> string \<Rightarrow> 64 word \<Rightarrow> string \<Rightarrow> string \<Rightarrow> Anchor option \<Rightarrow> filesys
    \<Rightarrow> anchor_error option \<times> Anchor option \<times> filesys" where
  "Push env chainID sq hash hmac ao fs =
     (case ao of
        None \<Rightarrow> (None, ao, fs)
      | Some a \<Rightarrow>
          if sq = 0 \<or> sq \<le> an_lastSeq a then (None, ao, fs)
          else
            (let a1 = a\<lparr>an_lastSeq := sq\<rparr>;
                 rec = \<lparr>ar_ChainID = chainID, ar_Seq = sq, ar_Hash = hash, ar_HMAC = hmac, ar_PushedAt = ae_now env,
                        ar_Hostname = an_hostname a, ar_BootID = an_bootID a\<rparr>;
                 err1 = (if an_url a \<noteq> [] then pushHTTP env a rec else None);
                 (err2, fs') = (if an_filePath a \<noteq> [] then pushFile env a rec fs else (None, fs))
             in (case err1 of Some e \<Rightarrow> Some e | None \<Rightarrow> err2, Some a1, fs')))"

definition Fetch :: "AnchorEnv \<Rightarrow> Anchor option \<Rightarrow> filesys \<Rightarrow> anchor_error + AnchorRecord option" where
  "Fetch env ao fs =
     (case ao of
        None \<Rightarrow> Inr None
      | Some a \<Rightarrow>
          if an_url a \<noteq> [] then fetchHTTP env a
          else if an_filePath a \<noteq> [] then fetchFile env a fs else Inr None)"

datatype anchor_issue =
    ChainMismatch string string
  | Truncation "64 word" "64 word"
  | HashMismatch string string "64 word"

definition CrossVerify :: "AnchorEnv \<Rightarrow> string \<Rightarrow> 64 word \<Rightarrow> string \<Rightarrow> Anchor option \<Rightarrow> filesys \<Rightarrow> anchor_issue list" where
  "CrossVerify env localChainID localSeq localHash ao fs =
     (case ao of
        None \<Rightarrow> []
      | Some _ \<Rightarrow>
          (case Fetch env ao fs of
             Inl _ \<Rightarrow> []
           | Inr None \<Rightarrow> []
           | Inr (Some rec) \<Rightarrow>
               (if ar_ChainID rec \<noteq> localChainID then [ChainMismatch localChainID (ar_ChainID rec)] else [])
               @ (if ar_Seq rec > localSeq then [Truncation (ar_Seq rec) localSeq] else [])
               @ (if ar_Seq rec = localSeq \<and> ar_Hash rec \<noteq> [] \<and> localHash \<noteq> [] \<and> ar_Hash rec \<noteq> localHash
                  then [HashMismatch (ar_Hash rec) localHash (ar_Seq rec)] else [])))"

text \<open>One tick of the goroutine of \<open>Start\<close>.\<close>

definition anchorTick :: "AnchorEnv \<Rightarrow> string \<times> 64 word \<times> string \<times> string \<Rightarrow> Anchor option \<Rightarrow> filesys \<Rightarrow> Anchor option \<times> filesys" where
  "anchorTick env head ao fs =
     (case head of (cid, sq, hash, hmac) \<Rightarrow> (case Push env cid sq hash hmac ao fs of (_, ao', fs') \<Rightarrow> (ao', fs')))"

section \<open>Properties\<close>


text \<open>
  A push that failed is never made up for.  The sequence number counts as pushed
  before the push is tried, so the next attempt with the same head does nothing and reports
  success; and a log that has grown past the anchor again is not compared with it at all.
\<close>

theorem failed_push_forgotten:
  assumes "an_url a = []" "an_filePath a \<noteq> []" "sq > an_lastSeq a" "ae_mkdirErr env = Some e"
  shows "\<exists>ao. Push env chain sq hash mac (Some a) fs = (Some (FileFailed e), ao, fs)
    \<and> Push env' chain sq hash mac ao fs = (None, ao, fs)
    \<and> (\<forall>rec. Fetch env' ao fs = Inr (Some rec) \<and> ar_ChainID rec = chain \<and> ar_Seq rec < localSeq
        \<longrightarrow> CrossVerify env' chain localSeq localHash ao fs = [])"
proof -
  have "sq \<noteq> 0" using assms(3) by auto
  with assms show ?thesis by (auto simp: Push_def pushFile_def CrossVerify_def Let_def)
qed

text \<open>A mirror whose encoding keeps the sequence number and the hash.\<close>

definition demoAnchorEnv :: AnchorEnv where
  "demoAnchorEnv = \<lparr>ae_encode = (\<lambda>r. if ar_Seq r = 3 \<and> ar_HMAC r = [] \<and> ar_PushedAt r = 0 \<and> ar_Hostname r = [] \<and> ar_BootID r = [] \<and> ar_ChainID r = ''c'' then Some (ar_Hash r) else None),
     ae_decode = (\<lambda>s. Some \<lparr>ar_ChainID = ''c'', ar_Seq = 3, ar_Hash = s, ar_HMAC = [], ar_PushedAt = 0, ar_Hostname = [], ar_BootID = []\<rparr>),
     ae_decodeStream = Map.empty, ae_post = (\<lambda>_ _. Inr 200), ae_get = (\<lambda>_. Inr (404, [])), ae_mkdirErr = None, ae_writeErr = None,
     ae_readErr = None, ae_now = 0\<rparr>"

definition demoAnchor :: Anchor where
  "demoAnchor = \<lparr>an_url = [], an_filePath = ''/m'', an_hostname = [], an_bootID = [], an_lastSeq = 0\<rparr>"


theorem failed_push_forgotten_witness:
  "\<exists>ao. Push (demoAnchorEnv\<lparr>ae_mkdirErr := Some ''full''\<rparr>) ''c'' 3 ''ff'' [] (Some demoAnchor) [] = (Some (FileFailed ''full''), ao, [])
     \<and> Push demoAnchorEnv ''c'' 3 ''ff'' [] ao [] = (None, ao, [])"
proof -
  have "an_url demoAnchor = []" "an_filePath demoAnchor \<noteq> []" "3 > an_lastSeq demoAnchor"
    "ae_mkdirErr (demoAnchorEnv\<lparr>ae_mkdirErr := Some ''full''\<rparr>) = Some ''full''" by (simp_all add: demoAnchor_def)
  from failed_push_forgotten [OF this, of "''c''" "''ff''" "[]" "[]" demoAnchorEnv] show ?thesis by blast
qed

end
