(* ===== verification/Baseline.thy ===== *)
theory Baseline
  imports Filesys "HOL-Library.Word"
begin

unbundle bit_operations_syntax

text \<open>
  The baseline checks, \<open>internal/baseline/baseline.go\<close>: a template of files with the
  permissions they may have at most, and the findings for it.  JSON and the answers of
  \<open>stat\<close> are parameters; \<open>Sscanf\<close> with \<open>%o\<close> is that of the Go library.
\<close>

record FileCheck =
  fc_ID :: string
  fc_Path :: string
  fc_MustExist :: bool
  fc_MaxMode :: string

record Template =
  t_SchemaVersion :: string
  t_Checks :: "FileCheck list"

record Finding =
  fi_ID :: string
  fi_Path :: string
  fi_Passed :: bool
  fi_Expected :: string
  fi_Actual :: string

datatype baseline_error = BaselineUnreadable string | BaselineSyntax | BaselineVersion string

definition LoadBaseline :: "(string \<Rightarrow> Template option) \<Rightarrow> (string \<Rightarrow> string + string) \<Rightarrow> string \<Rightarrow> baseline_error + Template" where
  "LoadBaseline decode readFile path =
     (case readFile path of
        Inl e \<Rightarrow> Inl (BaselineUnreadable e)
      | Inr raw \<Rightarrow>
          (case decode raw of
             None \<Rightarrow> Inl BaselineSyntax
           | Some t \<Rightarrow> if t_SchemaVersion t \<noteq> ''v0.1'' then Inl (BaselineVersion (t_SchemaVersion t)) else Inr t))"

definition isOctalC :: "char \<Rightarrow> bool" where
  "isOctalC c = (48 \<le> (of_char c :: nat) \<and> (of_char c :: nat) \<le> 55)"

definition octalVal :: "string \<Rightarrow> nat" where
  "octalVal ds = foldl (\<lambda>v c. 8 * v + digitVal c) 0 ds"

text \<open>Blanks are skipped, the longest run of octal digits is read, the rest of the text is ignored.\<close>

definition scanOctal :: "string \<Rightarrow> 32 word option" where
  "scanOctal s =
     (let ds = takeWhile isOctalC (dropWhile (\<lambda>c. isSpace c \<and> c \<noteq> nl) s)
      in if ds = [] \<or> octalVal ds \<ge> 2 ^ 32 then None else Some (word_of_nat (octalVal ds)))"

text \<open>\<open>FileMode.String\<close> of permission bits.\<close>

definition permText :: "32 word \<Rightarrow> string" where
  "permText m = CHR ''-'' # map (\<lambda>i. if bit m (8 - i) then ''rwxrwxrwx'' ! i else CHR ''-'') [0..<9]"

text \<open>\<open>stat\<close> gives the error or the permission bits of a file.\<close>

definition checkFile :: "(string \<Rightarrow> string + 32 word) \<Rightarrow> FileCheck \<Rightarrow> Finding" where
  "checkFile statPerm c =
     (case statPerm (fc_Path c) of
        Inl err \<Rightarrow> \<lparr>fi_ID = fc_ID c, fi_Path = fc_Path c, fi_Passed = (\<not> fc_MustExist c), fi_Expected = ''exists'', fi_Actual = err\<rparr>
      | Inr perm \<Rightarrow>
          (let base = \<lparr>fi_ID = fc_ID c, fi_Path = fc_Path c, fi_Passed = True, fi_Expected = ''exists'', fi_Actual = permText perm\<rparr> in
           if fc_MaxMode c = [] then base
           else (case scanOctal (fc_MaxMode c) of
                   None \<Rightarrow> base\<lparr>fi_Passed := False, fi_Expected := ''valid max_mode'', fi_Actual := fc_MaxMode c\<rparr>
                 | Some mx \<Rightarrow>
                     if perm AND NOT mx \<noteq> 0 then base\<lparr>fi_Passed := False, fi_Expected := ''mode <= '' @ fc_MaxMode c\<rparr>
                     else base)))"

definition RunBaseline :: "(string \<Rightarrow> string + 32 word) \<Rightarrow> Template \<Rightarrow> Finding list" where
  "RunBaseline statPerm t = map (checkFile statPerm) (t_Checks t)"

section \<open>Properties\<close>

text \<open>The meaning of a check.\<close>

definition meets :: "(string \<Rightarrow> string + 32 word) \<Rightarrow> FileCheck \<Rightarrow> bool" where
  "meets statPerm c =
     (case statPerm (fc_Path c) of
        Inl _ \<Rightarrow> \<not> fc_MustExist c
      | Inr perm \<Rightarrow> fc_MaxMode c = [] \<or> (\<exists>mx. scanOctal (fc_MaxMode c) = Some mx \<and> (\<forall>i < 32. bit perm i \<longrightarrow> bit mx i)))"

lemma and_not_zero: "(p AND NOT q = 0) \<longleftrightarrow> (\<forall>i < 32. bit p i \<longrightarrow> bit q i)" for p q :: "32 word"
  by (auto simp: bit_eq_iff bit_and_iff bit_not_iff)

text \<open>
  The findings decide the baseline.  There is one finding per check, in order, with
  its identifier and path, and it passes exactly when a file that must exist does, and no
  permission bit is set that the largest allowed mode does not have.
\<close>

theorem baseline_decided:
  "map fi_ID (RunBaseline statPerm t) = map fc_ID (t_Checks t) \<and> map fi_Path (RunBaseline statPerm t) = map fc_Path (t_Checks t)
   \<and> map fi_Passed (RunBaseline statPerm t) = map (meets statPerm) (t_Checks t)"
proof -
  have "fi_ID (checkFile statPerm c) = fc_ID c" "fi_Path (checkFile statPerm c) = fc_Path c"
    "fi_Passed (checkFile statPerm c) = meets statPerm c" for c
    by (auto simp: checkFile_def meets_def Let_def and_not_zero split: sum.splits option.splits)
  then show ?thesis by (simp add: RunBaseline_def)
qed

end
