(* ===== verification/Prometheus.thy ===== *)
theory Prometheus
  imports Agent
begin

text \<open>
  The Prometheus page, \<open>internal/metrics/prometheus.go\<close>, and the adapter that feeds it from the
  agent, at the end of \<open>internal/control/server.go\<close>.  The map of metrics holds values of several
  Go types, and the writer looks at the type of each; the order in which Go visits the rule hits
  is an argument, as is the text of a floating point number for \<open>%g\<close>, which is applied to integers only.
\<close>

section \<open>The source of the metrics\<close>

datatype any = AU64 "64 word" | AI64 int | AInt int | AFloat int | ATime "gotime option" | AHits "string \<rightharpoonup> 64 word" | AOther

record BPFHealthStatus =
  hs_Attached :: bool
  hs_EventsDrained :: "64 word"
  hs_OverloadDrops :: "64 word"

text \<open>The map \<open>Agent.Metrics\<close> builds.\<close>

definition metricsMap :: "Metrics \<Rightarrow> string \<rightharpoonup> any" where
  "metricsMap m =
     [''started_at'' \<mapsto> ATime (started_at m), ''uptime_sec'' \<mapsto> AI64 (uptime_sec m), ''run_count'' \<mapsto> AU64 (run_count m),
      ''event_count'' \<mapsto> AU64 (event_count m), ''response_count'' \<mapsto> AU64 (response_count m),
      ''suppressed_total'' \<mapsto> AU64 (suppressed_total m), ''suppression_reasons'' \<mapsto> AHits (suppression_reasons m),
      ''response_history'' \<mapsto> AInt (int (response_history m)), ''rule_hits'' \<mapsto> AHits (rule_hits m)]
     ++ (case bpf m of Some _ \<Rightarrow> [''bpf'' \<mapsto> AOther] | None \<Rightarrow> Map.empty)"

definition adaptHealth :: "BPFHealth \<Rightarrow> BPFHealthStatus" where
  "adaptHealth h = \<lparr>hs_Attached = Attached h, hs_EventsDrained = EventsDrained h, hs_OverloadDrops = OverloadDrops h\<rparr>"

definition adaptHistory :: "ResponseRecord list \<Rightarrow> (string \<times> gotime option) list" where
  "adaptHistory rs = map (\<lambda>r. (res_Action (rr_Result r), rr_Timestamp r)) rs"

section \<open>The page\<close>

definition u64Str :: "64 word \<Rightarrow> string" where
  "u64Str n = natStr (unat n)"

definition header :: "string \<Rightarrow> string \<Rightarrow> string \<Rightarrow> string" where
  "header name desc kind = ''# HELP '' @ name @ '' '' @ desc @ [nl] @ ''# TYPE '' @ name @ '' '' @ kind @ [nl]"

definition writeCounter :: "string \<Rightarrow> string \<Rightarrow> 64 word \<Rightarrow> string" where
  "writeCounter name desc v = header name desc ''counter'' @ name @ '' '' @ u64Str v @ [nl]"

definition writeCounterWithLabel :: "string \<Rightarrow> string \<Rightarrow> string \<Rightarrow> string \<Rightarrow> 64 word \<Rightarrow> string" where
  "writeCounterWithLabel name desc label labelValue v =
     header name desc ''counter'' @ name @ ''{'' @ label @ ''='' @ [CHR 0x22] @ labelValue @ [CHR 0x22] @ ''} '' @ u64Str v @ [nl]"

definition writeGauge :: "(int \<Rightarrow> string) \<Rightarrow> string \<Rightarrow> string \<Rightarrow> int \<Rightarrow> string" where
  "writeGauge fmtG name desc v = header name desc ''gauge'' @ name @ '' '' @ fmtG v @ [nl]"

definition writeGaugeBool :: "string \<Rightarrow> string \<Rightarrow> bool \<Rightarrow> string" where
  "writeGaugeBool name desc v = header name desc ''gauge'' @ name @ (if v then '' 1'' else '' 0'') @ [nl]"

text \<open>A float is converted only when it is an integer here; negative integers wrap.\<close>

definition toUint64 :: "any option \<Rightarrow> 64 word" where
  "toUint64 v =
     (case v of
        Some (AU64 n) \<Rightarrow> n
      | Some (AI64 i) \<Rightarrow> word_of_int i
      | Some (AInt i) \<Rightarrow> word_of_int i
      | Some (AFloat i) \<Rightarrow> word_of_int i
      | _ \<Rightarrow> 0)"

text \<open>\<open>Time.Unix\<close>; the zero time is the first of January of the year 1.\<close>

definition unixOf :: "gotime option \<Rightarrow> int" where
  "unixOf t = (case t of Some ns \<Rightarrow> ns div 1000000000 | None \<Rightarrow> -62135596800)"

definition WritePrometheus ::
  "(int \<Rightarrow> string) \<Rightarrow> string list \<Rightarrow> (string \<rightharpoonup> any) \<Rightarrow> BPFHealthStatus \<Rightarrow> (string \<times> gotime option) list \<Rightarrow> string" where
  "WritePrometheus fmtG order m h history =
     writeCounter ''edr_events_total'' ''Total events processed'' (toUint64 (m ''event_count''))
     @ writeCounter ''edr_responses_total'' ''Total response actions taken'' (toUint64 (m ''response_count''))
     @ writeCounter ''edr_suppressed_total'' ''Total events suppressed'' (toUint64 (m ''suppressed_total''))
     @ writeCounter ''edr_runs_total'' ''Total agent run cycles'' (toUint64 (m ''run_count''))
     @ (case m ''rule_hits'' of
          Some (AHits hits) \<Rightarrow>
            concat (map (\<lambda>r. case hits r of
                Some n \<Rightarrow> writeCounterWithLabel ''edr_rule_hits_total'' ''Total rule hits'' ''rule'' r n | None \<Rightarrow> []) order)
        | _ \<Rightarrow> [])
     @ (case m ''uptime_sec'' of Some (AFloat up) \<Rightarrow> writeGauge fmtG ''edr_uptime_seconds'' ''Agent uptime in seconds'' up | _ \<Rightarrow> [])
     @ (case m ''started_at'' of
          Some (ATime t) \<Rightarrow> writeGauge fmtG ''edr_started_at_timestamp'' ''Agent start time as Unix timestamp'' (unixOf t) | _ \<Rightarrow> [])
     @ writeGaugeBool ''edr_bpf_attached'' ''Whether BPF probes are attached'' (hs_Attached h)
     @ writeCounter ''edr_bpf_events_drained_total'' ''Total BPF events drained from ring buffer'' (hs_EventsDrained h)
     @ writeCounter ''edr_bpf_overload_drops_total'' ''Total BPF events dropped due to ring buffer overload'' (hs_OverloadDrops h)
     @ writeGauge fmtG ''edr_response_history_size'' ''Number of responses in history'' (int (length history))"

definition prometheusPage :: "(int \<Rightarrow> string) \<Rightarrow> string list \<Rightarrow> gotime \<Rightarrow> Agent \<Rightarrow> string" where
  "prometheusPage fmtG order now a =
     WritePrometheus fmtG order (metricsMap (metrics now a)) (adaptHealth (agentBPFHealth now a)) (adaptHistory (ResponseHistory 0 a))"

section \<open>What a scraper reads\<close>

text \<open>The samples: every line that is not a comment, split at its last blank.\<close>

definition samples :: "string \<Rightarrow> (string \<times> string) list" where
  "samples page = map (\<lambda>l. case lastIndexC (CHR '' '') l of Some i \<Rightarrow> (take i l, drop (Suc i) l) | None \<Rightarrow> (l, []))
     (filter (\<lambda>l. l \<noteq> [] \<and> hd l \<noteq> CHR ''#'') (splitC nl page))"

definition plainText :: "string \<Rightarrow> bool" where
  "plainText t \<longleftrightarrow> nl \<notin> set t \<and> CHR '' '' \<notin> set t"

lemma lastIndexC_none: "c \<notin> set v \<Longrightarrow> lastIndexC c v = None"
  by (induction v) auto

lemma lastIndexC_split: "c \<notin> set v \<Longrightarrow> lastIndexC c (n @ c # v) = Some (length n)"
  by (induction n) (simp_all add: lastIndexC_none)

lemma plain_u64 [simp]: "plainText (u64Str n)"
proof -
  have "isDigitC c" if "c \<in> set (u64Str n)" for c
    using that natStr_digits [of "unat n"] by (auto simp: u64Str_def list_all_iff)
  moreover have "\<not> isDigitC nl" "\<not> isDigitC (CHR '' '')" by (simp_all add: isDigitC_def gostr)
  ultimately show ?thesis by (auto simp: plainText_def)
qed

text \<open>Three lines of one metric give one sample.\<close>

lemma samples_block:
  assumes "nl \<notin> set (name @ desc @ kind @ n)" "plainText v" "n \<noteq> []" "hd n \<noteq> CHR ''#''"
  shows "samples (header name desc kind @ n @ '' '' @ v @ nl # rest) = (n, v) # samples rest"
proof -
  let ?h = "''# HELP '' @ name @ '' '' @ desc" and ?t = "''# TYPE '' @ name @ '' '' @ kind" and ?l = "n @ '' '' @ v"
  have h: "nl \<notin> set ?h" "nl \<notin> set ?t" "nl \<notin> set ?l" using assms(1,2) by (simp_all add: plainText_def gostr)
  have "splitC nl (?h @ nl # ?t @ nl # ?l @ nl # rest) = ?h # ?t # ?l # splitC nl rest"
    by (simp only: splitC_line [OF h(1)] splitC_line [OF h(2)] splitC_line [OF h(3)])
  moreover have "lastIndexC (CHR '' '') ?l = Some (length n)"
    using assms(2) lastIndexC_split [of "CHR '' ''" v n] by (simp add: plainText_def)
  ultimately show ?thesis
    using assms(3,4) by (simp add: samples_def header_def)
qed

lemma samples_counter [simp]:
  "nl \<notin> set (name @ desc) \<Longrightarrow> name \<noteq> [] \<Longrightarrow> hd name \<noteq> CHR ''#'' \<Longrightarrow>
    samples (writeCounter name desc v @ rest) = (name, u64Str v) # samples rest"
  using samples_block [of name desc "''counter''" name "u64Str v" rest] by (simp add: writeCounter_def gostr)

lemma samples_gauge [simp]:
  "nl \<notin> set (name @ desc) \<Longrightarrow> name \<noteq> [] \<Longrightarrow> hd name \<noteq> CHR ''#'' \<Longrightarrow> plainText (fmtG v) \<Longrightarrow>
    samples (writeGauge fmtG name desc v @ rest) = (name, fmtG v) # samples rest"
  using samples_block [of name desc "''gauge''" name "fmtG v" rest] by (simp add: writeGauge_def gostr)

lemma samples_gaugeBool [simp]:
  "nl \<notin> set (name @ desc) \<Longrightarrow> name \<noteq> [] \<Longrightarrow> hd name \<noteq> CHR ''#'' \<Longrightarrow>
    samples (writeGaugeBool name desc b @ rest) = (name, if b then ''1'' else ''0'') # samples rest"
  using samples_block [of name desc "''gauge''" name "''1''" rest] samples_block [of name desc "''gauge''" name "''0''" rest]
  by (simp add: writeGaugeBool_def plainText_def gostr)

definition hitName :: "string \<Rightarrow> string" where
  "hitName r = ''edr_rule_hits_total{rule='' @ [CHR 0x22] @ r @ [CHR 0x22] @ ''}''"

lemma samples_hits:
  assumes "\<And>r. r \<in> set order \<Longrightarrow> nl \<notin> set r \<and> hits r \<noteq> None"
  shows "samples (concat (map (\<lambda>r. case hits r of
        Some n \<Rightarrow> writeCounterWithLabel ''edr_rule_hits_total'' ''Total rule hits'' ''rule'' r n | None \<Rightarrow> []) order) @ rest)
    = map (\<lambda>r. (hitName r, u64Str (the (hits r)))) order @ samples rest"
  using assms
proof (induction order)
  case (Cons r order)
  then obtain n where "hits r = Some n" "nl \<notin> set r" by auto
  with Cons samples_block [of "''edr_rule_hits_total''" "''Total rule hits''" "''counter''" "hitName r" "u64Str n"] show ?case
    by (simp add: writeCounterWithLabel_def hitName_def gostr)
qed simp

section \<open>Properties\<close>

text \<open>
  A scraper reads the agent's counters.  When the rule identifiers hold no line
  breaks, the samples of the page are exactly the counters of the agent, one sample per rule that
  was hit, the start, the health of the probes and the size of the history, in this order.  The
  uptime is never among them.
\<close>

theorem page_holds_counters:
  assumes "set order = dom (ag_RuleHits a)" "\<forall>r \<in> dom (ag_RuleHits a). nl \<notin> set r" "\<And>i. plainText (fmtG i)"
  shows "samples (prometheusPage fmtG order now a) =
    [(''edr_events_total'', u64Str (ag_EventCount a)), (''edr_responses_total'', u64Str (ag_ResponseCount a)),
     (''edr_suppressed_total'', u64Str (ag_SuppressedTotal a)), (''edr_runs_total'', u64Str (ag_RunCount a))]
    @ map (\<lambda>r. (hitName r, u64Str (the (ag_RuleHits a r)))) order
    @ [(''edr_started_at_timestamp'', fmtG (unixOf (ag_StartedAt a))),
       (''edr_bpf_attached'', if Attached (agentBPFHealth now a) then ''1'' else ''0''),
       (''edr_bpf_events_drained_total'', u64Str (EventsDrained (agentBPFHealth now a))),
       (''edr_bpf_overload_drops_total'', u64Str (OverloadDrops (agentBPFHealth now a))),
       (''edr_response_history_size'', fmtG (int (length (ResponseHistory 0 a))))]"
proof -
  have hits: "nl \<notin> set r \<and> ag_RuleHits a r \<noteq> None" if "r \<in> set order" for r using assms(1,2) that by auto
  have end': "samples (writeGauge fmtG ''edr_response_history_size'' ''Number of responses in history'' n)
      = [(''edr_response_history_size'', fmtG n)]" for n
    using samples_gauge [of "''edr_response_history_size''" "''Number of responses in history''" fmtG n "[]"] assms(3)
    by (simp add: samples_def [of "[]"] gostr)
  have m: "metricsMap (metrics now a) ''event_count'' = Some (AU64 (ag_EventCount a))"
    "metricsMap (metrics now a) ''response_count'' = Some (AU64 (ag_ResponseCount a))"
    "metricsMap (metrics now a) ''suppressed_total'' = Some (AU64 (ag_SuppressedTotal a))"
    "metricsMap (metrics now a) ''run_count'' = Some (AU64 (ag_RunCount a))"
    "metricsMap (metrics now a) ''rule_hits'' = Some (AHits (ag_RuleHits a))"
    "metricsMap (metrics now a) ''uptime_sec'' = Some (AI64 (uptime_sec (metrics now a)))"
    "metricsMap (metrics now a) ''started_at'' = Some (ATime (ag_StartedAt a))"
    by (simp_all add: metricsMap_def metrics_def split: option.split)
  show ?thesis
    by (simp add: prometheusPage_def WritePrometheus_def m toUint64_def samples_hits [OF hits] end' assms(3) adaptHealth_def adaptHistory_def gostr)
qed

theorem page_holds_counters_witness:
  "let a = (demoAgent None)\<lparr>ag_RuleHits := [''kill-nc'' \<mapsto> 2], ag_EventCount := 5\<rparr>
   in take 2 (drop 4 (samples (prometheusPage itoa [''kill-nc''] 0 a)))
      = [(hitName ''kill-nc'', u64Str 2), (''edr_started_at_timestamp'', itoa (unixOf None))]"
proof -
  let ?a = "(demoAgent None)\<lparr>ag_RuleHits := [''kill-nc'' \<mapsto> 2], ag_EventCount := 5\<rparr>"
  have "plainText (itoa i)" for i
  proof -
    have "isDigitC c \<or> c = CHR ''-''" if "c \<in> set (itoa i)" for c
      using that natStr_digits [of "nat i"] natStr_digits [of "nat (- i)"] by (auto simp: itoa_def list_all_iff split: if_splits)
    moreover have "\<not> isDigitC nl" "\<not> isDigitC (CHR '' '')" "nl \<noteq> CHR ''-''" by (simp_all add: isDigitC_def gostr)
    ultimately show ?thesis by (auto simp: plainText_def)
  qed
  with page_holds_counters [of "[''kill-nc'']" ?a itoa 0] show ?thesis by (simp add: Let_def demoAgent_def gostr)
qed

end
