(* ===== verification/Server.thy ===== *)
theory Server
  imports System EventQuery Security Keys Anchor Baseline Prometheus
begin

text \<open>
  The control server, \<open>internal/control/server.go\<close> and \<open>forensics.go\<close>: the handlers of the
  HTTP interface on the agent's socket, one definition each, and the management of policy
  files behind them.  A handler maps the request and the state (the agent, its logger and
  host, and whether a shutdown has been scheduled) to the reply and the new state.  Errors
  and bodies are values.
\<close>

section \<open>Requests, replies, options\<close>

record Request =
  rq_method :: string
  rq_query :: "string \<Rightarrow> string"
  rq_body :: string
  rq_peer :: "peerCred option"

datatype sig_error =
    SigningKeyNotConfigured
  | SigMissing
  | SigUnreadable string
  | PublicKeyError sign_error
  | SigPolicyUnreadable
  | SigDecode sign_error
  | SigMismatch

datatype versions_error =
    NoVersions
  | VersionNotFound string
  | VersionsUnreadable string
  | BackupFailed string
  | RestoreOpenFailed
  | RestoreWriteFailed string

datatype srv_error =
    ErrAuth auth_error
  | ErrMethod
  | ErrPath path_error
  | ErrPolicyPathRequired
  | ErrPolicy policy_error
  | ErrSignature sig_error
  | ErrVersions versions_error
  | ErrQuery string
  | ErrBadSeq
  | ErrVerify chain_error
  | ErrForensics string
  | ErrShutdownDisabled
  | ErrShutdownUnconfigured
  | ErrBadBody
  | ErrPIDRequired
  | ErrPathParam
  | ErrList string
  | ErrBaseline baseline_error
  | ErrNotFound

record policyVersion =
  v_Name :: string
  v_Path :: string
  v_Size :: int
  v_ModTime :: gotime

record ForensicsBundle =
  fb_ExportedAt :: gotime
  fb_Metrics :: Metrics
  fb_Policy :: Policy
  fb_Responses :: "ResponseRecord list"
  fb_Snapshot :: "Collector.Snapshot"
  fb_Events :: "jobject list"
  fb_Summary :: eventQueryResult
  fb_RuleHits :: "string \<rightharpoonup> 64 word"

datatype body =
    BHealth SuppressorSnapshot
  | BMetrics Metrics
  | BStatus nat bool bool nat
  | BReload string nat string
  | BVersions "policyVersion list"
  | BRollback string nat
  | BSignature string
  | BFailed string                 \<comment> \<open>\<open>ok\<close> false, with the detail\<close>
  | BNotOK sig_error
  | BEvents eventQueryResult
  | BSeq seq_verdict
  | BVerify VerifyResult ChainState "anchor_issue list"
  | BResponses "ResponseRecord list"
  | BResult Result
  | BBundle ForensicsBundle
  | BShutdown
  | BFrozen "int \<rightharpoonup> string"
  | BOK
  | BPage string
  | BQuarantined "QuarantineMeta list"
  | BFindings "Finding list"

datatype reply = Reply body | Fail nat srv_error

record ServerOptions =
  so_BaselinePath :: string
  so_PolicyPath :: string
  so_EventPath :: string
  so_ArtifactDir :: string
  so_AllowedUIDs :: "int list"
  so_IntegrityKey :: string
  so_SigningKeyPath :: string
  so_Anchor :: "Anchor option"
  so_Shutdown :: bool                         \<comment> \<open>whether a handler is configured\<close>
  so_WebhookTestFn :: "string option option"  \<comment> \<open>the result of the test, when configured\<close>
  so_MetricsWriter :: "string option"          \<comment> \<open>the page it writes, when configured\<close>

text \<open>What the server finds outside: libraries, the kernel's answers, the faults of file operations.\<close>

record SrvEnv =
  sv_lib :: Lib
  sv_wenv :: "Event \<Rightarrow> Logger \<Rightarrow> WriteEnv"
  sv_codec :: metaCodec
  sv_kern :: "Host \<Rightarrow> Kernel"
  sv_responder :: SoftResponder
  sv_base :: "machine Env"
  sv_ql :: QueryLib
  sv_decodePolicy :: "string \<Rightarrow> Policy option"
  sv_edVerify :: "string \<Rightarrow> string \<Rightarrow> string \<Rightarrow> bool"
  sv_between :: "filesys \<Rightarrow> filesys"   \<comment> \<open>what others do between the reading of a policy and of its signature\<close>
  sv_lstat :: "path \<Rightarrow> stat"
  sv_cwd :: "path option"
  sv_procFile :: "string \<Rightarrow> string option"
  sv_anchor :: AnchorEnv
  sv_decodeTemplate :: "string \<Rightarrow> Template option"
  sv_readBaseline :: "string \<Rightarrow> string + string"
  sv_statPerm :: "string \<Rightarrow> string + 32 word"
  sv_snapshot :: "string + Collector.Snapshot"
  sv_mapAdd :: "string \<Rightarrow> int"
  sv_mapDel :: "string \<Rightarrow> int"
  sv_stamp :: "gotime \<Rightarrow> string"       \<comment> \<open>the time in the name of a backup\<close>
  sv_modTime :: "string \<Rightarrow> gotime"
  sv_infoErr :: "string \<Rightarrow> bool"
  sv_versionsErr :: "string option"
  sv_sigErr :: "string option"
  sv_mkdirErr :: "string option"
  sv_copyErr :: "(string \<times> nat) option"   \<comment> \<open>the error and the bytes copied\<close>
  sv_restoreErr :: "(string \<times> nat option) option" \<comment> \<open>the file cannot be opened, or the bytes copied\<close>
  sv_queryErr :: "string option"
  sv_freezeBody :: "string \<Rightarrow> (int \<times> string \<times> string) option"
  sv_resumeBody :: "string \<Rightarrow> int option"
  sv_encodeBundle :: "ForensicsBundle \<Rightarrow> string option"
  sv_bundleErr :: "(string \<times> string) option"
  sv_fmtG :: "int \<Rightarrow> string"               \<comment> \<open>the format \<open>%g\<close> of a whole number\<close>
  sv_hitOrder :: "string list"             \<comment> \<open>the order in which the rule hits are visited\<close>

type_synonym srv = "sys \<times> bool"

definition srvFs :: "srv \<Rightarrow> filesys" where
  "srvFs s = h_fs (snd (snd (fst s)))"

definition setFs :: "filesys \<Rightarrow> srv \<Rightarrow> srv" where
  "setFs fs s = (case s of ((a, l, h), stop) \<Rightarrow> ((a, l, h\<lparr>h_fs := fs\<rparr>), stop))"

definition onHost :: "(Host \<Rightarrow> Result \<times> Host) \<Rightarrow> srv \<Rightarrow> reply \<times> srv" where
  "onHost f s = (case s of ((a, l, h), stop) \<Rightarrow> (case f h of (r, h') \<Rightarrow> (Reply (BResult r), ((a, l, h'), stop))))"

definition logWith :: "SrvEnv \<Rightarrow> (gotime \<Rightarrow> Event) \<Rightarrow> srv \<Rightarrow> srv" where
  "logWith env ev s =
     (case s of
        ((a, w), stop) \<Rightarrow>
          (let svc = services (sv_lib env) (sv_wenv env) (sv_codec env) (sv_kern env) (sv_responder env) (sv_base env);
               (now, a') = readClock svc a
           in ((a', writeLog svc (ev now) w), stop)))"

section \<open>Policy files\<close>

definition versionsDir :: "string \<Rightarrow> string" where
  "versionsDir p = joinName (dirOf p) ''.versions''"

definition backupPolicy :: "SrvEnv \<Rightarrow> gotime \<Rightarrow> string \<Rightarrow> filesys \<Rightarrow> string option \<times> filesys" where
  "backupPolicy env now p fs =
     (if p = [] then (None, fs)
      else (case fsGet fs p of
              None \<Rightarrow> (Some ''open'', fs)
            | Some content \<Rightarrow>
                (case sv_mkdirErr env of
                   Some e \<Rightarrow> (Some e, fs)
                 | None \<Rightarrow>
                     (let out = joinName (versionsDir p) (baseOf p @ ''.'' @ sv_stamp env now @ ''.bak'') in
                      if fsGet fs out \<noteq> None then (Some ''file exists'', fs)
                      else (case sv_copyErr env of
                              Some (e, n) \<Rightarrow> (Some e, fsPut fs out (take n content))
                            | None \<Rightarrow> (None, fsPut fs out content))))))"

text \<open>Versions of the same time come in no particular order; here they keep that of the directory.\<close>

definition listPolicyVersions :: "SrvEnv \<Rightarrow> string \<Rightarrow> filesys \<Rightarrow> versions_error + policyVersion list" where
  "listPolicyVersions env policyPath fs =
     (case sv_versionsErr env of
        Some e \<Rightarrow> Inl (VersionsUnreadable e)
      | None \<Rightarrow>
          (let dir = versionsDir policyPath;
               names = filter (\<lambda>n. hasSuffix n ''.bak'' \<and> CHR ''/'' \<notin> set n \<and> \<not> sv_infoErr env (joinName dir n)) (readDir fs dir);
               vs = map (\<lambda>n. let p = joinName dir n in
                      \<lparr>v_Name = n, v_Path = p, v_Size = (case fsGet fs p of Some c \<Rightarrow> int (length c) | None \<Rightarrow> 0), v_ModTime = sv_modTime env p\<rparr>) names
           in Inr (sort_key (\<lambda>v. - v_ModTime v) vs)))"

definition rollbackPolicy :: "SrvEnv \<Rightarrow> gotime \<Rightarrow> string \<Rightarrow> string \<Rightarrow> filesys \<Rightarrow> (versions_error + string) \<times> filesys" where
  "rollbackPolicy env now policyPath version fs =
     (case listPolicyVersions env policyPath fs of
        Inl e \<Rightarrow> (Inl e, fs)
      | Inr [] \<Rightarrow> (Inl NoVersions, fs)
      | Inr (v0 # vs) \<Rightarrow>
          (case (if version = [] then Some v0 else find (\<lambda>v. v_Name v = version) (v0 # vs)) of
             None \<Rightarrow> (Inl (VersionNotFound version), fs)
           | Some selected \<Rightarrow>
               (case backupPolicy env now policyPath fs of
                  (Some e, fs1) \<Rightarrow> (Inl (BackupFailed e), fs1)
                | (None, fs1) \<Rightarrow>
                    (case fsGet fs1 (v_Path selected) of
                       None \<Rightarrow> (Inl RestoreOpenFailed, fs1)
                     | Some content \<Rightarrow>
                         (case sv_restoreErr env of
                            Some (e, None) \<Rightarrow> (Inl (RestoreWriteFailed e), fs1)
                          | Some (e, Some n) \<Rightarrow> (Inl (RestoreWriteFailed e), fsPut fs1 policyPath (take n content))
                          | None \<Rightarrow> (Inr (v_Path selected), fsPut fs1 policyPath content))))))"

definition verifyPolicySig :: "SrvEnv \<Rightarrow> string \<Rightarrow> string \<Rightarrow> filesys \<Rightarrow> sig_error option" where
  "verifyPolicySig env policyPath signingKeyPath fs =
     (if signingKeyPath = [] then Some SigningKeyNotConfigured
      else (case (sv_sigErr env, fsGet fs (SignatureFile policyPath)) of
              (Some e, _) \<Rightarrow> Some (SigUnreadable e)
            | (None, None) \<Rightarrow> Some SigMissing
            | (None, Some sigData) \<Rightarrow>
                (case LoadPublicKey None fs (signingKeyPath @ ''.pub'') of
                   Inl e \<Rightarrow> Some (PublicKeyError e)
                 | Inr pub \<Rightarrow>
                     (case fsGet fs policyPath of
                        None \<Rightarrow> Some SigPolicyUnreadable
                      | Some raw \<Rightarrow>
                          (case VerifySignature (sv_edVerify env) pub raw sigData of
                             Inl e \<Rightarrow> Some (SigDecode e)
                           | Inr False \<Rightarrow> Some SigMismatch
                           | Inr True \<Rightarrow> None)))))"

text \<open>The end of a reload and of a rollback: load, check the signature, install.\<close>

definition installPolicy :: "SrvEnv \<Rightarrow> ServerOptions \<Rightarrow> string \<Rightarrow> (Policy \<Rightarrow> body) \<Rightarrow> srv \<Rightarrow> reply \<times> srv" where
  "installPolicy env opts p reply_of s =
     (case loadPolicy (sv_decodePolicy env) (fsGet (srvFs s)) p of
        Inl e \<Rightarrow> (Fail 400 (ErrPolicy e), s)
      | Inr pol \<Rightarrow>
          (let s1 = setFs (sv_between env (srvFs s)) s in
           case verifyPolicySig env p (so_SigningKeyPath opts) (srvFs s1) of
             Some e \<Rightarrow> (Fail 403 (ErrSignature e), s1)
           | None \<Rightarrow>
               (case s1 of ((a, w), stop) \<Rightarrow> (Reply (reply_of pol), ((ReplacePolicy (sv_mapAdd env) (sv_mapDel env) pol a, w), stop)))))"

section \<open>Handlers\<close>

type_synonym handler = "Request \<Rightarrow> srv \<Rightarrow> reply \<times> srv"

definition requireAuthorized :: "ServerOptions \<Rightarrow> handler \<Rightarrow> handler" where
  "requireAuthorized opts f rq s =
     (case authorize (rq_peer rq) (so_AllowedUIDs opts) of Some e \<Rightarrow> (Fail 403 (ErrAuth e), s) | None \<Rightarrow> f rq s)"

definition requirePost :: "handler \<Rightarrow> handler" where
  "requirePost f rq s = (if rq_method rq \<noteq> ''POST'' then (Fail 405 ErrMethod, s) else f rq s)"

definition agentOf :: "srv \<Rightarrow> Agent" where
  "agentOf s = fst (fst s)"

definition handleHealth :: handler where
  "handleHealth rq s = (Reply (BHealth (Suppress.Snapshot (ag_Suppressor (agentOf s)))), s)"

text \<open>The clock of a request that changes nothing is one reading.\<close>

definition srvNow :: "SrvEnv \<Rightarrow> srv \<Rightarrow> gotime" where
  "srvNow env s = clk (sv_base env) (ag_tick (agentOf s))"

definition handleMetrics :: "SrvEnv \<Rightarrow> handler" where
  "handleMetrics env rq s = (Reply (BMetrics (metrics (srvNow env s) (agentOf s))), s)"

definition handleStatus :: "SrvEnv \<Rightarrow> handler" where
  "handleStatus env rq s =
     (let a = agentOf s; pol = CurrentPolicy a in
      (Reply (BStatus (length (p_Rules pol)) (pa_Mode (p_ProcessAccess pol) \<noteq> [])
                (Attached (agentBPFHealth (srvNow env s) a)) (length (ResponseHistory 0 a))), s))"

text \<open>The path a request names, or the configured one.\<close>

definition policyPathOf :: "SrvEnv \<Rightarrow> ServerOptions \<Rightarrow> Request \<Rightarrow> srv_error + string" where
  "policyPathOf env opts rq =
     (let override = rq_query rq ''path'' in
      case (if override \<noteq> []
            then (case safePathUnder (sv_lstat env) (sv_cwd env) (dirOf (so_PolicyPath opts)) override of
                    Inl e \<Rightarrow> Inl (ErrPath e) | Inr p \<Rightarrow> Inr (pathText p))
            else Inr (so_PolicyPath opts)) of
        Inl e \<Rightarrow> Inl e
      | Inr p \<Rightarrow> if p = [] then Inl ErrPolicyPathRequired else Inr p)"

definition handleReload :: "SrvEnv \<Rightarrow> ServerOptions \<Rightarrow> handler" where
  "handleReload env opts rq s =
     (case policyPathOf env opts rq of
        Inl e \<Rightarrow> (Fail 400 e, s)
      | Inr p \<Rightarrow>
          (let s1 = (if so_PolicyPath opts \<noteq> []
                     then setFs (snd (backupPolicy env (srvNow env s) (so_PolicyPath opts) (srvFs s))) s else s)
           in installPolicy env opts p (\<lambda>pol. BReload p (length (p_Rules pol)) (pa_Mode (p_ProcessAccess pol))) s1))"

definition handleVersions :: "SrvEnv \<Rightarrow> ServerOptions \<Rightarrow> handler" where
  "handleVersions env opts rq s =
     (case listPolicyVersions env (so_PolicyPath opts) (srvFs s) of
        Inl e \<Rightarrow> (Fail 400 (ErrVersions e), s)
      | Inr vs \<Rightarrow> (Reply (BVersions vs), s))"

definition handleRollback :: "SrvEnv \<Rightarrow> ServerOptions \<Rightarrow> handler" where
  "handleRollback env opts rq s =
     (case rollbackPolicy env (srvNow env s) (so_PolicyPath opts) (rq_query rq ''version'') (srvFs s) of
        (Inl e, fs) \<Rightarrow> (Fail 400 (ErrVersions e), setFs fs s)
      | (Inr from, fs) \<Rightarrow> installPolicy env opts (so_PolicyPath opts) (\<lambda>pol. BRollback from (length (p_Rules pol))) (setFs fs s))"

definition handleVerifySignature :: "SrvEnv \<Rightarrow> ServerOptions \<Rightarrow> handler" where
  "handleVerifySignature env opts rq s =
     (case policyPathOf env opts rq of
        Inl e \<Rightarrow> (Fail 400 e, s)
      | Inr p \<Rightarrow>
          if so_SigningKeyPath opts = [] then (Reply (BFailed ''signing key is not configured''), s)
          else (case verifyPolicySig env p (so_SigningKeyPath opts) (srvFs s) of
                  Some e \<Rightarrow> (Reply (BNotOK e), s)
                | None \<Rightarrow> (Reply (BSignature p), s)))"

definition handleEvents :: "SrvEnv \<Rightarrow> ServerOptions \<Rightarrow> handler" where
  "handleEvents env opts rq s =
     (case queryEvents (sv_ql env) (sv_queryErr env) None (srvFs s) (so_EventPath opts) (eventQueryFromRequest (sv_ql env) (rq_query rq)) of
        Inl e \<Rightarrow> (Fail 400 (ErrQuery e), s)
      | Inr r \<Rightarrow> (Reply (BEvents r), s))"

text \<open>\<open>strconv.ParseUint\<close> in base 10 for 64 bits.\<close>

definition parseUint64 :: "string \<Rightarrow> 64 word option" where
  "parseUint64 t = (case parseNat t of Some n \<Rightarrow> if n < 2 ^ 64 then Some (word_of_nat n) else None | None \<Rightarrow> None)"

definition handleVerify :: "SrvEnv \<Rightarrow> ServerOptions \<Rightarrow> handler" where
  "handleVerify env opts rq s =
     (let seqStr = rq_query rq ''seq'' in
      if seqStr \<noteq> [] then
        (case parseUint64 seqStr of
           None \<Rightarrow> (Fail 400 ErrBadSeq, s)
         | Some q \<Rightarrow>
             (case verifyEventSeq (sv_lib env) (sv_queryErr env) (srvFs s) (so_EventPath opts) (so_IntegrityKey opts) q of
                Inl e \<Rightarrow> (Fail 400 (ErrQuery e), s)
              | Inr v \<Rightarrow> (Reply (BSeq v), s)))
      else
        (case Verify (sv_lib env) False (srvFs s) (so_EventPath opts) (so_IntegrityKey opts) of
           Inl e \<Rightarrow> (Fail 400 (ErrVerify e), s)
         | Inr r \<Rightarrow>
             (let snap = ChainSnapshot (Some (fst (snd (fst s)))) in
              (Reply (BVerify r snap
                 (case so_Anchor opts of
                    None \<Rightarrow> []
                  | Some an \<Rightarrow> CrossVerify (sv_anchor env) (cs_ChainID snap) (cs_LastSeq snap) (cs_LastHash snap) (Some an) (srvFs s))), s))))"

definition handleResponses :: handler where
  "handleResponses rq s = (Reply (BResponses (ResponseHistory (intParam (rq_query rq) ''limit'' defaultEventLimit) (agentOf s))), s)"

definition handleNFTList :: "SrvEnv \<Rightarrow> handler" where
  "handleNFTList env rq s = onHost (\<lambda>h. ListRules (sv_kern env h) (NFT (sv_responder env)) h) s"

definition handleNFTRollback :: "SrvEnv \<Rightarrow> handler" where
  "handleNFTRollback env rq s = onHost (\<lambda>h. Rollback (sv_kern env h) (NFT (sv_responder env)) h) s"

definition ExportForensics :: "SrvEnv \<Rightarrow> string \<Rightarrow> string \<Rightarrow> int \<Rightarrow> srv \<Rightarrow> (string + ForensicsBundle) \<times> srv" where
  "ExportForensics env eventPath outPath eventLimit s =
     (let limit = (if eventLimit \<le> 0 then 200 else eventLimit); a = agentOf s; now = srvNow env s in
      case sv_snapshot env of
        Inl e \<Rightarrow> (Inl e, s)
      | Inr snap \<Rightarrow>
          (case queryEvents (sv_ql env) (sv_queryErr env) None (srvFs s) eventPath
                 \<lparr>q_Limit = limit, q_Offset = 0, q_Category = [], q_Severity = [], q_RuleID = [], q_FilePath = [], q_FileOp = [],
                  q_SubjectName = [], q_SubjectPath = [], q_SubjectCmdline = [], q_Since = None, q_Until = None\<rparr> of
             Inl e \<Rightarrow> (Inl e, s)
           | Inr events \<Rightarrow>
               (let bundle = \<lparr>fb_ExportedAt = now, fb_Metrics = metrics now a, fb_Policy = CurrentPolicy a,
                      fb_Responses = ResponseHistory 0 a, fb_Snapshot = snap, fb_Events = qr_Events events, fb_Summary = events,
                      fb_RuleHits = ag_RuleHits a\<rparr> in
                if outPath = [] then (Inr bundle, s)
                else (case sv_mkdirErr env of
                        Some e \<Rightarrow> (Inl e, s)
                      | None \<Rightarrow>
                          (case sv_encodeBundle env bundle of
                             None \<Rightarrow> (Inl ''marshal'', s)
                           | Some raw \<Rightarrow>
                               (case sv_bundleErr env of
                                  Some (e, left) \<Rightarrow> (Inl e, setFs (fsPut (srvFs s) outPath left) s)
                                | None \<Rightarrow> (Inr bundle, setFs (fsPut (srvFs s) outPath (raw @ [nl])) s)))))))"

definition handleForensics :: "SrvEnv \<Rightarrow> ServerOptions \<Rightarrow> handler" where
  "handleForensics env opts rq s =
     (let override = rq_query rq ''path'' in
      case (if override \<noteq> []
            then map_sum id pathText (safePathUnder (sv_lstat env) (sv_cwd env) (so_ArtifactDir opts) override)
            else Inr []) of
        Inl e \<Rightarrow> (Fail 400 (ErrPath e), s)
      | Inr outPath \<Rightarrow>
          (case ExportForensics env (so_EventPath opts) outPath (intParam (rq_query rq) ''event_limit'' 200) s of
             (Inl e, s') \<Rightarrow> (Fail 400 (ErrForensics e), s')
           | (Inr bundle, s') \<Rightarrow> (Reply (BBundle bundle), s')))"

definition auditShutdownEvent :: "peerCred \<Rightarrow> 32 word \<Rightarrow> string \<Rightarrow> string \<Rightarrow> gotime \<Rightarrow> Event" where
  "auditShutdownEvent cred loginUID decision reason now =
     zeroEvent\<lparr>e_EventID := ''shutdown-'' @ decision @ ''-'' @ itoa now, e_Category := ''self_protection'', e_Severity := ''critical'',
       e_Subject := Some [(''peer_uid'', VU32 (uid cred)), (''peer_gid'', VU32 (gid cred)), (''peer_pid'', VInt (pid cred)),
                          (''peer_loginuid'', VU32 loginUID)],
       e_Action := (if decision \<noteq> ''allow'' then ''shutdown_denied'' else ''shutdown''), e_Decision := decision,
       e_RuleID := ''self-protect-shutdown'',
       e_Evidence := Some [(''reason'', VStr reason), (''boundary'', VStr ''uid=0 and loginuid in {0,4294967295}'')]\<rparr>"

text \<open>The message of an authorization error.\<close>

definition authText :: "auth_error \<Rightarrow> string" where
  "authText e =
     (case e of
        MissingCredentials \<Rightarrow> ''missing peer credentials''
      | UIDNotRoot u \<Rightarrow> ''uid '' @ natStr (unat u) @ '' is not authorized for shutdown''
      | LoginUIDNotRoot u \<Rightarrow> ''peer loginuid '' @ natStr (unat u) @ '' is not authorized for shutdown''
      | NotAuthorized u \<Rightarrow> ''uid '' @ natStr (unat u) @ '' is not authorized''
      | NoAuthorizedUIDs \<Rightarrow> ''no authorized uids configured''
      | InvalidPID p \<Rightarrow> ''read peer loginuid: invalid peer pid '' @ itoa p
      | _ \<Rightarrow> ''read peer loginuid'')"

definition handleShutdown :: "SrvEnv \<Rightarrow> ServerOptions \<Rightarrow> handler" where
  "handleShutdown env opts rq s =
     (case shutdownCredential (sv_procFile env) (rq_peer rq) of
        (cred, loginUID, Some e) \<Rightarrow>
          (Fail 403 (ErrAuth e), logWith env (auditShutdownEvent cred loginUID ''deny'' (authText e)) s)
      | (cred, loginUID, None) \<Rightarrow>
          if \<not> sp_ShutdownEnabled (p_SelfProtection (CurrentPolicy (agentOf s)))
          then (Fail 403 ErrShutdownDisabled,
                logWith env (auditShutdownEvent cred loginUID ''deny'' ''self_protection.shutdown_enabled is false'') s)
          else
            (case authorizeRootLogin (sv_procFile env) (rq_peer rq) of
               (cred, loginUID, Some e) \<Rightarrow>
                 (Fail 403 (ErrAuth e), logWith env (auditShutdownEvent cred loginUID ''deny'' (authText e)) s)
             | (cred, loginUID, None) \<Rightarrow>
                 if \<not> so_Shutdown opts
                 then (Fail 503 ErrShutdownUnconfigured,
                       logWith env (auditShutdownEvent cred loginUID ''deny'' ''shutdown handler is not configured'') s)
                 else (Reply BShutdown,
                       (fst (logWith env (auditShutdownEvent cred loginUID ''allow'' ''root login shutdown accepted'') s), True))))"

definition handleFreeze :: "SrvEnv \<Rightarrow> handler" where
  "handleFreeze env rq s =
     (case sv_freezeBody env (take 4096 (rq_body rq)) of
        None \<Rightarrow> (Fail 400 ErrBadBody, s)
      | Some (p, procPath, ticks) \<Rightarrow>
          if p \<le> 0 then (Fail 400 ErrPIDRequired, s)
          else onHost (\<lambda>h. Suspend (sv_kern env h) p procPath ticks h) s)"

definition handleResume :: "SrvEnv \<Rightarrow> handler" where
  "handleResume env rq s =
     (case sv_resumeBody env (take 4096 (rq_body rq)) of
        None \<Rightarrow> (Fail 400 ErrBadBody, s)
      | Some p \<Rightarrow> if p \<le> 0 then (Fail 400 ErrPIDRequired, s) else onHost (\<lambda>h. Resume (sv_kern env h) p h) s)"

definition handleFrozen :: handler where
  "handleFrozen rq s = (Reply (BFrozen (SuspendedPIDs (snd (snd (fst s))))), s)"

definition handleIsolate :: "SrvEnv \<Rightarrow> handler" where
  "handleIsolate env rq s = onHost (\<lambda>h. ApplyIsolate (sv_kern env h) (NFT (sv_responder env)) h) s"

definition handleNetRestore :: "SrvEnv \<Rightarrow> handler" where
  "handleNetRestore env rq s = onHost (\<lambda>h. Rollback (sv_kern env h) (NFT (sv_responder env)) h) s"

definition handleNotifyTest :: "ServerOptions \<Rightarrow> handler" where
  "handleNotifyTest opts rq s =
     (case so_WebhookTestFn opts of
        None \<Rightarrow> (Reply (BFailed ''webhook not configured''), s)
      | Some (Some e) \<Rightarrow> (Reply (BFailed e), s)
      | Some None \<Rightarrow> (Reply BOK, s))"

definition handlePrometheus :: "SrvEnv \<Rightarrow> ServerOptions \<Rightarrow> handler" where
  "handlePrometheus env opts rq s =
     (case so_MetricsWriter opts of
        Some page \<Rightarrow> (Reply (BPage page), s)
      | None \<Rightarrow> (Reply (BPage (prometheusPage (sv_fmtG env) (sv_hitOrder env) (srvNow env s) (agentOf s))), s))"

definition handleQuarantineList :: "SrvEnv \<Rightarrow> handler" where
  "handleQuarantineList env rq s =
     (let h = snd (snd (fst s)) in
      case ListQuarantined (sv_codec env) (sv_kern env h) (Quarantine (sv_responder env)) (h_fs h) of
        Inl e \<Rightarrow> (Fail 500 (ErrList e), s)
      | Inr list' \<Rightarrow> (Reply (BQuarantined list'), s))"

definition handleQuarantineRestore :: "SrvEnv \<Rightarrow> handler" where
  "handleQuarantineRestore env rq s =
     (let orig = rq_query rq ''path'' in
      if orig = [] then (Fail 400 ErrPathParam, s)
      else onHost (\<lambda>h. Restore (sv_codec env) (sv_kern env h) (Quarantine (sv_responder env)) orig h) s)"

definition handleBaseline :: "SrvEnv \<Rightarrow> ServerOptions \<Rightarrow> handler" where
  "handleBaseline env opts rq s =
     (case LoadBaseline (sv_decodeTemplate env) (sv_readBaseline env) (so_BaselinePath opts) of
        Inl e \<Rightarrow> (Fail 400 (ErrBaseline e), s)
      | Inr t \<Rightarrow> (Reply (BFindings (RunBaseline (sv_statPerm env) t)), s))"

section \<open>Routes\<close>

text \<open>The routes in the order of the source.  Each handler makes its own check of the peer.\<close>

definition NewServerWithOptions :: "SrvEnv \<Rightarrow> ServerOptions \<Rightarrow> (string \<times> handler) list" where
  "NewServerWithOptions env opts =
     [(''/v0/health'', requireAuthorized opts handleHealth),
      (''/v0/metrics'', requireAuthorized opts (handleMetrics env)),
      (''/v0/status'', requireAuthorized opts (handleStatus env)),
      (''/v0/policy/reload'', requireAuthorized opts (requirePost (handleReload env opts))),
      (''/v0/policy/versions'', requireAuthorized opts (handleVersions env opts)),
      (''/v0/policy/rollback'', requireAuthorized opts (requirePost (handleRollback env opts))),
      (''/v0/policy/verify-signature'', requireAuthorized opts (requirePost (handleVerifySignature env opts))),
      (''/v0/events'', requireAuthorized opts (handleEvents env opts)),
      (''/v0/events/verify'', requireAuthorized opts (handleVerify env opts)),
      (''/v0/responses'', requireAuthorized opts handleResponses),
      (''/v0/network/nft/list'', requireAuthorized opts (handleNFTList env)),
      (''/v0/network/nft/rollback'', requireAuthorized opts (requirePost (handleNFTRollback env))),
      (''/v0/forensics/export'', requireAuthorized opts (requirePost (handleForensics env opts))),
      (''/v0/shutdown'', requirePost (handleShutdown env opts)),
      (''/v0/process/freeze'', requireAuthorized opts (requirePost (handleFreeze env))),
      (''/v0/process/resume'', requireAuthorized opts (requirePost (handleResume env))),
      (''/v0/process/frozen'', requireAuthorized opts handleFrozen),
      (''/v0/network/isolate'', requireAuthorized opts (requirePost (handleIsolate env))),
      (''/v0/network/restore'', requireAuthorized opts (requirePost (handleNetRestore env))),
      (''/v0/notify/test'', requireAuthorized opts (requirePost (handleNotifyTest opts))),
      (''/v0/metrics/prometheus'', requireAuthorized opts (handlePrometheus env opts)),
      (''/v0/quarantine/list'', requireAuthorized opts (handleQuarantineList env)),
      (''/v0/quarantine/restore'', requireAuthorized opts (requirePost (handleQuarantineRestore env))),
      (''/v0/baseline/run'', requireAuthorized opts (handleBaseline env opts))]"

definition serve :: "SrvEnv \<Rightarrow> ServerOptions \<Rightarrow> string \<Rightarrow> handler" where
  "serve env opts url rq s =
     (case map_of (NewServerWithOptions env opts) url of None \<Rightarrow> (Fail 404 ErrNotFound, s) | Some f \<Rightarrow> f rq s)"

section \<open>What the handlers leave alone\<close>

text \<open>
  Every handler behind the check of the peer leaves the shutdown alone and changes the policy at
  most to one that was loaded and whose signature was then found good.
\<close>

definition installed :: "SrvEnv \<Rightarrow> ServerOptions \<Rightarrow> Policy \<Rightarrow> bool" where
  "installed env opts pol \<longleftrightarrow> (\<exists>p fs. loadPolicy (sv_decodePolicy env) (fsGet fs) p = Inr pol
     \<and> verifyPolicySig env p (so_SigningKeyPath opts) (sv_between env fs) = None)"

definition signedOnly :: "SrvEnv \<Rightarrow> ServerOptions \<Rightarrow> handler \<Rightarrow> bool" where
  "signedOnly env opts f \<longleftrightarrow> (\<forall>rq s. snd (snd (f rq s)) = snd s
     \<and> (ag_Policy (agentOf (snd (f rq s))) = ag_Policy (agentOf s) \<or> installed env opts (ag_Policy (agentOf (snd (f rq s))))))"

lemma setFs_simps [simp]: "snd (setFs fs s) = snd s" "agentOf (setFs fs s) = agentOf s" "srvFs (setFs fs s) = fs"
  by (simp_all add: setFs_def agentOf_def srvFs_def split: prod.split)

lemma onHost_keeps [simp]: "snd (snd (onHost f s)) = snd s" "agentOf (snd (onHost f s)) = agentOf s"
  by (simp_all add: onHost_def agentOf_def split: prod.split)

lemma logWith_keeps [simp]: "snd (logWith env ev s) = snd s" "ag_Policy (agentOf (logWith env ev s)) = ag_Policy (agentOf s)"
  by (simp_all add: logWith_def agentOf_def readClock_def Let_def split: prod.split)

lemma installPolicy_keeps:
  "snd (snd (installPolicy env opts p reply_of s)) = snd s"
  "ag_Policy (agentOf (snd (installPolicy env opts p reply_of s))) = ag_Policy (agentOf s)
    \<or> installed env opts (ag_Policy (agentOf (snd (installPolicy env opts p reply_of s))))"
proof -
  show "snd (snd (installPolicy env opts p reply_of s)) = snd s"
    by (simp add: installPolicy_def Let_def split_beta split: sum.split option.split)
  show "ag_Policy (agentOf (snd (installPolicy env opts p reply_of s))) = ag_Policy (agentOf s)
    \<or> installed env opts (ag_Policy (agentOf (snd (installPolicy env opts p reply_of s))))"
  proof (cases "loadPolicy (sv_decodePolicy env) (fsGet (srvFs s)) p")
    case (Inr pol)
    show ?thesis
    proof (cases "verifyPolicySig env p (so_SigningKeyPath opts) (sv_between env (srvFs s))")
      case None
      with Inr have "installed env opts pol" unfolding installed_def by blast
      with None Inr show ?thesis
        by (simp add: installPolicy_def Let_def ReplacePolicy_def syncBPFMaps_def agentOf_def split: prod.split)
    qed (simp add: Inr installPolicy_def Let_def)
  qed (simp add: installPolicy_def)
qed

lemma ExportForensics_keeps:
  "snd (snd (ExportForensics env ep op n s)) = snd s" "agentOf (snd (ExportForensics env ep op n s)) = agentOf s"
  by (simp_all add: ExportForensics_def Let_def split: sum.split option.split)

lemma signedOnly_post: "signedOnly env opts f \<Longrightarrow> signedOnly env opts (requirePost f)"
  by (simp add: signedOnly_def requirePost_def)

lemma signedOnly_install:
  "signedOnly env opts (handleReload env opts)" "signedOnly env opts (handleRollback env opts)"
proof -
  have i: "ag_Policy (agentOf (snd (installPolicy env opts p reply_of s1))) = ag_Policy (agentOf s)
      \<or> installed env opts (ag_Policy (agentOf (snd (installPolicy env opts p reply_of s1))))" if "agentOf s1 = agentOf s" for p reply_of s s1
    using installPolicy_keeps(2) [of env opts p "reply_of" s1] that by simp
  show "signedOnly env opts (handleReload env opts)"
    by (simp add: signedOnly_def handleReload_def Let_def installPolicy_keeps(1) i split: sum.split)
  show "signedOnly env opts (handleRollback env opts)"
    by (simp add: signedOnly_def handleRollback_def installPolicy_keeps(1) i split: sum.split prod.split)
qed

lemma signedOnly_query:
  "signedOnly env opts handleHealth" "signedOnly env opts (handleMetrics env)" "signedOnly env opts (handleStatus env)"
  "signedOnly env opts (handleVersions env opts)" "signedOnly env opts (handleVerifySignature env opts)"
  "signedOnly env opts (handleEvents env opts)" "signedOnly env opts (handleVerify env opts)" "signedOnly env opts handleResponses"
  "signedOnly env opts handleFrozen" "signedOnly env opts (handleNotifyTest opts)" "signedOnly env opts (handlePrometheus env opts)"
  "signedOnly env opts (handleQuarantineList env)" "signedOnly env opts (handleBaseline env opts)"
  by (simp_all add: signedOnly_def handleHealth_def handleMetrics_def handleStatus_def handleVersions_def handleVerifySignature_def
      handleEvents_def handleVerify_def handleResponses_def handleFrozen_def handleNotifyTest_def handlePrometheus_def
      handleQuarantineList_def handleBaseline_def Let_def split: sum.split option.split)

lemma signedOnly_host:
  "signedOnly env opts (handleNFTList env)" "signedOnly env opts (handleNFTRollback env)" "signedOnly env opts (handleFreeze env)"
  "signedOnly env opts (handleResume env)" "signedOnly env opts (handleIsolate env)" "signedOnly env opts (handleNetRestore env)"
  "signedOnly env opts (handleQuarantineRestore env)" "signedOnly env opts (handleForensics env opts)"
proof -
  show "signedOnly env opts (handleForensics env opts)"
    using ExportForensics_keeps
    by (simp add: signedOnly_def handleForensics_def Let_def split_beta split: sum.split)
qed (simp_all add: signedOnly_def handleNFTList_def handleNFTRollback_def handleFreeze_def handleResume_def handleIsolate_def
    handleNetRestore_def handleQuarantineRestore_def Let_def split: option.split prod.split)

lemma signedOnly_auth: "signedOnly env opts f \<Longrightarrow> signedOnly env opts (requireAuthorized opts f)"
  by (simp add: signedOnly_def requireAuthorized_def split: option.split)

lemma routes_signed:
  "(u, f) \<in> set (NewServerWithOptions env opts) \<Longrightarrow> u \<noteq> ''/v0/shutdown'' \<Longrightarrow> signedOnly env opts f"
  unfolding NewServerWithOptions_def
  by (auto intro: signedOnly_auth signedOnly_query signedOnly_host signedOnly_install signedOnly_post)

text \<open>Every route but one refuses a peer that is not authorized, before it does anything.\<close>

definition peerChecked :: "ServerOptions \<Rightarrow> handler \<Rightarrow> bool" where
  "peerChecked opts f \<longleftrightarrow> (\<forall>rq s e. authorize (rq_peer rq) (so_AllowedUIDs opts) = Some e
     \<longrightarrow> f rq s = (Fail 403 (ErrAuth e), s))"

lemma peerChecked_auth: "peerChecked opts (requireAuthorized opts f)"
  by (simp add: peerChecked_def requireAuthorized_def)

lemma routes_checked:
  "(u, f) \<in> set (NewServerWithOptions env opts) \<Longrightarrow> u \<noteq> ''/v0/shutdown'' \<Longrightarrow> peerChecked opts f"
  unfolding NewServerWithOptions_def by (auto intro: peerChecked_auth)

lemma serve_shutdown: "serve env opts ''/v0/shutdown'' = requirePost (handleShutdown env opts)"
  by (simp add: serve_def NewServerWithOptions_def fun_eq_iff)

lemma serve_handler:
  assumes "url \<noteq> ''/v0/shutdown''" "serve env opts url rq s = (r, s')"
  shows "s' = s \<or> authorize (rq_peer rq) (so_AllowedUIDs opts) = None \<and> snd s' = snd s
    \<and> (ag_Policy (agentOf s') = ag_Policy (agentOf s) \<or> installed env opts (ag_Policy (agentOf s')))"
proof (cases "map_of (NewServerWithOptions env opts) url")
  case (Some f)
  from routes_signed [OF map_of_SomeD [OF Some] assms(1)]
  have "snd (snd (f rq s)) = snd s \<and> (ag_Policy (agentOf (snd (f rq s))) = ag_Policy (agentOf s)
      \<or> installed env opts (ag_Policy (agentOf (snd (f rq s)))))"
    unfolding signedOnly_def by blast
  moreover from routes_checked [OF map_of_SomeD [OF Some] assms(1)]
  have "authorize (rq_peer rq) (so_AllowedUIDs opts) = Some e \<Longrightarrow> f rq s = (Fail 403 (ErrAuth e), s)" for e
    unfolding peerChecked_def by blast
  ultimately show ?thesis using Some assms
    by (cases "authorize (rq_peer rq) (so_AllowedUIDs opts)") (auto simp: serve_def)
qed (use assms in \<open>simp add: serve_def\<close>)

section \<open>Properties\<close>

text \<open>
  Claim C30.  Without the right peer nothing happens.  Except for the shutdown, which has a
  check of its own, a request whose peer is unknown or not among the authorized users is
  refused, whatever it asks for, and leaves the agent, the host and the files as they were.
\<close>

theorem unauthorized_request_refused:
  assumes "authorize (rq_peer rq) (so_AllowedUIDs opts) = Some e" "url \<noteq> ''/v0/shutdown''"
  shows "serve env opts url rq s
    = ((if url \<in> fst ` set (NewServerWithOptions env opts) then Fail 403 (ErrAuth e) else Fail 404 ErrNotFound), s)"
proof (cases "map_of (NewServerWithOptions env opts) url")
  case None
  then have "url \<notin> fst ` set (NewServerWithOptions env opts)" by (simp add: map_of_eq_None_iff)
  then show ?thesis unfolding serve_def None by simp
next
  case (Some f)
  have "f rq s = (Fail 403 (ErrAuth e), s)"
    using routes_checked [OF map_of_SomeD [OF Some] assms(2)] assms(1) unfolding peerChecked_def by blast
  moreover have "url \<in> fst ` set (NewServerWithOptions env opts)"
    using map_of_SomeD [OF Some] by force
  ultimately show ?thesis by (simp add: serve_def Some)
qed

lemma shutdown_keeps_policy:
  assumes "serve env opts ''/v0/shutdown'' rq s = (r, s')"
  shows "ag_Policy (agentOf s') = ag_Policy (agentOf s)"
  using assms
  by (auto simp: serve_shutdown requirePost_def handleShutdown_def agentOf_def [of "(_, True)"] logWith_keeps(2) [unfolded agentOf_def]
      split: if_splits prod.splits option.splits) (simp_all add: agentOf_def logWith_keeps(2) [unfolded agentOf_def])

lemma serve_stops:
  assumes "\<not> snd s" "serve env opts url rq s = (r, s')" "snd s'"
  shows "url = ''/v0/shutdown'' \<and> rq_method rq = ''POST'' \<and> r = Reply BShutdown \<and> so_Shutdown opts
    \<and> sp_ShutdownEnabled (p_SelfProtection (ag_Policy (agentOf s)))
    \<and> (\<exists>cred n. rq_peer rq = Some cred \<and> uid cred = 0 \<and> readProcLoginUID (sv_procFile env) (pid cred) = Inr n
         \<and> n \<in> {0, auditLoginUIDUnset}
         \<and> fst s' = fst (logWith env (auditShutdownEvent cred n ''allow'' ''root login shutdown accepted'') s))"
proof -
  have url: "url = ''/v0/shutdown''"
  proof (rule ccontr)
    assume "url \<noteq> ''/v0/shutdown''"
    from serve_handler [OF this assms(2)] assms(1,3) show False by auto
  qed
  moreover have post: "rq_method rq = ''POST''"
    using assms url by (auto simp: serve_shutdown requirePost_def split: if_splits)
  ultimately have h: "handleShutdown env opts rq s = (r, s')"
    using assms(2) by (simp add: serve_shutdown requirePost_def)
  from h assms(1,3) obtain cred n where c: "authorizeRootLogin (sv_procFile env) (rq_peer rq) = (cred, n, None)"
    "sp_ShutdownEnabled (p_SelfProtection (ag_Policy (agentOf s)))" "so_Shutdown opts" "r = Reply BShutdown"
    "fst s' = fst (logWith env (auditShutdownEvent cred n ''allow'' ''root login shutdown accepted'') s)"
    by (auto simp: handleShutdown_def CurrentPolicy_def split: prod.splits option.splits if_splits)
  from c(1) have "rq_peer rq = Some cred \<and> uid cred = 0 \<and> readProcLoginUID (sv_procFile env) (pid cred) = Inr n
      \<and> n \<in> {0, auditLoginUIDUnset}"
    by (auto simp: authorizeRootLogin_def shutdownCredential_def split: option.splits sum.splits if_splits prod.splits)
  with url post c show ?thesis by blast
qed

text \<open>
  The agent is stopped only by root, over the socket, with the policy's consent.  A
  shutdown is scheduled only for a POST from a process of user 0 whose login user is root or
  unset, when the policy enables it; and the agent has written to its log who stopped it.
\<close>

theorem shutdown_only_for_root:
  assumes "\<not> snd s" "serve env opts url rq s = (r, s')" "snd s'"
  shows "url = ''/v0/shutdown'' \<and> rq_method rq = ''POST'' \<and> r = Reply BShutdown \<and> so_Shutdown opts
    \<and> sp_ShutdownEnabled (p_SelfProtection (ag_Policy (agentOf s)))
    \<and> (\<exists>cred n. rq_peer rq = Some cred \<and> uid cred = 0 \<and> readProcLoginUID (sv_procFile env) (pid cred) = Inr n
         \<and> n \<in> {0, auditLoginUIDUnset}
         \<and> fst s' = fst (logWith env (auditShutdownEvent cred n ''allow'' ''root login shutdown accepted'') s))"
  by (rule serve_stops [OF assms])


text \<open>
  A rollback that is refused is on the disk all the same.  The version asked for is
  written over the policy before its signature is checked, and the signature file is left as it
  was: when the signature does not fit the older text the request is refused and the agent keeps
  its policy, but the policy file now holds the refused text.
\<close>

theorem refused_rollback_on_disk:
  assumes "rollbackPolicy env (srvNow env s) (so_PolicyPath opts) (rq_query rq ''version'') (srvFs s) = (Inr from, fs)"
    and "loadPolicy (sv_decodePolicy env) (fsGet fs) (so_PolicyPath opts) = Inr pol" "sv_between env = id"
    and "verifyPolicySig env (so_PolicyPath opts) (so_SigningKeyPath opts) fs = Some e"
  shows "\<exists>s'. handleRollback env opts rq s = (Fail 403 (ErrSignature e), s') \<and> agentOf s' = agentOf s
    \<and> (\<exists>content. fsGet (snd (backupPolicy env (srvNow env s) (so_PolicyPath opts) (srvFs s))) from = Some content
         \<and> fsGet (srvFs s') (so_PolicyPath opts) = Some content)"
proof -
  have "\<exists>content. fsGet (snd (backupPolicy env (srvNow env s) (so_PolicyPath opts) (srvFs s))) from = Some content
      \<and> fsGet fs (so_PolicyPath opts) = Some content"
    using assms(1) by (auto simp: rollbackPolicy_def split: sum.splits list.splits option.splits prod.splits)
  moreover have "handleRollback env opts rq s = (Fail 403 (ErrSignature e), setFs fs s)"
    using assms by (simp add: handleRollback_def installPolicy_def Let_def) (simp add: setFs_def split: prod.split)
  ultimately show ?thesis by auto
qed

section \<open>A small server\<close>

text \<open>A signature scheme in which the signature is the key followed by the text.\<close>

definition demoPub :: string where "demoPub = replicate 32 (CHR ''k'')"

definition demoSrv :: "string \<Rightarrow> SrvEnv" where
  "demoSrv now = \<lparr>sv_lib = demoLib, sv_wenv = (\<lambda>_ _. quiet 1), sv_codec = demoCodec, sv_kern = (\<lambda>_. demoKernel),
     sv_responder = demoResponder, sv_base = demoServices demoResponder, sv_ql = demoQueryLib,
     sv_decodePolicy = (\<lambda>_. Some samplePolicy), sv_edVerify = (\<lambda>pub m sig. sig = pub @ m), sv_between = id,
     sv_lstat = (\<lambda>_. Absent), sv_cwd = None, sv_procFile = (\<lambda>f. if f = ''/proc/'' @ itoa 5 @ ''/loginuid'' then Some ''0'' else None),
     sv_anchor = demoAnchorEnv, sv_decodeTemplate = Map.empty, sv_readBaseline = (\<lambda>_. Inl ''missing''),
     sv_statPerm = (\<lambda>_. Inl ''missing''), sv_snapshot = Inl ''none'', sv_mapAdd = (\<lambda>_. 0), sv_mapDel = (\<lambda>_. 0),
     sv_stamp = (\<lambda>_. now), sv_modTime = (\<lambda>_. 0), sv_infoErr = (\<lambda>_. False), sv_versionsErr = None, sv_sigErr = None,
     sv_mkdirErr = None, sv_copyErr = None, sv_restoreErr = None, sv_queryErr = None, sv_freezeBody = Map.empty,
     sv_resumeBody = Map.empty, sv_encodeBundle = Map.empty, sv_bundleErr = None,
     sv_fmtG = itoa, sv_hitOrder = []\<rparr>"

definition demoSrvOpts :: ServerOptions where
  "demoSrvOpts = \<lparr>so_BaselinePath = [], so_PolicyPath = ''/p/pol'', so_EventPath = ''/l/e'', so_ArtifactDir = [],
     so_AllowedUIDs = [0], so_IntegrityKey = ''key'', so_SigningKeyPath = ''/k'', so_Anchor = None, so_Shutdown = True,
     so_WebhookTestFn = None, so_MetricsWriter = None\<rparr>"

definition demoRequest :: "peerCred option \<Rightarrow> Request" where
  "demoRequest peer = \<lparr>rq_method = ''POST'', rq_query = (\<lambda>_. []), rq_body = [], rq_peer = peer\<rparr>"

definition rootPeer :: peerCred where "rootPeer = \<lparr>uid = 0, gid = 0, pid = 5\<rparr>"

definition demoSrvFs :: "string \<Rightarrow> filesys" where
  "demoSrvFs text = [(''/p/pol'', text), (''/p/pol.sig'', hexEncode (demoPub @ ''new'')), (''/k.pub'', hexEncode demoPub),
     (''/p/.versions/pol.1.bak'', ''old'')]"

definition demoSrvState :: "bool \<Rightarrow> srv" where
  "demoSrvState stoppable = (let a = demoAgent None;
       p = (ag_Policy a)\<lparr>p_SelfProtection := (p_SelfProtection (ag_Policy a))\<lparr>sp_ShutdownEnabled := stoppable\<rparr>\<rparr>
     in ((a\<lparr>ag_Policy := p\<rparr>, demoLogger 0, demoHost\<lparr>h_fs := demoSrvFs ''new''\<rparr>), False))"

lemmas demoSrvs = demoSrv_def demoSrvOpts_def demoRequest_def rootPeer_def demoSrvFs_def demoSrvState_def

theorem unauthorized_request_refused_witness:
  "serve (demoSrv ''2'') demoSrvOpts ''/v0/network/isolate'' (demoRequest None) (demoSrvState True)
     = (Fail 403 (ErrAuth MissingCredentials), demoSrvState True)"
  using unauthorized_request_refused [of "demoRequest None" demoSrvOpts MissingCredentials "''/v0/network/isolate''" "demoSrv ''2''" "demoSrvState True"]
  by (simp add: demoRequest_def demoSrvOpts_def authorize_def NewServerWithOptions_def)

theorem shutdown_only_for_root_witness:
  "\<exists>r s'. serve (demoSrv ''2'') demoSrvOpts ''/v0/shutdown'' (demoRequest (Some rootPeer)) (demoSrvState True) = (r, s') \<and> snd s'
     \<and> r = Reply BShutdown \<and> uid rootPeer = 0"
proof -
  obtain r s' where s: "serve (demoSrv ''2'') demoSrvOpts ''/v0/shutdown'' (demoRequest (Some rootPeer)) (demoSrvState True) = (r, s')"
    by (metis surj_pair)
  have uid: "readProcLoginUID (\<lambda>f. if f = ''/proc/'' @ itoa 5 @ ''/loginuid'' then Some ''0'' else None) 5 = Inr 0"
    by (simp add: readProcLoginUID_def trimSpace_def isSpace_def parseUint32_def parseNat_def isDigitC_def digitsVal_def digitVal_def)
  have c: "shutdownCredential (sv_procFile (demoSrv ''2'')) (Some rootPeer) = (rootPeer, 0, None)"
    using uid by (simp add: demoSrv_def shutdownCredential_def rootPeer_def)
  then have l: "authorizeRootLogin (sv_procFile (demoSrv ''2'')) (Some rootPeer) = (rootPeer, 0, None)"
    by (simp add: authorizeRootLogin_def rootPeer_def)
  have on: "sp_ShutdownEnabled (p_SelfProtection (CurrentPolicy (agentOf (demoSrvState True))))"
    by (simp add: demoSrvState_def agentOf_def CurrentPolicy_def Let_def)
  have "rq_method (demoRequest (Some rootPeer)) = ''POST''" "rq_peer (demoRequest (Some rootPeer)) = Some rootPeer" "so_Shutdown demoSrvOpts"
    by (simp_all add: demoRequest_def demoSrvOpts_def)
  with s c l on have "snd s'" by (auto simp: serve_shutdown requirePost_def handleShutdown_def)
  have "\<not> snd (demoSrvState True)" by (simp add: demoSrvState_def Let_def)
  from shutdown_only_for_root [OF this s \<open>snd s'\<close>] s \<open>snd s'\<close> show ?thesis by (simp add: rootPeer_def)
qed

lemma demo_validates: "\<exists>ws. validatePolicy samplePolicy = Inr ws"
  using sample_wf validatePolicy_wf by blast

lemma demo_loads:
  "fsGet fs p = Some c \<Longrightarrow> length c < 10 \<Longrightarrow> loadPolicy (sv_decodePolicy (demoSrv n)) (fsGet fs) p = Inr samplePolicy"
  using demo_validates by (auto simp: loadPolicy_def maxPolicyBytes_def demoSrv_def)

lemma demo_backup:
  "backupPolicy (demoSrv ''2'') now ''/p/pol'' (demoSrvFs ''new'') = (None, fsPut (demoSrvFs ''new'') ''/p/.versions/pol.2.bak'' ''new'')"
  by code_simp

lemma demo_signature:
  assumes "fsGet fs ''/p/pol'' = Some c" "fsGet fs ''/p/pol.sig'' = Some (hexEncode (demoPub @ ''new''))" "fsGet fs ''/k.pub'' = Some (hexEncode demoPub)"
  shows "verifyPolicySig (demoSrv n) ''/p/pol'' ''/k'' fs = (if c = ''new'' then None else Some SigMismatch)"
  using assms by (auto simp: verifyPolicySig_def demoSrv_def SignatureFile_def LoadPublicKey_def readKeyFile_def VerifySignature_def
      trimString_hex demoPub_def simp del: hexEncode.simps)

lemma demo_state: "srvFs (demoSrvState b) = demoSrvFs ''new''" "\<not> snd (demoSrvState b)"
  by (simp_all add: demoSrvState_def srvFs_def Let_def)

lemma demo_srv_files:
  "fsGet (demoSrvFs t) ''/p/pol'' = Some t" "fsGet (demoSrvFs t) ''/p/pol.sig'' = Some (hexEncode (demoPub @ ''new''))"
  "fsGet (demoSrvFs t) ''/k.pub'' = Some (hexEncode demoPub)" "fsGet (demoSrvFs t) ''/p/.versions/pol.1.bak'' = Some ''old''"
  by (simp_all add: fsGet_def demoSrvFs_def)

lemma demo_wiring: "sv_between (demoSrv n) = id" "so_PolicyPath demoSrvOpts = ''/p/pol''" "so_SigningKeyPath demoSrvOpts = ''/k''"
  "sv_restoreErr (demoSrv n) = None" "rq_query (demoRequest peer) k = []" "rq_method (demoRequest peer) = ''POST''"
  "so_AllowedUIDs demoSrvOpts = [0]" "rq_peer (demoRequest peer) = peer"
  by (simp_all add: demoSrv_def demoSrvOpts_def demoRequest_def)


theorem refused_rollback_on_disk_witness:
  "\<exists>s'. handleRollback (demoSrv ''2'') demoSrvOpts (demoRequest (Some rootPeer)) (demoSrvState False)
      = (Fail 403 (ErrSignature SigMismatch), s') \<and> fsGet (srvFs s') ''/p/pol'' = Some ''old''"
proof -
  let ?env = "demoSrv ''2''" and ?rq = "demoRequest (Some rootPeer)" and ?s = "demoSrvState False"
  let ?fs1 = "fsPut (demoSrvFs ''new'') ''/p/.versions/pol.2.bak'' ''new''"
  let ?fs = "fsPut ?fs1 ''/p/pol'' ''old''"
  have "listPolicyVersions ?env ''/p/pol'' (demoSrvFs ''new'')
      = Inr [\<lparr>v_Name = ''pol.1.bak'', v_Path = ''/p/.versions/pol.1.bak'', v_Size = 3, v_ModTime = 0\<rparr>]"
    by code_simp
  then have r: "rollbackPolicy ?env (srvNow ?env ?s) (so_PolicyPath demoSrvOpts) (rq_query ?rq ''version'') (srvFs ?s)
      = (Inr ''/p/.versions/pol.1.bak'', ?fs)"
    by (simp add: rollbackPolicy_def demo_wiring demo_state demo_backup demo_srv_files)
  have l: "loadPolicy (sv_decodePolicy ?env) (fsGet ?fs) (so_PolicyPath demoSrvOpts) = Inr samplePolicy"
    by (rule demo_loads [of _ _ "''old''"]) (simp_all add: demo_wiring)
  have "verifyPolicySig ?env (so_PolicyPath demoSrvOpts) (so_SigningKeyPath demoSrvOpts) ?fs = Some SigMismatch"
    using demo_signature [of ?fs "''old''"] by (simp add: demo_srv_files demo_wiring)
  from refused_rollback_on_disk [OF r l demo_wiring(1) this] show ?thesis
    by (auto simp: demo_wiring demo_state demo_backup demo_srv_files)
qed

end
