(* ===== verification/Fanotify.thy ===== *)
theory Fanotify
  imports Collector EventLog Security
begin

text \<open>
  The interposition on file access, \<open>internal/fanotify/fanotify.go\<close>: creating and marking the
  group, the loop that reads the kernel's buffer, the decoding of the event records, and the
  answer to each of them.  The answers and the closing of descriptors are kept in the state in
  the order they happen.  The handler and the sink of audit events are arguments; a handler that
  panics is \<^term>\<open>None\<close>.
\<close>

unbundle bit_operations_syntax

section \<open>Constants and data\<close>

definition FAN_ALLOW :: "32 word" where "FAN_ALLOW = 0x01"
definition FAN_DENY :: "32 word" where "FAN_DENY = 0x02"
definition FAN_AUDIT :: "32 word" where "FAN_AUDIT = 0x10"
definition FAN_OPEN_PERM :: "64 word" where "FAN_OPEN_PERM = 0x00010000"
definition FAN_ACCESS_PERM :: "64 word" where "FAN_ACCESS_PERM = 0x00020000"
definition FAN_OPEN :: "64 word" where "FAN_OPEN = 0x00000020"
definition FAN_CLOSE_WRITE :: "64 word" where "FAN_CLOSE_WRITE = 0x00000008"
definition FAN_MODIFY :: "64 word" where "FAN_MODIFY = 0x00000002"
definition FAN_EVENT_ON_CHILD :: "64 word" where "FAN_EVENT_ON_CHILD = 0x08000000"
definition FAN_NOFD :: int where "FAN_NOFD = -1"

text \<open>The flags of \<open>fanotify_init\<close>: pre-content class, close on exec, unlimited queue and marks.\<close>

definition initFlags :: "32 word" where
  "initFlags = 0x08 OR 0x01 OR 0x10 OR 0x20"

record fanotifyEventMetadata =
  EventLen :: "32 word"
  Vers :: byte
  Reserved :: byte
  MetadataLen :: "16 word"
  Mask :: "64 word"
  Fd :: int
  Pid :: int

record AccessInfo =
  ai_PID :: int
  ai_UID :: "32 word"
  ai_Comm :: string
  ai_Exe :: string
  ai_Cmdline :: string
  ai_Path :: string
  ai_Mask :: "64 word"

record FanEvent =
  fe_EventID :: string
  fe_Category :: string
  fe_Severity :: string
  fe_Subject :: "(string \<times> anyv) list"
  fe_Object :: "(string \<times> anyv) list"
  fe_Action :: string
  fe_Decision :: string
  fe_RuleID :: string

text \<open>What happened: answers written to the group, audit events, closed descriptors.\<close>

datatype effect = Answer int "32 word" | Audit FanEvent | CloseFd int

text \<open>
  The tree below a path as \<open>filepath.WalkDir\<close> finds it: a place that cannot be examined, a
  directory with the entries that could be read, in the order of their names, or anything else.
\<close>

datatype dirtree = Unreadable | OtherNode | DirNode "(string \<times> dirtree) list"

text \<open>The kernel's side: the group, the marks, the tree below a path, the files of \<open>/proc\<close>.\<close>

record FanEnv =
  fk_init :: "string + int"
  fk_mark :: "string \<Rightarrow> string option"           \<comment> \<open>the error of \<open>fanotify_mark\<close>\<close>
  fk_tree :: "string \<Rightarrow> dirtree"
  fk_proc :: ProcFS
  fk_fdLink :: "int \<Rightarrow> string option"
  fk_write :: "int \<Rightarrow> 32 word \<Rightarrow> string option"  \<comment> \<open>the error of writing an answer\<close>

section \<open>Marks\<close>

text \<open>The depth of a path below the root: the separators in what is left when the root is cut off.\<close>

definition markDepth :: "string \<Rightarrow> string \<Rightarrow> nat" where
  "markDepth base p =
     (if base = p then 0
      else length (filter (\<lambda>c. c = CHR ''/'') (if hasPrefix p base then drop (length base) p else p)))"

text \<open>The walk: the paths marked so far, and whether it was ended by \<open>SkipAll\<close>.\<close>

fun markWalk :: "(string \<Rightarrow> string option) \<Rightarrow> string \<Rightarrow> string \<Rightarrow> dirtree \<Rightarrow> string list \<times> bool \<Rightarrow> string list \<times> bool"
  and markWalks :: "(string \<Rightarrow> string option) \<Rightarrow> string \<Rightarrow> string \<Rightarrow> (string \<times> dirtree) list \<Rightarrow> string list \<times> bool \<Rightarrow> string list \<times> bool" where
  "markWalk mk base p t (ms, stopped) =
     (if stopped then (ms, stopped)
      else (case t of
              DirNode es \<Rightarrow>
                if markDepth base p > 16 then (ms, False)
                else (case mk p of
                        Some err \<Rightarrow> markWalks mk base p es (ms, False)
                      | None \<Rightarrow>
                          if length (ms @ [p]) \<ge> 4096 then (ms @ [p], True)
                          else markWalks mk base p es (ms @ [p], False))
            | _ \<Rightarrow> (ms, False)))"
| "markWalks mk base p [] st = st"
| "markWalks mk base p ((n, t) # es) st = markWalks mk base p es (markWalk mk base (joinName p n) t st)"

text \<open>
  The callback of the walk never returns an error of its own, so the walk does not either; when
  nothing was marked the path itself is tried.
\<close>

definition mark :: "FanEnv \<Rightarrow> string \<Rightarrow> string + string list" where
  "mark env path =
     (let base = cleanName path; ms = fst (markWalk (fk_mark env) base base (fk_tree env base) ([], False)) in
      if ms \<noteq> [] then Inr ms
      else (case fk_mark env base of Some err \<Rightarrow> Inl err | None \<Rightarrow> Inr [base]))"

section \<open>The provider\<close>

record Provider =
  pr_fd :: int
  pr_paths :: "string list"
  pr_marks :: "string list"
  pr_stop :: bool              \<comment> \<open>the channel \<open>stop\<close> is closed\<close>
  pr_fdOpen :: bool

datatype fan_error = InitFailed string | MarkFailed string string

fun markAll :: "FanEnv \<Rightarrow> string list \<Rightarrow> string list \<Rightarrow> fan_error + string list" where
  "markAll env [] ms = Inr ms"
| "markAll env (p # ps) ms = (case mark env p of Inl err \<Rightarrow> Inl (MarkFailed p err) | Inr new \<Rightarrow> markAll env ps (ms @ new))"

definition NewProvider :: "FanEnv \<Rightarrow> string list \<Rightarrow> fan_error + Provider" where
  "NewProvider env paths =
     (case fk_init env of
        Inl err \<Rightarrow> Inl (InitFailed err)
      | Inr fd \<Rightarrow>
          (case markAll env paths [] of
             Inl err \<Rightarrow> Inl err
           | Inr ms \<Rightarrow> Inr \<lparr>pr_fd = fd, pr_paths = paths, pr_marks = ms, pr_stop = False, pr_fdOpen = True\<rparr>))"

definition StopProvider :: "Provider \<Rightarrow> Provider" where
  "StopProvider p = (if pr_stop p then p else p\<lparr>pr_stop := True, pr_fdOpen := False\<rparr>)"

section \<open>One event\<close>

definition resolvePath :: "FanEnv \<Rightarrow> int \<Rightarrow> string" where
  "resolvePath env fd = (if fd < 0 then [] else (case fk_fdLink env fd of Some l \<Rightarrow> l | None \<Rightarrow> []))"

definition procName :: "int \<Rightarrow> string \<Rightarrow> string" where
  "procName p f = ''/proc/'' @ itoa p @ ''/'' @ f"

definition readProcString :: "FanEnv \<Rightarrow> int \<Rightarrow> string \<Rightarrow> string" where
  "readProcString env p f = (case pf_file (fk_proc env) (procName p f) of Some d \<Rightarrow> trimSpace d | None \<Rightarrow> [])"

definition readProcLink :: "FanEnv \<Rightarrow> int \<Rightarrow> string \<Rightarrow> string" where
  "readProcLink env p f = (case pf_exe (fk_proc env) (procName p f) of Some l \<Rightarrow> l | None \<Rightarrow> [])"

definition readProcUID :: "FanEnv \<Rightarrow> int \<Rightarrow> 32 word" where
  "readProcUID env p =
     (case pf_file (fk_proc env) (procName p ''status'') of
        None \<Rightarrow> 0
      | Some d \<Rightarrow>
          (case find (\<lambda>l. hasPrefix l ''Uid:'') (splitC nl d) of
             None \<Rightarrow> 0
           | Some l \<Rightarrow>
               (let fields = fieldsS l in
                if length fields \<ge> 2 then (case parseUint32 (fields ! 1) of Some u \<Rightarrow> u | None \<Rightarrow> 0) else 0)))"

definition readCmdline :: "FanEnv \<Rightarrow> int \<Rightarrow> string" where
  "readCmdline env p =
     (case pf_file (fk_proc env) (procName p ''cmdline'') of
        Some d \<Rightarrow> replaceC nul (CHR '' '') (trimRightC nul d) | None \<Rightarrow> [])"

definition resolveAccessInfo :: "FanEnv \<Rightarrow> fanotifyEventMetadata \<Rightarrow> string \<Rightarrow> AccessInfo" where
  "resolveAccessInfo env meta path =
     \<lparr>ai_PID = Pid meta, ai_UID = readProcUID env (Pid meta), ai_Comm = readProcString env (Pid meta) ''comm'',
      ai_Exe = readProcLink env (Pid meta) ''exe'', ai_Cmdline = readCmdline env (Pid meta), ai_Path = path, ai_Mask = Mask meta\<rparr>"

text \<open>A handler that panics has allowed the access.\<close>

definition safeHandleFileAccess :: "(AccessInfo \<Rightarrow> (bool \<times> string) option) \<Rightarrow> AccessInfo \<Rightarrow> bool \<times> string" where
  "safeHandleFileAccess handler info = (case handler info of None \<Rightarrow> (True, []) | Some r \<Rightarrow> r)"

definition maskText :: "fanotifyEventMetadata \<Rightarrow> string" where
  "maskText meta = itoa (Pid meta) @ ''-'' @ natStr (unat (Mask meta))"

definition emitAudit :: "FanEnv \<Rightarrow> fanotifyEventMetadata \<Rightarrow> string \<Rightarrow> bool \<Rightarrow> string \<Rightarrow> FanEvent" where
  "emitAudit env meta path allowed ruleID =
     \<lparr>fe_EventID = ''fanotify-'' @ maskText meta, fe_Category = ''file'', fe_Severity = (if allowed then ''low'' else ''high''),
      fe_Subject = [(''pid'', VI32 (Pid meta)), (''comm'', VStr (readProcString env (Pid meta) ''comm'')),
                    (''exe'', VStr (readProcLink env (Pid meta) ''exe'')), (''cmdline'', VStr (readCmdline env (Pid meta)))],
      fe_Object = [(''path'', VStr path), (''mask'', VU64 (Mask meta))], fe_Action = ''fanotify_deny'',
      fe_Decision = (if allowed then ''allow'' else ''block''), fe_RuleID = ruleID\<rparr>"

definition emitInfo :: "FanEnv \<Rightarrow> fanotifyEventMetadata \<Rightarrow> string \<Rightarrow> FanEvent" where
  "emitInfo env meta path =
     \<lparr>fe_EventID = ''fanotify-info-'' @ maskText meta, fe_Category = ''file'', fe_Severity = ''low'',
      fe_Subject = [(''pid'', VI32 (Pid meta)), (''comm'', VStr (readProcString env (Pid meta) ''comm''))],
      fe_Object = [(''path'', VStr path), (''mask'', VU64 (Mask meta))], fe_Action = ''observe'', fe_Decision = ''alert'',
      fe_RuleID = ''file-watch''\<rparr>"

definition isPerm :: "fanotifyEventMetadata \<Rightarrow> bool" where
  "isPerm meta \<longleftrightarrow> Mask meta AND (FAN_OPEN_PERM OR FAN_ACCESS_PERM) \<noteq> 0"

definition respVal :: "bool \<Rightarrow> 32 word" where
  "respVal allow = (if allow then FAN_ALLOW else FAN_DENY OR FAN_AUDIT)"

text \<open>
  The answer is written whether or not the kernel takes it; a failure is only reported on the
  standard error.  \<open>Answer\<close> records the answers the kernel took.
\<close>

definition writeResponse :: "FanEnv \<Rightarrow> int \<Rightarrow> 32 word \<Rightarrow> effect list" where
  "writeResponse env fd resp = (case fk_write env fd resp of None \<Rightarrow> [Answer fd resp] | Some err \<Rightarrow> [])"

definition handleEvent :: "FanEnv \<Rightarrow> (AccessInfo \<Rightarrow> (bool \<times> string) option) \<Rightarrow> fanotifyEventMetadata \<Rightarrow> effect list" where
  "handleEvent env handler meta =
     (let path = resolvePath env (Fd meta) in
      (if isPerm meta then
         (let (allow, ruleID) = safeHandleFileAccess handler (resolveAccessInfo env meta path) in
          writeResponse env (Fd meta) (respVal allow) @ [Audit (emitAudit env meta path allow ruleID)])
       else if Mask meta AND (FAN_OPEN OR FAN_CLOSE_WRITE OR FAN_MODIFY) \<noteq> 0 then [Audit (emitInfo env meta path)]
       else [])
      @ (if Fd meta \<noteq> FAN_NOFD then [CloseFd (Fd meta)] else []))"

section \<open>The buffer\<close>

definition decodeMeta :: "byte list \<Rightarrow> fanotifyEventMetadata" where
  "decodeMeta raw =
     \<lparr>EventLen = leWord 4 raw, Vers = raw ! 4, Reserved = raw ! 5, MetadataLen = leWord 2 (drop 6 raw),
      Mask = leWord 8 (drop 8 raw), Fd = sint (leWord 4 (drop 16 raw) :: 32 word), Pid = sint (leWord 4 (drop 20 raw) :: 32 word)\<rparr>"

function process :: "FanEnv \<Rightarrow> (AccessInfo \<Rightarrow> (bool \<times> string) option) \<Rightarrow> byte list \<Rightarrow> effect list" where
  "process env handler raw =
     (if length raw < 24 then []
      else (let meta = decodeMeta raw in
            if unat (EventLen meta) < 24 \<or> unat (EventLen meta) > length raw then []
            else handleEvent env handler meta @ process env handler (drop (unat (EventLen meta)) raw)))"
  by pat_completeness auto
termination
  by (relation "measure (\<lambda>(_, _, raw). length raw)") auto

declare process.simps [simp del]

text \<open>
  The loop, over what it finds each time round: the stop channel closed, an error or a timeout of
  \<open>select\<close>, an error of \<open>read\<close>, or bytes.  \<open>select\<close> is given a set of 1024 descriptors; the group's
  descriptor is its index, and a larger one is out of range.
\<close>

datatype wake = StopSeen | SelectError bool | SelectTimeout | ReadError bool | ReadBytes "byte list"
  \<comment> \<open>the flag: the error is \<open>EBADF\<close>\<close>

datatype loop_end = Running | Returned | IndexPanic

fun fanLoop :: "FanEnv \<Rightarrow> (AccessInfo \<Rightarrow> (bool \<times> string) option) \<Rightarrow> int \<Rightarrow> wake list \<Rightarrow> effect list \<times> loop_end" where
  "fanLoop env handler fd [] = ([], Running)"
| "fanLoop env handler fd (w # ws) =
     (if w = StopSeen then ([], Returned)
      else if fd \<ge> 1024 then ([], IndexPanic)
      else (case w of
              SelectError True \<Rightarrow> ([], Returned)
            | ReadError True \<Rightarrow> ([], Returned)
            | ReadBytes raw \<Rightarrow> (case fanLoop env handler fd ws of (es, r) \<Rightarrow> (process env handler raw @ es, r))
            | _ \<Rightarrow> fanLoop env handler fd ws))"

section \<open>Marks: lemmas\<close>

definition markedOK :: "(string \<Rightarrow> string option) \<Rightarrow> string \<Rightarrow> string list \<times> bool \<Rightarrow> bool" where
  "markedOK mk base st \<longleftrightarrow> (\<forall>p \<in> set (fst st). mk p = None \<and> markDepth base p \<le> 16)
     \<and> (if snd st then length (fst st) = 4096 else length (fst st) < 4096)"

lemma markWalk_OK:
  "markedOK mk base st \<Longrightarrow> markedOK mk base (markWalk mk base p t st)"
  "markedOK mk base st \<Longrightarrow> markedOK mk base (markWalks mk base p es st)"
proof (induction mk base p t st and mk base p es st rule: markWalk_markWalks.induct)
  case (1 mk base p t ms stopped)
  show ?case
  proof (cases "stopped \<or> (\<nexists>es. t = DirNode es)")
    case True
    with 1(3) show ?thesis by (cases t) auto
  next
    case False
    then obtain es where t: "\<not> stopped" "t = DirNode es" by blast
    show ?thesis
    proof (cases "markDepth base p > 16")
      case True
      with t 1(3) show ?thesis by simp
    next
      case depth: False
      show ?thesis
      proof (cases "mk p")
        case None
        have ms: "markedOK mk base (ms @ [p], length (ms @ [p]) \<ge> 4096)"
          using 1(3) t(1) None depth by (auto simp: markedOK_def)
        show ?thesis
        proof (cases "length (ms @ [p]) \<ge> 4096")
          case True
          with ms t None depth show ?thesis by simp
        next
          case False
          with ms have "markedOK mk base (ms @ [p], False)" by simp
          with 1(1) [OF t(1) t(2) depth None False] t None depth False show ?thesis by simp
        qed
      next
        case (Some err)
        have "markedOK mk base (ms, False)" using 1(3) t(1) by simp
        with 1(2) [OF t(1) t(2) depth Some] t Some depth show ?thesis by simp
      qed
    qed
  qed
qed simp_all

section \<open>The buffer: lemmas\<close>

text \<open>A record as the kernel writes it, with what newer kernels append.\<close>

definition metaBytes :: "fanotifyEventMetadata \<times> byte list \<Rightarrow> byte list" where
  "metaBytes r = (case r of (m, extra) \<Rightarrow>
     leBytes 4 (EventLen m) @ [Vers m, Reserved m] @ leBytes 2 (MetadataLen m) @ leBytes 8 (Mask m)
     @ leBytes 4 (word_of_int (Fd m) :: 32 word) @ leBytes 4 (word_of_int (Pid m) :: 32 word) @ extra)"

definition int32 :: "int \<Rightarrow> bool" where
  "int32 i \<longleftrightarrow> - (2 ^ 31) \<le> i \<and> i < 2 ^ 31"

definition wfMeta :: "fanotifyEventMetadata \<times> byte list \<Rightarrow> bool" where
  "wfMeta r = (case r of (m, extra) \<Rightarrow> unat (EventLen m) = 24 + length extra \<and> int32 (Fd m) \<and> int32 (Pid m))"

lemma length_metaBytes: "length (metaBytes (m, extra)) = 24 + length extra"
  by (simp add: metaBytes_def)

lemma sint_word_of_int: "int32 i \<Longrightarrow> sint (word_of_int i :: 32 word) = i"
  by (simp add: int32_def signed_of_int signed_take_bit_int_eq_self)

lemma decodeMeta_metaBytes:
  assumes "wfMeta (m, extra)"
  shows "decodeMeta (metaBytes (m, extra) @ rest) = m"
proof -
  let ?raw = "metaBytes (m, extra) @ rest"
  let ?fd = "word_of_int (Fd m) :: 32 word" and ?p = "word_of_int (Pid m) :: 32 word"
  have raw: "?raw = leBytes 4 (EventLen m) @ [Vers m, Reserved m] @ leBytes 2 (MetadataLen m) @ leBytes 8 (Mask m)
      @ leBytes 4 ?fd @ leBytes 4 ?p @ extra @ rest"
    by (simp only: metaBytes_def prod.case append_assoc)
  have drops: "drop 6 ?raw = leBytes 2 (MetadataLen m) @ leBytes 8 (Mask m) @ leBytes 4 ?fd @ leBytes 4 ?p @ extra @ rest"
    "drop 8 ?raw = leBytes 8 (Mask m) @ leBytes 4 ?fd @ leBytes 4 ?p @ extra @ rest"
    "drop 16 ?raw = leBytes 4 ?fd @ leBytes 4 ?p @ extra @ rest" "drop 20 ?raw = leBytes 4 ?p @ extra @ rest"
    "?raw ! 4 = Vers m" "?raw ! 5 = Reserved m"
    unfolding raw by (simp_all add: nth_append)
  have "leWord 4 ?raw = EventLen m" "leWord 2 (drop 6 ?raw) = MetadataLen m" "leWord 8 (drop 8 ?raw) = Mask m"
    "leWord 4 (drop 16 ?raw) = ?fd" "leWord 4 (drop 20 ?raw) = ?p"
    unfolding drops by (simp_all add: raw leWord_leBytes)
  with drops(5,6) assms show ?thesis
    by (simp add: decodeMeta_def wfMeta_def sint_word_of_int)
qed

lemma process_metaBytes:
  "wfMeta r \<Longrightarrow> process env handler (metaBytes r @ rest) = handleEvent env handler (fst r) @ process env handler rest"
proof (cases r)
  case (Pair m extra)
  assume "wfMeta r"
  with Pair show ?thesis
    using decodeMeta_metaBytes [of m extra rest] length_metaBytes [of m extra]
    by (subst process.simps) (simp add: Let_def wfMeta_def)
qed

lemma process_records:
  "\<forall>r \<in> set rs. wfMeta r \<Longrightarrow> length rest < 24 \<Longrightarrow>
    process env handler (concat (map metaBytes rs) @ rest) = concat (map (handleEvent env handler \<circ> fst) rs)"
  by (induction rs) (simp_all add: process_metaBytes, simp add: process.simps)

fun answers :: "effect list \<Rightarrow> (int \<times> 32 word) list" where
  "answers [] = []"
| "answers (Answer fd r # es) = (fd, r) # answers es"
| "answers (_ # es) = answers es"

fun closed :: "effect list \<Rightarrow> int list" where
  "closed [] = []"
| "closed (CloseFd fd # es) = fd # closed es"
| "closed (_ # es) = closed es"

lemma effects_append [simp]: "answers (es @ fs) = answers es @ answers fs" "closed (es @ fs) = closed es @ closed fs"
  by (induction es rule: answers.induct) simp_all

text \<open>The verdict on an event: what the handler says of the process and the file behind it.\<close>

definition verdictOn :: "FanEnv \<Rightarrow> (AccessInfo \<Rightarrow> (bool \<times> string) option) \<Rightarrow> fanotifyEventMetadata \<Rightarrow> bool" where
  "verdictOn env handler m = fst (safeHandleFileAccess handler (resolveAccessInfo env m (resolvePath env (Fd m))))"

lemma handleEvent_effects:
  "answers (handleEvent env handler m) =
     (if isPerm m \<and> fk_write env (Fd m) (respVal (verdictOn env handler m)) = None
      then [(Fd m, respVal (verdictOn env handler m))] else [])"
  "closed (handleEvent env handler m) = (if Fd m \<noteq> FAN_NOFD then [Fd m] else [])"
  by (simp_all add: handleEvent_def Let_def verdictOn_def writeResponse_def split_beta split: option.split)

lemma process_answers:
  assumes "\<forall>r \<in> set rs. wfMeta r" "length rest < 24" "\<And>fd r. fk_write env fd r = None"
  shows "answers (process env handler (concat (map metaBytes rs) @ rest))
      = map (\<lambda>m. (Fd m, respVal (verdictOn env handler m))) (filter isPerm (map fst rs))"
proof -
  have "answers (concat (map (handleEvent env handler \<circ> fst) rs))
      = map (\<lambda>m. (Fd m, respVal (verdictOn env handler m))) (filter isPerm (map fst rs))"
    by (induction rs) (simp_all add: handleEvent_effects assms(3))
  then show ?thesis by (simp add: process_records [OF assms(1,2)])
qed

section \<open>Properties\<close>

text \<open>
  Every open is answered.  From a buffer of well-formed records the loop answers
  each permission event once, in order, denying exactly those the handler denies, and closes
  every descriptor the kernel handed over, once; all this when the kernel takes the answers.
\<close>

theorem every_open_answered:
  assumes "\<forall>r \<in> set rs. wfMeta r" "length rest < 24" "\<And>fd r. fk_write env fd r = None"
  shows "answers (process env handler (concat (map metaBytes rs) @ rest))
      = map (\<lambda>m. (Fd m, if verdictOn env handler m then FAN_ALLOW else FAN_DENY OR FAN_AUDIT)) (filter isPerm (map fst rs))
    \<and> closed (process env handler (concat (map metaBytes rs) @ rest)) = filter (\<lambda>fd. fd \<noteq> FAN_NOFD) (map (Fd \<circ> fst) rs)"
proof -
  have "closed (concat (map (handleEvent env handler \<circ> fst) rs)) = filter (\<lambda>fd. fd \<noteq> FAN_NOFD) (map (Fd \<circ> fst) rs)"
    by (induction rs) (simp_all add: handleEvent_effects)
  then show ?thesis
    using process_answers [OF assms] by (simp add: process_records [OF assms(1,2)] respVal_def)
qed

text \<open>
  Claim C9.  A denial is never taken.  The kernel refuses an answer with the audit flag when
  the group was created without the flag that enables auditing; the group here is created
  without it, and every denial carries the audit flag.  So whatever the handler says, the only
  answers the kernel takes are permissions.
\<close>

theorem denials_refused:
  assumes "\<And>fd r. initFlags AND 0x40 = 0 \<Longrightarrow> r AND FAN_AUDIT \<noteq> 0 \<Longrightarrow> fk_write env fd r \<noteq> None"
  shows "\<forall>(fd, r) \<in> set (answers (process env handler raw)). r = FAN_ALLOW"
proof (induction raw rule: length_induct)
  case (1 raw)
  have off: "initFlags AND 0x40 = 0" by (simp add: initFlags_def)
  have taken: "r = FAN_ALLOW" if "(fd, r) \<in> set (answers (handleEvent env handler m))" for fd r m
    using that assms [OF off, of "respVal False" fd]
    by (auto simp: handleEvent_effects respVal_def FAN_DENY_def FAN_AUDIT_def split: if_splits)
  show ?case
  proof (cases "length raw < 24 \<or> unat (EventLen (decodeMeta raw)) < 24 \<or> unat (EventLen (decodeMeta raw)) > length raw")
    case True
    then show ?thesis by (subst process.simps) (auto simp: Let_def)
  next
    case False
    then have "length (drop (unat (EventLen (decodeMeta raw))) raw) < length raw" by auto
    with 1 have "\<forall>(fd, r) \<in> set (answers (process env handler (drop (unat (EventLen (decodeMeta raw))) raw))). r = FAN_ALLOW"
      by blast
    with False taken show ?thesis by (subst process.simps) (auto simp: Let_def)
  qed
qed

text \<open>
  Marking is bounded.  A configured path is refused only when it cannot be marked
  itself; otherwise at most 4096 directories are marked for it, each accepted by the kernel and
  at most 16 levels below it.
\<close>

theorem marks_bounded:
  "case mark env path of
     Inl err \<Rightarrow> fk_mark env (cleanName path) = Some err
   | Inr ms \<Rightarrow> ms \<noteq> [] \<and> length ms \<le> 4096 \<and> (\<forall>p \<in> set ms. fk_mark env p = None \<and> markDepth (cleanName path) p \<le> 16)"
proof -
  let ?base = "cleanName path"
  have "markedOK (fk_mark env) ?base (markWalk (fk_mark env) ?base ?base (fk_tree env ?base) ([], False))"
    by (rule markWalk_OK) (simp add: markedOK_def)
  then have "length ms \<le> 4096 \<and> (\<forall>p \<in> set ms. fk_mark env p = None \<and> markDepth ?base p \<le> 16)"
    if "ms = fst (markWalk (fk_mark env) ?base ?base (fk_tree env ?base) ([], False))" for ms
    using that by (auto simp: markedOK_def split: if_splits)
  then show ?thesis
    by (auto simp: mark_def Let_def markDepth_def split: option.split)
qed

section \<open>A small group\<close>

text \<open>Process 9 opens a file; the handler denies it.  The kernel refuses answers with the audit flag, or none.\<close>

definition demoFan :: "bool \<Rightarrow> FanEnv" where
  "demoFan strict = \<lparr>fk_init = Inr 5, fk_mark = (\<lambda>_. None), fk_tree = (\<lambda>_. Unreadable),
     fk_proc = \<lparr>pf_dir = Map.empty, pf_file = Map.empty, pf_exe = Map.empty, pf_userName = Map.empty\<rparr>,
     fk_fdLink = (\<lambda>_. Some ''/etc/shadow''), fk_write = (\<lambda>_ r. if strict \<and> r AND FAN_AUDIT \<noteq> 0 then Some ''EINVAL'' else None)\<rparr>"

definition demoOpenEvent :: fanotifyEventMetadata where
  "demoOpenEvent = \<lparr>EventLen = 24, Vers = 3, Reserved = 0, MetadataLen = 24, Mask = 0x00010000, Fd = 8, Pid = 9\<rparr>"

lemma demo_perm: "isPerm demoOpenEvent" "wfMeta (demoOpenEvent, [])"
  by (simp_all add: isPerm_def demoOpenEvent_def FAN_OPEN_PERM_def FAN_ACCESS_PERM_def wfMeta_def int32_def)

lemma demo_verdict: "verdictOn env (\<lambda>_. Some (False, ''r'')) m = False"
  by (simp add: verdictOn_def safeHandleFileAccess_def)

theorem every_open_answered_witness:
  "answers (process (demoFan False) (\<lambda>_. Some (False, ''r'')) (metaBytes (demoOpenEvent, []))) = [(8, FAN_DENY OR FAN_AUDIT)]"
  using every_open_answered [of "[(demoOpenEvent, [])]" "[]" "demoFan False" "\<lambda>_. Some (False, ''r'')"]
  by (simp add: demo_perm demo_verdict) (simp add: demoFan_def demoOpenEvent_def)

theorem denials_refused_witness:
  "answers (process (demoFan True) (\<lambda>_. Some (False, ''r'')) (metaBytes (demoOpenEvent, []))) = []"
proof -
  let ?a = "answers (process (demoFan True) (\<lambda>_. Some (False, ''r'')) (metaBytes (demoOpenEvent, [])))"
  have "\<forall>(fd, r) \<in> set ?a. r = FAN_ALLOW" by (rule denials_refused) (simp add: demoFan_def)
  moreover have "process (demoFan True) (\<lambda>_. Some (False, ''r'')) (metaBytes (demoOpenEvent, []))
      = handleEvent (demoFan True) (\<lambda>_. Some (False, ''r'')) demoOpenEvent"
    using process_records [of "[(demoOpenEvent, [])]" "[]"] by (simp add: demo_perm)
  ultimately show ?thesis
    by (auto simp: handleEvent_effects demo_verdict respVal_def FAN_ALLOW_def FAN_DENY_def FAN_AUDIT_def split: if_splits)
qed

end
