(* ===== verification/Config.thy ===== *)
theory Config
  imports Keys Security
begin

text \<open>
  The configuration of the agent, from \<open>cmd/edr-agent/main.go\<close>: its data and defaults, the
  removal of comments before the text is decoded, the loading of the file, and the choice of the
  key of the log.  The decoder of JSON is an argument: it is given the text and the defaults and
  overwrites the fields the text names.
\<close>

section \<open>The data\<close>

record retentionConfig =
  rc_MaxBytes :: int
  rc_MaxBackups :: int

record fileWatchConfig =
  fw_Mode :: string
  fw_Paths :: "string list"

record nftConfig =
  nc_Enabled :: bool
  nc_DryRun :: bool
  nc_Table :: string
  nc_Chain :: string

record integrityConfig =
  ic_EnableChain :: bool
  ic_KeyPath :: string
  ic_StatePath :: string
  ic_Algorithm :: string

record suppressionConfig =
  sc_ProcessCooldownSec :: int
  sc_FileCooldownSec :: int
  sc_NetworkCooldownSec :: int
  sc_RatePerSec :: nat
  sc_Burst :: nat
  sc_StatePath :: string

record bpfConfig =
  bc_Enabled :: bool
  bc_ObjDir :: string
  bc_RingbufPages :: int
  bc_RingbufPath :: string

record anchorConfig =
  ac_Enabled :: bool
  ac_URL :: string
  ac_FilePath :: string
  ac_Interval :: int

record fanotifyConfig =
  fc_Enabled :: bool
  fc_Paths :: "string list"

record quarantineConfig =
  qc_Dir :: string
  qc_DryRun :: bool

record webhookConfig =
  wc_URL :: string
  wc_Headers :: "(string \<times> string) list"
  wc_TimeoutSec :: int
  wc_Format :: string
  wc_MinSeverity :: string

record emailAlertConfig =
  ea_Enabled :: bool
  ea_SMTPHost :: string
  ea_SMTPPort :: int
  ea_Username :: string
  ea_Password :: string
  ea_From :: string
  ea_To :: "string list"
  ea_UseTLS :: bool
  ea_MinSeverity :: string

record syslogRemoteConfig =
  sr_Enabled :: bool
  sr_Host :: string
  sr_Port :: int
  sr_Protocol :: string
  sr_Facility :: string

record dashboardConfig =
  dc_Enabled :: bool
  dc_Listen :: string
  dc_TLSCert :: string
  dc_TLSKey :: string

record config =
  cf_PolicyPath :: string
  cf_BaselinePath :: string
  cf_EventPath :: string
  cf_ResponsePath :: string
  cf_ArtifactDir :: string
  cf_SocketPath :: string
  cf_IntervalSec :: int
  cf_Syslog :: bool
  cf_DryRun :: bool
  cf_Retention :: retentionConfig
  cf_FileWatch :: fileWatchConfig
  cf_NFT :: nftConfig
  cf_AllowedUIDs :: "int list"
  cf_Integrity :: integrityConfig
  cf_Suppression :: suppressionConfig
  cf_BPF :: bpfConfig
  cf_Fanotify :: fanotifyConfig
  cf_Anchor :: anchorConfig
  cf_SigningKeyPath :: string
  cf_Quarantine :: quarantineConfig
  cf_Webhooks :: "webhookConfig list"
  cf_EmailAlerts :: emailAlertConfig
  cf_SyslogRemote :: syslogRemoteConfig
  cf_Dashboard :: dashboardConfig

definition defaultIntegrityKeyPath :: string where
  "defaultIntegrityKeyPath = ''/var/lib/edr/log.key''"

definition defaultConfig :: config where
  "defaultConfig =
     \<lparr>cf_PolicyPath = ''configs/policy.json'', cf_BaselinePath = ''configs/baseline.json'', cf_EventPath = ''var/events.jsonl'',
      cf_ResponsePath = ''var/responses.jsonl'', cf_ArtifactDir = ''var/forensics'', cf_SocketPath = ''var/run/edr-agent.sock'',
      cf_IntervalSec = 1, cf_Syslog = False, cf_DryRun = True,
      cf_Retention = \<lparr>rc_MaxBytes = 1048576, rc_MaxBackups = 3\<rparr>,
      cf_FileWatch = \<lparr>fw_Mode = ''inotify'',
        fw_Paths = [''configs'', ''/etc/ld.so.preload'', ''/etc/ld.so.conf.d'', ''/usr/lib'', ''/tmp'', ''/dev/shm'', ''/etc/shadow'',
          ''/etc/gshadow'', ''/etc/sudoers'', ''/etc/sudoers.d'', ''/var/spool/cron'', ''/etc/cron.d'', ''/etc/cron.daily'',
          ''/etc/systemd/system'', ''/root/.ssh'', ''/var/log'']\<rparr>,
      cf_NFT = \<lparr>nc_Enabled = False, nc_DryRun = True, nc_Table = ''edr'', nc_Chain = ''blocklist''\<rparr>,
      cf_AllowedUIDs = [0],
      cf_Integrity = \<lparr>ic_EnableChain = True, ic_KeyPath = defaultIntegrityKeyPath, ic_StatePath = [], ic_Algorithm = ''sha256''\<rparr>,
      cf_Suppression = \<lparr>sc_ProcessCooldownSec = 30, sc_FileCooldownSec = 60, sc_NetworkCooldownSec = 30, sc_RatePerSec = 10,
        sc_Burst = 10, sc_StatePath = ''var/suppressor.json''\<rparr>,
      cf_BPF = \<lparr>bc_Enabled = False, bc_ObjDir = [], bc_RingbufPages = 0, bc_RingbufPath = []\<rparr>,
      cf_Fanotify = \<lparr>fc_Enabled = True,
        fc_Paths = [''/etc'', ''/tmp'', ''/dev/shm'', ''/var/spool/cron'', ''/usr/local/bin'', ''/usr/bin'', ''/usr/sbin'',
          ''/root/.ssh'', ''/home'', ''/etc/systemd/system'', ''/etc/cron.d'', ''/etc/cron.daily'']\<rparr>,
      cf_Anchor = \<lparr>ac_Enabled = False, ac_URL = [], ac_FilePath = [], ac_Interval = 60\<rparr>,
      cf_SigningKeyPath = ''/var/lib/edr/signing.key'',
      cf_Quarantine = \<lparr>qc_Dir = ''var/quarantine'', qc_DryRun = True\<rparr>, cf_Webhooks = [],
      cf_EmailAlerts = \<lparr>ea_Enabled = False, ea_SMTPHost = [], ea_SMTPPort = 587, ea_Username = [], ea_Password = [], ea_From = [],
        ea_To = [], ea_UseTLS = True, ea_MinSeverity = ''high''\<rparr>,
      cf_SyslogRemote = \<lparr>sr_Enabled = False, sr_Host = [], sr_Port = 514, sr_Protocol = ''udp'', sr_Facility = ''daemon''\<rparr>,
      cf_Dashboard = \<lparr>dc_Enabled = False, dc_Listen = ''127.0.0.1:8443'', dc_TLSCert = [], dc_TLSKey = []\<rparr>\<rparr>"

section \<open>Comments\<close>

text \<open>The loop of \<open>stripComments\<close>; the flags say whether it is in a comment, in a string, after a backslash.\<close>

definition quote :: char where "quote = CHR 0x22"
definition backslash :: char where "backslash = CHR 0x5C"

definition emit :: "char \<Rightarrow> string \<times> bool \<Rightarrow> string \<times> bool" where
  "emit c r = (c # fst r, snd r)"

fun stripLoop :: "bool \<Rightarrow> bool \<Rightarrow> bool \<Rightarrow> string \<Rightarrow> string \<times> bool" where
  "stripLoop inBlock inString escape [] = ([], inBlock)"
| "stripLoop inBlock inString escape (ch # cs) =
     (if inBlock then
        (if ch = CHR ''*'' \<and> cs \<noteq> [] \<and> hd cs = CHR ''/'' then stripLoop False inString escape (tl cs)
         else stripLoop True inString escape cs)
      else if escape then emit ch (stripLoop False inString False cs)
      else if inString then
        emit ch (stripLoop False (ch = backslash \<or> ch \<noteq> quote) (ch = backslash) cs)
      else if ch = quote then emit ch (stripLoop False True False cs)
      else if ch = CHR ''/'' \<and> cs \<noteq> [] \<and> hd cs = CHR ''/'' then ([], False)
      else if ch = CHR ''/'' \<and> cs \<noteq> [] \<and> hd cs = CHR ''*'' then stripLoop True False False (tl cs)
      else emit ch (stripLoop False False False cs))"

definition stripComments :: "string \<Rightarrow> bool \<Rightarrow> string \<times> bool" where
  "stripComments line inBlock = stripLoop inBlock False False line"

fun cleanLines :: "bool \<Rightarrow> string list \<Rightarrow> string list" where
  "cleanLines inBlock [] = []"
| "cleanLines inBlock (line # lines) =
     (case stripComments line inBlock of
        (cleaned, b) \<Rightarrow> if trimSpace cleaned = [] then cleanLines b lines else cleaned # cleanLines b lines)"

definition cleanJSON :: "string \<Rightarrow> string" where
  "cleanJSON raw = joinS [nl] (cleanLines False (splitC nl raw))"

section \<open>Loading\<close>

datatype config_error = ConfigUnreadable string | ConfigInvalid

text \<open>\<open>file\<close>: the content of the file, nothing when there is none, or the error of reading it.\<close>

definition loadConfig :: "(string \<Rightarrow> config \<Rightarrow> config option) \<Rightarrow> string + string option \<Rightarrow> config_error + config" where
  "loadConfig decode file =
     (case file of
        Inl err \<Rightarrow> Inl (ConfigUnreadable err)
      | Inr None \<Rightarrow> Inr defaultConfig
      | Inr (Some raw) \<Rightarrow>
          (case decode (cleanJSON raw) defaultConfig of
             None \<Rightarrow> Inl ConfigInvalid
           | Some cfg \<Rightarrow> Inr (if cf_IntervalSec cfg \<le> 0 then cfg\<lparr>cf_IntervalSec := 1\<rparr> else cfg)))"

datatype key_choice_error = IntegrityKey key_error | KeyPathEmpty

definition sourceText :: "KeySource \<Rightarrow> string" where
  "sourceText s = (case s of SourceEnv \<Rightarrow> ''env:EDR_LOG_KEY'' | SourceFile \<Rightarrow> ''file'' | SourceGenFile \<Rightarrow> ''generated_file'')"

definition resolveSigningKey :: "KeyEnv \<Rightarrow> integrityConfig \<Rightarrow> filesys \<Rightarrow> (key_choice_error + string \<times> string) \<times> filesys" where
  "resolveSigningKey env cfg fs =
     (if \<not> ic_EnableChain cfg then (Inr ([], ''disabled''), fs)
      else
        (let path = trimSpace (ic_KeyPath cfg) in
         if path = [] then (Inl KeyPathEmpty, fs)
         else (case LoadOrCreate env path fs of
                 (Inl err, fs') \<Rightarrow> (Inl (IntegrityKey err), fs')
               | (Inr (key, source), fs') \<Rightarrow>
                   (Inr (key, if source = SourceFile \<or> source = SourceGenFile then ''file:'' @ path else sourceText source), fs'))))"

section \<open>Text with comments\<close>

text \<open>
  What a commented line consists of: characters outside strings, string literals and closed
  comments, then possibly a comment to the end of the line or one that stays open.  A line that
  begins inside a comment may close it or not.
\<close>

datatype seg = Code char | Lit string | Block string

datatype tail = NoTail | LineTail string | OpenTail string

datatype cline = Whole string | Line "string option" "seg list" tail

fun renderSeg :: "seg \<Rightarrow> string" where
  "renderSeg (Code c) = [c]"
| "renderSeg (Lit b) = quote # b @ [quote]"
| "renderSeg (Block b) = ''/*'' @ b @ ''*/''"

fun renderTail :: "tail \<Rightarrow> string" where
  "renderTail NoTail = []"
| "renderTail (LineTail t) = ''//'' @ t"
| "renderTail (OpenTail b) = ''/*'' @ b"

definition renderRest :: "seg list \<Rightarrow> tail \<Rightarrow> string" where
  "renderRest ss t = concat (map renderSeg ss) @ renderTail t"

fun renderLine :: "cline \<Rightarrow> string" where
  "renderLine (Whole b) = b"
| "renderLine (Line None ss t) = renderRest ss t"
| "renderLine (Line (Some b) ss t) = b @ ''*/'' @ renderRest ss t"

text \<open>The same with the comments left out.\<close>

fun keepSeg :: "seg \<Rightarrow> string" where
  "keepSeg (Block b) = []"
| "keepSeg sg = renderSeg sg"

fun textOf :: "cline \<Rightarrow> string" where
  "textOf (Whole b) = []"
| "textOf (Line h ss t) = concat (map keepSeg ss)"

text \<open>Literals are closed by their last quote only; comments by the first closing mark.\<close>

fun litOK :: "string \<Rightarrow> bool" where
  "litOK [] = True"
| "litOK (c # cs) = (if c = backslash then cs \<noteq> [] \<and> litOK (tl cs) else c \<noteq> quote \<and> litOK cs)"

fun noClose :: "string \<Rightarrow> bool" where
  "noClose [] = True"
| "noClose (c # cs) = (\<not> (c = CHR ''*'' \<and> cs \<noteq> [] \<and> hd cs = CHR ''/'') \<and> noClose cs)"

fun restOK :: "seg list \<Rightarrow> tail \<Rightarrow> bool" where
  "restOK [] t = (case t of OpenTail b \<Rightarrow> noClose b | _ \<Rightarrow> True)"
| "restOK (Code c # ss) t = (c \<noteq> quote \<and> restOK ss t
     \<and> (c = CHR ''/'' \<longrightarrow> renderRest ss t = [] \<or> hd (renderRest ss t) \<notin> {CHR ''/'', CHR ''*''}))"
| "restOK (Lit b # ss) t = (litOK b \<and> restOK ss t)"
| "restOK (Block b # ss) t = (noClose b \<and> restOK ss t)"

definition opens :: "tail \<Rightarrow> bool" where
  "opens t = (case t of OpenTail b \<Rightarrow> True | _ \<Rightarrow> False)"

fun linesOK :: "bool \<Rightarrow> cline list \<Rightarrow> bool" where
  "linesOK b [] = True"
| "linesOK b (Whole w # ls) = (b \<and> noClose w \<and> linesOK True ls)"
| "linesOK b (Line h ss t # ls) =
     ((case h of None \<Rightarrow> \<not> b | Some w \<Rightarrow> b \<and> noClose w) \<and> restOK ss t \<and> linesOK (opens t) ls)"

lemma quote_chars [simp]: "quote \<noteq> CHR ''/''" "quote \<noteq> backslash" "backslash \<noteq> quote" "CHR ''/'' \<noteq> quote" "CHR ''*'' \<noteq> quote"
  by (simp_all add: quote_def backslash_def)

lemma stripLoop_open: "noClose b \<Longrightarrow> stripLoop True False False b = ([], True)"
  by (induction b) auto

lemma stripLoop_block: "noClose b \<Longrightarrow> stripLoop True False False (b @ CHR ''*'' # CHR ''/'' # rest) = stripLoop False False False rest"
proof (induction b)
  case (Cons c b)
  then show ?case by (cases b) auto
qed simp

lemma emit_pair: "emit c (xs, b) = (c # xs, b)"
  by (simp add: emit_def)

lemma stripLoop_literal:
  "litOK b \<Longrightarrow> stripLoop False True False (b @ quote # rest) =
     (case stripLoop False False False rest of (xs, o') \<Rightarrow> (b @ quote # xs, o'))"
proof (induction b rule: litOK.induct)
  case 1
  then show ?case by (simp add: emit_def split: prod.split)
next
  case (2 c cs)
  show ?case
  proof (cases "c = backslash")
    case True
    with 2(3) obtain d ds where d: "cs = d # ds" "litOK ds" by (cases cs) auto
    with 2(1) True show ?thesis by (simp add: emit_def split: prod.split)
  next
    case False
    with 2 show ?thesis by (simp add: emit_def split: prod.split)
  qed
qed

lemma stripLoop_rest:
  "restOK ss t \<Longrightarrow> stripLoop False False False (renderRest ss t) = (concat (map keepSeg ss), opens t)"
proof (induction ss t rule: restOK.induct)
  case (1 t)
  then show ?case
    by (cases t) (simp_all add: renderRest_def opens_def stripLoop_open)
next
  case (2 c ss t)
  then show ?case
    by (cases "c = CHR ''/''") (auto simp: renderRest_def emit_def)
next
  case (3 b ss t)
  then show ?case
    using stripLoop_literal [of b "renderRest ss t"] by (simp add: renderRest_def emit_def)
next
  case (4 b ss t)
  then show ?case
    using stripLoop_block [of b "renderRest ss t"] by (simp add: renderRest_def)
qed

lemma stripComments_line:
  "linesOK b (l # ls) \<Longrightarrow> \<exists>b'. stripComments (renderLine l) b = (textOf l, b') \<and> linesOK b' ls"
  by (cases l; cases "b")
    (auto simp: stripComments_def stripLoop_open stripLoop_rest stripLoop_block split: option.splits)

lemma cleanLines_render:
  "linesOK b ls \<Longrightarrow> cleanLines b (map renderLine ls) = filter (\<lambda>t. trimSpace t \<noteq> []) (map textOf ls)"
proof (induction ls arbitrary: b)
  case (Cons l ls)
  from stripComments_line [OF Cons.prems] Cons.IH show ?case by auto
qed simp

section \<open>Properties\<close>

text \<open>
  Claim C37.  Exactly the comments are removed.  A text made of code, string literals and
  comments, over any number of lines, is cleaned to the same text without its comments, without
  the lines this leaves blank, and with every string literal as it was, whatever marks of
  comments it holds.
\<close>

theorem comments_removed_exactly:
  assumes "ls \<noteq> []" "linesOK False ls" "\<forall>l \<in> set ls. nl \<notin> set (renderLine l)"
  shows "cleanJSON (joinS [nl] (map renderLine ls)) = joinS [nl] (filter (\<lambda>t. trimSpace t \<noteq> []) (map textOf ls))"
  using splitC_joinS [of "map renderLine ls" nl] cleanLines_render [OF assms(2)] assms(1,3)
  by (simp add: cleanJSON_def)

theorem comments_removed_exactly_witness:
  "cleanJSON (joinS [nl] [''{ /* a'', ''b */ '' @ [quote] @ ''//'' @ [quote] @ '' // c''])
     = joinS [nl] [''{ '', '' '' @ [quote] @ ''//'' @ [quote] @ '' '']"
  using comments_removed_exactly
    [of "[Line None [Code (CHR ''{''), Code (CHR '' '')] (OpenTail '' a''),
          Line (Some ''b '') [Code (CHR '' ''), Lit ''//'', Code (CHR '' '')] (LineTail '' c'')]"]
  by (simp add: renderRest_def opens_def quote_def backslash_def gostr)

end
