(* ===== verification/AgentMain.thy ===== *)
theory AgentMain
  imports Server Fanotify Config
begin

text \<open>
  The program of the agent, \<open>cmd/edr-agent/main.go\<close> with \<open>main_libbpf.go\<close> and
  \<open>main_stub_bpf.go\<close>: the start in the order of the code, every fatal error a value, and the main
  loop as a step relation.  In the loop the requests of the control server, the fast path and the
  deferred evaluations interleave with the ticks and signals the loop itself receives; a request
  for a shutdown reaches the loop only while it waits.
\<close>

section \<open>The BPF loader\<close>

datatype bpf_start_error = ObjDirEmpty | NotWired string | BpfOpen open_error | BpfLoad load_error

text \<open>The default build has no loader; the build with the tag \<open>bpf\<close> has the one of libbpf.\<close>

definition startBPFLoaderStub :: "bpfConfig \<Rightarrow> bpf_start_error + libbpfLoader option" where
  "startBPFLoaderStub cfg =
     (if \<not> bc_Enabled cfg then Inr None
      else if bc_ObjDir cfg = [] then Inl ObjDirEmpty
      else Inl (NotWired (bc_ObjDir cfg)))"

definition startBPFLoader :: "(string \<Rightarrow> bool) \<Rightarrow> (string \<Rightarrow> int) \<Rightarrow> bpfConfig \<Rightarrow> bpf_start_error + libbpfLoader option" where
  "startBPFLoader present rc cfg =
     (if \<not> bc_Enabled cfg then Inr None
      else if bc_ObjDir cfg = [] then Inl ObjDirEmpty
      else (case NewLibBPFLoader present rc (bc_ObjDir cfg) of
              Inl err \<Rightarrow> Inl (BpfOpen err)
            | Inr l \<Rightarrow> (case libLoad l of (Some err, _) \<Rightarrow> Inl (BpfLoad err) | (None, l') \<Rightarrow> Inr (Some l'))))"

text \<open>The kernel's maps at the start; failures are reported on the standard error only.\<close>

fun fillBlacklist :: "(string \<Rightarrow> int) \<Rightarrow> Match list \<Rightarrow> libbpfLoader \<Rightarrow> libbpfLoader" where
  "fillBlacklist rc [] l = l"
| "fillBlacklist rc (bl # bls) l =
     (if m_ProcessName bl \<noteq> [] then fillBlacklist rc bls (snd (libBlacklistAdd (rc (m_ProcessName bl)) (m_ProcessName bl) l))
      else fillBlacklist rc bls l)"

definition populateMaps :: "bool \<Rightarrow> int \<Rightarrow> 32 word \<Rightarrow> (string \<Rightarrow> int) \<Rightarrow> Policy \<Rightarrow> libbpfLoader \<Rightarrow> libbpfLoader" where
  "populateMaps once rcPID self rc pol l =
     fillBlacklist rc (pa_Blacklist (p_ProcessAccess pol)) (if once then l else snd (libSetAgentPID rcPID self l))"

section \<open>Start\<close>

datatype fatal =
    FatalConfig config_error
  | FatalBase path_error
  | FatalPolicy policy_error
  | FatalKey key_choice_error
  | FatalLogger chain_error
  | FatalBPF bpf_start_error
  | FatalSocket string
  | FatalRun string

text \<open>What the program finds outside.\<close>

record MainEnv =
  me_configFile :: "string + string option"
  me_decodeConfig :: "string \<Rightarrow> config \<Rightarrow> config option"
  me_lstat :: "path \<Rightarrow> stat"
  me_mkdirErr :: "string option"
  me_lstatAfter :: "path \<Rightarrow> stat"
  me_cwd :: "path option"
  me_decodePolicy :: "string \<Rightarrow> Policy option"
  me_key :: KeyEnv
  me_lib :: Lib
  me_open :: OpenEnv
  me_bpf :: "bpfConfig \<Rightarrow> bpf_start_error + libbpfLoader option"  \<comment> \<open>the loader of the build\<close>
  me_rcPID :: int
  me_rcMap :: "string \<Rightarrow> int"
  me_pid :: "32 word"
  me_fan :: FanEnv
  me_stateFile :: "string option"
  me_stateErr :: bool
  me_wenv :: "Event \<Rightarrow> Logger \<Rightarrow> WriteEnv"
  me_codec :: metaCodec
  me_kern :: "Host \<Rightarrow> Kernel"
  me_base :: "machine Env"
  me_hostname :: string
  me_uid :: int
  me_bootID :: string
  me_health :: "gotime \<Rightarrow> BPFHealth"

definition configDirs :: "config \<Rightarrow> string list" where
  "configDirs cfg =
     [cf_ArtifactDir cfg, dirOf (cf_EventPath cfg), dirOf (cf_ResponsePath cfg), dirOf (cf_SocketPath cfg), dirOf (cf_PolicyPath cfg),
      dirOf (cf_BaselinePath cfg), dirOf (ic_KeyPath (cf_Integrity cfg)), dirOf (sc_StatePath (cf_Suppression cfg))]"

fun validateDirs :: "MainEnv \<Rightarrow> string list \<Rightarrow> path_error option" where
  "validateDirs env [] = None"
| "validateDirs env (p # ps) =
     (if p = [] \<or> p = ''.'' then validateDirs env ps
      else (case ValidateBaseNotSymlink (me_lstat env) (me_mkdirErr env) (me_lstatAfter env) (me_cwd env) p of
              Some e \<Rightarrow> Some e
            | None \<Rightarrow> validateDirs env ps))"

definition loggerOptions :: "config \<Rightarrow> string \<Rightarrow> Options" where
  "loggerOptions cfg key =
     \<lparr>op_EnableSyslog = cf_Syslog cfg, op_MaxBytes = rc_MaxBytes (cf_Retention cfg), op_MaxBackups = rc_MaxBackups (cf_Retention cfg),
      op_Integrity = \<lparr>io_EnableChain = ic_EnableChain (cf_Integrity cfg), io_Algorithm = ic_Algorithm (cf_Integrity cfg), io_Key = key,
        io_StatePath = ic_StatePath (cf_Integrity cfg)\<rparr>,
      op_RemoteSyslog = zeroRemote\<rparr>"

text \<open>A number of seconds as a duration, which wraps at 64 bits.\<close>

definition seconds :: "int \<Rightarrow> duration" where
  "seconds n = sint (word_of_int (n * second) :: 64 word)"

definition suppressorOptions :: "suppressionConfig \<Rightarrow> SuppressorOptions" where
  "suppressorOptions s =
     \<lparr>opt_ProcessCooldown = seconds (sc_ProcessCooldownSec s), opt_FileCooldown = seconds (sc_FileCooldownSec s),
      opt_NetworkCooldown = seconds (sc_NetworkCooldownSec s), opt_RatePerSec = sc_RatePerSec s, opt_Burst = sc_Burst s\<rparr>"

text \<open>The responder has no quarantine configured: the program does not pass that part of the configuration on.\<close>

definition responderOf :: "config \<Rightarrow> SoftResponder" where
  "responderOf cfg =
     \<lparr>DryRun = cf_DryRun cfg,
      NFT = \<lparr>nft_Enabled = nc_Enabled (cf_NFT cfg), nft_DryRun = nc_DryRun (cf_NFT cfg), nft_Table = nc_Table (cf_NFT cfg), nft_Chain = nc_Chain (cf_NFT cfg)\<rparr>,
      Quarantine = \<lparr>q_Dir = [], q_DryRun = False\<rparr>\<rparr>"

definition newAgent :: "MainEnv \<Rightarrow> config \<Rightarrow> Policy \<Rightarrow> libbpfLoader option \<Rightarrow> Agent" where
  "newAgent env cfg pol filler =
     \<lparr>ag_Policy = pol, ag_History = [], ag_MaxHistory = 0, ag_ResponsePath = cf_ResponsePath cfg,
      ag_SuppressorStatePath = sc_StatePath (cf_Suppression cfg), ag_StartedAt = None, ag_RunCount = 0, ag_EventCount = 0,
      ag_ResponseCount = 0, ag_SuppressedTotal = 0, ag_SuppressionReasons = Map.empty, ag_RuleHits = Map.empty,
      ag_Suppressor = Some (NewSuppressor (suppressorOptions (cf_Suppression cfg))), ag_mapFiller = filler,
      ag_bpfHealthFn = Some (me_health env), ag_responseCh = None, ag_deferredCh = None, ag_shut = False, ag_panicked = False,
      ag_tick = 0, ag_stateFile = me_stateFile env, ag_responseFile = []\<rparr>"

definition mainServices :: "MainEnv \<Rightarrow> config \<Rightarrow> machine Env" where
  "mainServices env cfg = services (me_lib env) (me_wenv env) (me_codec env) (me_kern env) (responderOf cfg) (me_base env)"

definition fanotifyFailedEvent :: "MainEnv \<Rightarrow> string \<Rightarrow> Event" where
  "fanotifyFailedEvent env err =
     zeroEvent\<lparr>e_EventID := ''fanotify-init-failed'', e_Category := ''audit'', e_Severity := ''high'', e_Action := ''startup'',
       e_Decision := ''alert'', e_RuleID := ''agent-self-check'', e_Host := me_hostname env,
       e_Evidence := Some [(''error'', VStr err),
         (''reason'', VStr ''fanotify initialization failed; file-access interposition is not active'')]\<rparr>"

definition fanErrorText :: "fan_error \<Rightarrow> string" where
  "fanErrorText e = (case e of InitFailed err \<Rightarrow> ''fanotify_init: '' @ err
     | MarkFailed p err \<Rightarrow> ''fanotify_mark '' @ [quote] @ p @ [quote] @ '': '' @ err)"

definition startFanotify :: "MainEnv \<Rightarrow> config \<Rightarrow> sys \<Rightarrow> Provider option \<times> sys" where
  "startFanotify env cfg s =
     (if fc_Enabled (cf_Fanotify cfg) \<and> fc_Paths (cf_Fanotify cfg) \<noteq> [] then
        (case NewProvider (me_fan env) (fc_Paths (cf_Fanotify cfg)) of
           Inl err \<Rightarrow> (None, (fst s, writeLog (mainServices env cfg) (fanotifyFailedEvent env (fanErrorText err)) (snd s)))
         | Inr p \<Rightarrow> (Some p, s))
      else (None, s))"

definition issueValue :: "IntegrityIssue \<Rightarrow> anyv" where
  "issueValue i = VStruct [(''line'', VInt (int (i_Line i))), (''seq'', VU64 (i_Seq i)), (''kind'', VStr (i_Kind i)),
     (''detail'', VStr (i_Detail i)), (''expected'', VStr (i_Expected i)), (''actual'', VStr (i_Actual i))]"

definition segmentValue :: "LegacySegment \<Rightarrow> anyv" where
  "segmentValue g = VStruct [(''from_line'', VInt (int (FromLine g))), (''to_line'', VInt (int (ToLine g))), (''count'', VInt (int (Count g)))]"

definition startupVerifyEvent :: "MainEnv \<Rightarrow> string \<Rightarrow> string \<Rightarrow> VerifyResult \<Rightarrow> Event" where
  "startupVerifyEvent env key keySource res =
     zeroEvent\<lparr>e_EventID := ''log-verify-startup'', e_Category := ''audit'',
       e_Severity := (if \<not> OK res then ''critical'' else if LegacySegments res \<noteq> [] then ''warning'' else ''info''),
       e_Action := ''verify'', e_Decision := ''alert'', e_RuleID := ''log-verify'', e_Host := me_hostname env,
       e_Evidence := Some [(''ok'', VBool (OK res)), (''chain_id'', VStr (vr_ChainID res)), (''last_seq'', VU64 (LastSeq res)),
         (''chain_lines'', VInt (int (ChainLines res))), (''legacy_lines'', VInt (int (LegacyLines res))),
         (''issues'', VList (map issueValue (Issues res))), (''legacy_segments'', VList (map segmentValue (LegacySegments res))),
         (''key_source'', VStr keySource), (''hmac_enabled'', VBool (key \<noteq> [])), (''agent_uid'', VInt (me_uid env)),
         (''boot_id'', VStr (me_bootID env))]\<rparr>"

text \<open>A log that cannot be verified at all is only reported on the standard error.\<close>

definition emitStartupVerify :: "MainEnv \<Rightarrow> config \<Rightarrow> string \<Rightarrow> string \<Rightarrow> sys \<Rightarrow> sys" where
  "emitStartupVerify env cfg key keySource s =
     (case Verify (me_lib env) False (h_fs (snd (snd s))) (Path (Some (fst (snd s)))) key of
        Inl err \<Rightarrow> s
      | Inr res \<Rightarrow> (fst s, writeLog (mainServices env cfg) (startupVerifyEvent env key keySource res) (snd s)))"

definition startAnchor :: "MainEnv \<Rightarrow> config \<Rightarrow> Anchor option" where
  "startAnchor env cfg =
     (if ac_Enabled (cf_Anchor cfg)
      then NewAnchor \<lparr>ao_URL = ac_URL (cf_Anchor cfg), ao_FilePath = ac_FilePath (cf_Anchor cfg),
             ao_Interval = seconds (ac_Interval (cf_Anchor cfg)), ao_Hostname = me_hostname env, ao_BootID = me_bootID env\<rparr>
      else None)"

definition serverOptions :: "MainEnv \<Rightarrow> config \<Rightarrow> string \<Rightarrow> ServerOptions" where
  "serverOptions env cfg key =
     \<lparr>so_BaselinePath = cf_BaselinePath cfg, so_PolicyPath = cf_PolicyPath cfg, so_EventPath = cf_EventPath cfg,
      so_ArtifactDir = cf_ArtifactDir cfg, so_AllowedUIDs = cf_AllowedUIDs cfg, so_IntegrityKey = key,
      so_SigningKeyPath = cf_SigningKeyPath cfg, so_Anchor = startAnchor env cfg, so_Shutdown = True, so_WebhookTestFn = None,
      so_MetricsWriter = None\<rparr>"

text \<open>The program once it has started.\<close>

record Started =
  sd_cfg :: config
  sd_key :: string
  sd_sys :: sys
  sd_provider :: "Provider option"
  sd_opts :: ServerOptions

text \<open>From the configuration to the agent with its logger; then the interposition, the first check of the log, the server.\<close>

definition prepare :: "MainEnv \<Rightarrow> bool \<Rightarrow> Host \<Rightarrow> fatal + config \<times> string \<times> string \<times> sys" where
  "prepare env once h0 =
     (case loadConfig (me_decodeConfig env) (me_configFile env) of
        Inl e \<Rightarrow> Inl (FatalConfig e)
      | Inr cfg \<Rightarrow>
     (case validateDirs env (configDirs cfg) of
        Some e \<Rightarrow> Inl (FatalBase e)
      | None \<Rightarrow>
     (case loadPolicy (me_decodePolicy env) (fsGet (h_fs h0)) (cf_PolicyPath cfg) of
        Inl e \<Rightarrow> Inl (FatalPolicy e)
      | Inr pol \<Rightarrow>
     (case resolveSigningKey (me_key env) (cf_Integrity cfg) (h_fs h0) of
        (Inl e, fs) \<Rightarrow> Inl (FatalKey e)
      | (Inr (key, keySource), fs) \<Rightarrow>
     (case NewWithOptions (me_lib env) (me_open env) fs (cf_EventPath cfg) (loggerOptions cfg key) of
        Inl e \<Rightarrow> Inl (FatalLogger e)
      | Inr (logger, reports) \<Rightarrow>
     (case me_bpf env (cf_BPF cfg) of
        Inl e \<Rightarrow> Inl (FatalBPF e)
      | Inr loader \<Rightarrow>
          (let filler = map_option (populateMaps once (me_rcPID env) (me_pid env) (me_rcMap env) pol) loader;
               a = Init (mainServices env cfg) (me_stateErr env) (newAgent env cfg pol filler)
           in Inr (cfg, key, keySource, (a, logger, h0\<lparr>h_fs := fs\<rparr>)))))))))"

definition start :: "MainEnv \<Rightarrow> bool \<Rightarrow> Host \<Rightarrow> fatal + Started" where
  "start env once h0 =
     (case prepare env once h0 of
        Inl e \<Rightarrow> Inl e
      | Inr (cfg, key, keySource, s0) \<Rightarrow>
          (let (provider, s1) = startFanotify env cfg s0;
               s2 = (if ic_EnableChain (cf_Integrity cfg) then emitStartupVerify env cfg key keySource s1 else s1)
           in Inr \<lparr>sd_cfg = cfg, sd_key = key, sd_sys = s2, sd_provider = provider, sd_opts = serverOptions env cfg key\<rparr>))"

text \<open>The path of the socket: \<open>kind\<close> is what is there, if it can be examined.\<close>

datatype sock_kind = NoFile | StatFailure string | ASymlink | ASocket | OtherFile

definition prepareSocketPath :: "string option \<Rightarrow> sock_kind \<Rightarrow> string option \<Rightarrow> string option \<times> bool" where
  "prepareSocketPath mkdirErr kind removeErr =
     (case mkdirErr of
        Some e \<Rightarrow> (Some e, False)
      | None \<Rightarrow>
          (case kind of
             NoFile \<Rightarrow> (None, False)
           | StatFailure e \<Rightarrow> (Some e, False)
           | ASymlink \<Rightarrow> (Some ''refusing to replace symlink socket path'', False)
           | OtherFile \<Rightarrow> (Some ''refusing to replace non-socket path'', False)
           | ASocket \<Rightarrow> (removeErr, removeErr = None)))"

record SockEnv =
  se_mkdirErr :: "string option"
  se_kind :: sock_kind
  se_removeErr :: "string option"
  se_listenErr :: "string option"

definition openControl :: "SockEnv \<Rightarrow> string option" where
  "openControl k =
     (case prepareSocketPath (se_mkdirErr k) (se_kind k) (se_removeErr k) of
        (Some e, _) \<Rightarrow> Some e
      | (None, _) \<Rightarrow> se_listenErr k)"

text \<open>The values sampled once; what cannot be read stays empty.\<close>

definition cacheRuntimeVars :: "string option \<Rightarrow> int \<Rightarrow> string option \<Rightarrow> MainEnv \<Rightarrow> MainEnv" where
  "cacheRuntimeVars host user bootFile env =
     env\<lparr>me_hostname := (case host of Some h \<Rightarrow> h | None \<Rightarrow> []), me_uid := user,
         me_bootID := (case bootFile of Some raw \<Rightarrow> trimSpace raw | None \<Rightarrow> [])\<rparr>"

text \<open>The program up to its main loop: with \<open>--once\<close> it runs one cycle and returns.\<close>

datatype launched = Serving Started | RanOnce sys | Failed fatal

definition launch :: "MainEnv \<Rightarrow> bool \<Rightarrow> SockEnv \<Rightarrow> bool \<Rightarrow> string + Snapshot \<Rightarrow> bool \<Rightarrow> string option option \<Rightarrow> Host \<Rightarrow> launched" where
  "launch env once sock readErr snap mkdirOK writeFault h0 =
     (case start env once h0 of
        Inl e \<Rightarrow> Failed e
      | Inr st \<Rightarrow>
          if once then
            (case RunOnce (mainServices env (sd_cfg st)) None readErr snap mkdirOK writeFault (sd_sys st) of
               (Some e, s) \<Rightarrow> Failed (FatalRun e)
             | (None, s) \<Rightarrow> RanOnce s)
          else (case openControl sock of Some e \<Rightarrow> Failed (FatalSocket e) | None \<Rightarrow> Serving st))"

section \<open>File access\<close>

text \<open>The handler of the interposition asks the policy that is in force at the time.\<close>

definition accessSubject :: "AccessInfo \<Rightarrow> Subject" where
  "accessSubject info = zeroSubject\<lparr>s_ProcessName := ai_Comm info, s_ProcessPath := ai_Exe info, s_Cmdline := ai_Cmdline info,
     s_User := natStr (unat (ai_UID info))\<rparr>"

definition accessObject :: "AccessInfo \<Rightarrow> Object" where
  "accessObject info = zeroObject\<lparr>o_FilePath := ai_Path info, o_FileOp := ''open''\<rparr>"

definition HandleFileAccess :: "Policy \<Rightarrow> WallTime \<Rightarrow> AccessInfo \<Rightarrow> bool \<times> string" where
  "HandleFileAccess pol now info =
     (case AggregatedDecision (evaluateAll pol now (accessSubject info) (accessObject info)) of
        (Some resp, _) \<Rightarrow> if r_Decision resp = ''block'' then (False, r_ID resp) else (True, [])
      | (None, _) \<Rightarrow> (True, []))"

definition fanotifyLogEvent :: "string \<Rightarrow> FanEvent \<Rightarrow> Event" where
  "fanotifyLogEvent hostname ev =
     zeroEvent\<lparr>e_EventID := fe_EventID ev, e_Category := fe_Category ev, e_Severity := fe_Severity ev, e_Subject := Some (fe_Subject ev),
       e_Object := Some (fe_Object ev), e_Action := fe_Action ev, e_Decision := fe_Decision ev, e_RuleID := fe_RuleID ev, e_Host := hostname\<rparr>"

text \<open>One buffer of the interposition, with its audit events written to the log.\<close>

definition onFileAccess :: "MainEnv \<Rightarrow> config \<Rightarrow> WallTime \<Rightarrow> byte list \<Rightarrow> sys \<Rightarrow> effect list \<times> sys" where
  "onFileAccess env cfg now raw s =
     (let es = process (me_fan env) (\<lambda>info. Some (HandleFileAccess (CurrentPolicy (fst s)) now info)) raw in
      (es, (fst s, fold (\<lambda>e w. case e of Audit ev \<Rightarrow> writeLog (mainServices env cfg) (fanotifyLogEvent (me_hostname env) ev) w | _ \<Rightarrow> w) es (snd s))))"

section \<open>The main loop\<close>

definition signalEvent :: "int \<Rightarrow> string \<Rightarrow> gotime \<Rightarrow> Event" where
  "signalEvent self name now =
     zeroEvent\<lparr>e_EventID := ''signal-deny-'' @ itoa now, e_Category := ''self_protection'', e_Severity := ''critical'',
       e_Subject := Some [(''pid'', VInt self), (''signal'', VStr name)], e_Action := ''signal_denied'', e_Decision := ''deny'',
       e_RuleID := ''self-protect-signal'',
       e_Evidence := Some [(''boundary'', VStr ''external stop signals are denied; use /v0/shutdown with root-login boundary'')]\<rparr>"

definition auditSignalDenied :: "machine Env \<Rightarrow> string \<Rightarrow> sys \<Rightarrow> sys" where
  "auditSignalDenied svc name s =
     (case readClock svc (fst s) of (now, a) \<Rightarrow> (a, writeLog svc (signalEvent (ownPID svc) name now) (snd s)))"

definition cleanupNFT :: "Kernel \<Rightarrow> nftConfig \<Rightarrow> Host \<Rightarrow> Host" where
  "cleanupNFT k cfg h =
     (if \<not> nc_Enabled cfg \<or> nc_DryRun cfg then h
      else snd (Rollback k \<lparr>nft_Enabled = nc_Enabled cfg, nft_DryRun = False, nft_Table = nc_Table cfg, nft_Chain = nc_Chain cfg\<rparr> h))"

definition stopAgent :: "int \<Rightarrow> Kernel \<Rightarrow> nftConfig \<Rightarrow> sys \<Rightarrow> sys" where
  "stopAgent rc k cfg s = (case s of (a, l, h) \<Rightarrow> (Shutdown (ClearAgentPID rc a), l, cleanupNFT k cfg h))"

section \<open>The policy in force\<close>

text \<open>No operation of the agent but the installation of a policy changes the policy.\<close>

lemma readClock_policy [simp]: "ag_Policy (snd (readClock env a)) = ag_Policy a"
  by (simp add: readClock_def)

lemma recordRuleHit_policy [simp]: "ag_Policy (recordRuleHit r a) = ag_Policy a"
  by (simp add: recordRuleHit_def)

lemma allowAndRecord_policy [simp]: "ag_Policy (snd (allowAndRecord env cat rid key a)) = ag_Policy a"
  using allowAndRecord_frame(3) [OF prod.collapse [symmetric]] .

lemma applyResponse_policy [simp]: "ag_Policy (fst (applyResponse env rule cat subj obj proc s)) = ag_Policy (fst s)"
  by (cases s) (simp add: applyResponse_def split_beta Let_def recordResponse_frame split: option.split)

lemma auditLoop_policy [simp]: "ag_Policy (fst (auditLoop env now cat subj obj proc rules s)) = ag_Policy (fst s)"
  by (induction rules arbitrary: s) (auto simp: split_beta)

lemma applyMatchSet_policy [simp]: "ag_Policy (fst (applyMatchSet env now ms cat subj obj proc s)) = ag_Policy (fst s)"
  by (simp add: applyMatchSet_def split_beta split: option.split)

lemma handlers_policy [simp]:
  "ag_Policy (fst (handleProcess env pol now p s)) = ag_Policy (fst s)"
  "ag_Policy (fst (handleFileEvent env pol now e s)) = ag_Policy (fst s)"
  "ag_Policy (fst (handleConnection env pol now c s)) = ag_Policy (fst s)"
  by (simp_all add: handleProcess_def handleFileEvent_def handleConnection_def Let_def split_beta split: option.split)

lemma fold_policy: "(\<And>x s. ag_Policy (fst (f x s)) = ag_Policy (fst s)) \<Longrightarrow> ag_Policy (fst (fold f xs s)) = ag_Policy (fst s)"
  by (induction xs arbitrary: s) simp_all

lemma Init_policy [simp]: "ag_Policy (Init env readErr a) = ag_Policy a"
  by (simp add: Init_def Let_def split_beta)

lemma RunOnce_policy [simp]: "ag_Policy (fst (snd (RunOnce env ctxErr readErr snap mkdirOK writeFault s))) = ag_Policy (fst s)"
  by (simp add: RunOnce_def Let_def split_beta fold_policy split: option.split sum.split)

lemma deferred_policy [simp]:
  "ag_Policy (fst (processDeferredEval env de s)) = ag_Policy (fst s)"
  "ag_Policy (fst (handleDeferredEval env s)) = ag_Policy (fst s)"
proof -
  show p: "ag_Policy (fst (processDeferredEval env de s)) = ag_Policy (fst s)" for de s
    by (cases s) (simp add: processDeferredEval_def Let_def split_beta)
  show "ag_Policy (fst (handleDeferredEval env s)) = ag_Policy (fst s)"
    by (simp add: handleDeferredEval_def p split: option.split list.split)
qed

lemma exec_policy [simp]: "ag_Policy (fst (handleFastPathExec env ev s)) = ag_Policy (fst s)"
  by (cases s) (simp add: handleFastPathExec_def Let_def split_beta recordResponse_frame split: option.split)

lemma detect_policy [simp]: "ag_Policy (fst (detect env ev label subj subject brief s)) = ag_Policy (fst s)"
  by (cases s) (simp add: detect_def Let_def split_beta recordResponse_frame split: option.split)

lemma selfProtect_policy [simp]: "ag_Policy (fst (handleFastPathSelfProtect env ev s)) = ag_Policy (fst s)"
  by (cases s) (simp add: handleFastPathSelfProtect_def Let_def split_beta)

lemma fastPath_policy [simp]: "ag_Policy (fst (fastPath env ev s)) = ag_Policy (fst s)"
  by (simp add: fastPath_def handleFastPathPtraceEnh_def handleFastPathLDPreload_def handleFastPathInstrument_def Let_def split: EventType.split)

lemma writer_policy [simp]: "ag_Policy (responseWriter env okOpen fault a) = ag_Policy a"
  by (simp add: responseWriter_def appendResponseRecord_def Let_def split: option.split list.split)

section \<open>Runs of the program\<close>

text \<open>
  The main loop waits, runs a cycle, has received the request to stop, or has returned.  The
  services and the kernel's answers may be different at every step; the library, the encoding of
  the quarantine and the responder are those of the start.
\<close>

datatype phase = Waiting | Busy | Stopping | Exited

definition svcOf :: "MainEnv \<Rightarrow> config \<Rightarrow> machine Env \<Rightarrow> bool" where
  "svcOf env cfg svc \<longleftrightarrow> (\<exists>wenv kern base. svc = services (me_lib env) wenv (me_codec env) kern (responderOf cfg) base)"

definition srvOf :: "MainEnv \<Rightarrow> config \<Rightarrow> SrvEnv \<Rightarrow> bool" where
  "srvOf env cfg senv \<longleftrightarrow> sv_lib senv = me_lib env \<and> sv_codec senv = me_codec env \<and> sv_responder senv = responderOf cfg
     \<and> sv_decodePolicy senv = me_decodePolicy env"

inductive mainStep :: "MainEnv \<Rightarrow> config \<Rightarrow> ServerOptions \<Rightarrow> phase \<times> sys \<Rightarrow> phase \<times> sys \<Rightarrow> bool" for env cfg opts where
  tick: "mainStep env cfg opts (Waiting, s) (Busy, s)"
| cycle: "svcOf env cfg svc \<Longrightarrow> mainStep env cfg opts (Busy, s) (Waiting, snd (RunOnce svc None readErr snap mkdirOK writeFault s))"
| signal: "svcOf env cfg svc \<Longrightarrow> mainStep env cfg opts (Waiting, s) (Waiting, auditSignalDenied svc name s)"
| request: "ph \<in> {Waiting, Busy} \<Longrightarrow> srvOf env cfg senv \<Longrightarrow> serve senv opts url rq (s, False) = (r, (s', halt)) \<Longrightarrow>
    mainStep env cfg opts (ph, s) (if halt \<and> ph = Waiting then Stopping else ph, s')"
| fast: "ph \<noteq> Exited \<Longrightarrow> svcOf env cfg svc \<Longrightarrow> mainStep env cfg opts (ph, s) (ph, fastPath svc ev s)"
| deferred: "ph \<noteq> Exited \<Longrightarrow> svcOf env cfg svc \<Longrightarrow> mainStep env cfg opts (ph, s) (ph, handleDeferredEval svc s)"
| writer: "ph \<noteq> Exited \<Longrightarrow> svcOf env cfg svc \<Longrightarrow> mainStep env cfg opts (ph, (a, w)) (ph, (responseWriter svc okOpen fault a, w))"
| access: "ph \<noteq> Exited \<Longrightarrow> mainStep env cfg opts (ph, s) (ph, snd (onFileAccess env cfg now raw s))"
| stop: "mainStep env cfg opts (Stopping, s) (Exited, stopAgent rc k (cf_NFT cfg) s)"

inductive_cases mainStepE: "mainStep env cfg opts c c'"

lemma serve_policy:
  "serve env opts url rq (s, False) = (r, (s', halt)) \<Longrightarrow> ag_Policy (fst s') = ag_Policy (fst s) \<or> installed env opts (ag_Policy (fst s'))"
proof (cases "url = ''/v0/shutdown''")
  case True
  assume "serve env opts url rq (s, False) = (r, (s', halt))"
  with True have "ag_Policy (agentOf (s', halt)) = ag_Policy (agentOf (s, False))"
    using shutdown_keeps_policy by metis
  then show ?thesis by (simp add: agentOf_def)
next
  case False
  assume "serve env opts url rq (s, False) = (r, (s', halt))"
  from serve_handler [OF False this] show ?thesis by (auto simp: agentOf_def)
qed

lemma installed_wf: "installed env opts pol \<Longrightarrow> wfPolicy pol"
  using loadPolicy_wf unfolding installed_def by blast

lemma mainStep_policy:
  "mainStep env cfg opts c c' \<Longrightarrow> wfPolicy (ag_Policy (fst (snd c))) \<Longrightarrow> wfPolicy (ag_Policy (fst (snd c')))"
proof (induction rule: mainStep.induct)
  case (request ph senv url rq s r s' halt)
  with serve_policy [OF request.hyps(3)] show ?case using installed_wf by fastforce
qed (simp_all add: auditSignalDenied_def onFileAccess_def stopAgent_def Shutdown_def ClearAgentPID_def Let_def split_beta)

section \<open>Properties\<close>

lemma stopped_by_root:
  assumes "(mainStep env cfg opts)\<^sup>*\<^sup>* (Waiting, s0) c" "fst c \<in> {Stopping, Exited}"
  shows "\<exists>senv rq cred n s1 s2. (mainStep env cfg opts)\<^sup>*\<^sup>* (Waiting, s0) (Waiting, s1) \<and> srvOf env cfg senv
    \<and> serve senv opts ''/v0/shutdown'' rq (s1, False) = (Reply BShutdown, (s2, True))
    \<and> rq_method rq = ''POST'' \<and> rq_peer rq = Some cred \<and> uid cred = 0
    \<and> readProcLoginUID (sv_procFile senv) (pid cred) = Inr n \<and> n \<in> {0, auditLoginUIDUnset}
    \<and> sp_ShutdownEnabled (p_SelfProtection (ag_Policy (fst s1)))"
  using assms
proof (induction rule: rtranclp_induct)
  case (step c1 c2)
  show ?case
  proof (cases "fst c1 \<in> {Stopping, Exited}")
    case True
    then show ?thesis by (rule step.IH)
  next
    case False
    from step.hyps(2) show ?thesis
    proof (cases rule: mainStep.cases)
      case (request ph senv url rq s r s' halt)
      with step.prems False have w: "ph = Waiting" "halt" by (auto split: if_splits)
      from serve_stops [of "(s, False)", OF _ request(5)] w(2) obtain cred n
        where "url = ''/v0/shutdown''" "rq_method rq = ''POST''" "r = Reply BShutdown" "rq_peer rq = Some cred" "uid cred = 0"
          "readProcLoginUID (sv_procFile senv) (pid cred) = Inr n" "n \<in> {0, auditLoginUIDUnset}"
          "sp_ShutdownEnabled (p_SelfProtection (ag_Policy (fst s)))"
        by (auto simp: agentOf_def)
      moreover have "(mainStep env cfg opts)\<^sup>*\<^sup>* (Waiting, s0) (Waiting, s)" using step.hyps(1) request(1) w(1) by simp
      moreover have "serve senv opts ''/v0/shutdown'' rq (s, False) = (Reply BShutdown, (s', True))"
        using request(5) w(2) calculation by simp
      ultimately show ?thesis using request(4) by blast
    qed (use step.prems False in auto)
  qed
qed simp

text \<open>
  Claim C6.  Only root stops the agent.  Whatever signals, ticks, requests, kernel events and
  file accesses come in whatever order, the main loop returns only after it was waiting when a
  POST for the shutdown was served to a process of user 0 whose login user is root or unset,
  under a policy that enables the shutdown.
\<close>

theorem only_root_stops_agent:
  assumes "(mainStep env cfg opts)\<^sup>*\<^sup>* (Waiting, s0) (Exited, s)"
  shows "\<exists>senv rq cred n s1 s2. (mainStep env cfg opts)\<^sup>*\<^sup>* (Waiting, s0) (Waiting, s1) \<and> srvOf env cfg senv
    \<and> serve senv opts ''/v0/shutdown'' rq (s1, False) = (Reply BShutdown, (s2, True))
    \<and> rq_method rq = ''POST'' \<and> rq_peer rq = Some cred \<and> uid cred = 0
    \<and> readProcLoginUID (sv_procFile senv) (pid cred) = Inr n \<and> n \<in> {0, auditLoginUIDUnset}
    \<and> sp_ShutdownEnabled (p_SelfProtection (ag_Policy (fst s1)))"
  by (rule stopped_by_root [OF assms]) simp

lemma prepare_policy: "prepare env once h0 = Inr (cfg, key, src, a, l, h) \<Longrightarrow> wfPolicy (ag_Policy a)"
  using loadPolicy_wf
  by (auto simp: prepare_def newAgent_def Let_def split: sum.splits option.splits prod.splits)

text \<open>
  Claim C7.  The policy in force is always valid.  The program starts only with a policy that
  passes validation, and in every state it reaches, after any requests to reload or roll back and
  whatever happens to the files in between, the policy of the agent passes it too.
\<close>

theorem policy_always_valid:
  assumes "launch env once sock readErr snap mkdirOK writeFault h0 = Serving st"
    and "(mainStep env (sd_cfg st) (sd_opts st))\<^sup>*\<^sup>* (Waiting, sd_sys st) (ph, s)"
  shows "wfPolicy (ag_Policy (fst s))"
proof -
  from assms(1) have "start env once h0 = Inr st"
    by (auto simp: launch_def split: sum.splits if_splits option.splits prod.splits)
  then obtain cfg key src s0 where p: "prepare env once h0 = Inr (cfg, key, src, s0)"
    and a: "ag_Policy (fst (sd_sys st)) = ag_Policy (fst s0)"
    by (auto simp: start_def startFanotify_def emitStartupVerify_def Let_def split: sum.splits prod.splits if_splits)
  obtain a l h where "s0 = (a, l, h)" by (metis surj_pair)
  with p prepare_policy a have "wfPolicy (ag_Policy (fst (sd_sys st)))" by simp
  with assms(2) show ?thesis
    by (induction "(ph, s)" arbitrary: ph s rule: rtranclp_induct) (use mainStep_policy in fastforce)+
qed

lemma rotate_chain: "l_chain (fst (snd (rotateIfNeeded we l fs n))) = l_chain l"
  unfolding rotateIfNeeded_def Let_def by (simp split: option.split)

lemma appendLine_chain: "l_chain (fst (snd (appendLine lib we l fs raw e))) = l_chain l"
  by (simp add: appendLine_def rotate_chain [symmetric, of l we fs "length raw"] split_beta split: option.split)

lemma Seal_chain:
  "cw_enabled (fst (snd (Seal lib rnd fault fs cw e))) = cw_enabled cw"
  "cw_key (fst (snd (Seal lib rnd fault fs cw e))) = cw_key cw"
  by (simp_all add: Seal_def split: prod.split sum.split)

lemma Write_chain:
  "cw_enabled (l_chain (fst (snd (Write lib we l fs e)))) = cw_enabled (l_chain l)"
  "cw_key (l_chain (fst (snd (Write lib we l fs e)))) = cw_key (l_chain l)"
  using Seal_chain [of lib "w_rnd we" "w_save we" fs "l_chain l" "fillDefaults we l e"]
  by (auto simp: Write_def Let_def appendLine_chain split: prod.split sum.split option.split)

lemma writeLog_chain:
  "cw_enabled (l_chain (fst (writeLog (mainServices env cfg) e w))) = cw_enabled (l_chain (fst w))"
  "cw_key (l_chain (fst (writeLog (mainServices env cfg) e w))) = cw_key (l_chain (fst w))"
  using Write_chain [of "me_lib env" "me_wenv env e (fst w)" "fst w" "h_fs (snd w)" e]
  by (simp_all add: mainServices_def services_def split_beta)

lemma LoadOrCreate_size:
  assumes "\<And>k. ke_rand env = Inr k \<Longrightarrow> length k = keySize" "LoadOrCreate env path fs = (Inr (key, src), fs')"
  shows "length key = keySize"
  using assms
  by (auto simp: LoadOrCreate_def loadFromEnv_def sized_def generateAndPersist_def Let_def
      split: if_splits sum.splits option.splits prod.splits)

lemma validateDirs_None:
  "validateDirs env ps = None \<Longrightarrow> p \<in> set ps \<Longrightarrow> p \<noteq> [] \<Longrightarrow> p \<noteq> ''.'' \<Longrightarrow>
    ValidateBaseNotSymlink (me_lstat env) (me_mkdirErr env) (me_lstatAfter env) (me_cwd env) p = None"
  by (induction ps) (auto split: if_splits option.splits)

lemma loadConfig_interval: "loadConfig decode file = Inr cfg \<Longrightarrow> 1 \<le> cf_IntervalSec cfg"
  by (auto simp: loadConfig_def defaultConfig_def split: sum.splits option.splits if_splits)

lemma Init_ready: "ag_deferredCh (Init env readErr a) \<noteq> None" "ag_mapFiller (Init env readErr a) = ag_mapFiller a"
  by (auto simp: Init_def Let_def split_beta readClock_def)

lemma prepare_ready:
  assumes "prepare env once h0 = Inr (cfg, key, src, a, l, h)"
    and "\<And>k. ke_rand (me_key env) = Inr k \<Longrightarrow> length k = keySize" "me_bpf env \<in> {startBPFLoaderStub, startBPFLoader present rc}"
  shows "1 \<le> cf_IntervalSec cfg \<and> validateDirs env (configDirs cfg) = None
    \<and> (ic_EnableChain (cf_Integrity cfg) \<longrightarrow> length key = keySize \<and> cw_enabled (l_chain l) \<and> cw_key (l_chain l) = key)
    \<and> ag_deferredCh a \<noteq> None \<and> (bc_Enabled (cf_BPF cfg) \<longrightarrow> ag_mapFiller a \<noteq> None)"
proof -
  from assms(1) obtain pol fs reports loader where
    c: "loadConfig (me_decodeConfig env) (me_configFile env) = Inr cfg" "validateDirs env (configDirs cfg) = None"
    "resolveSigningKey (me_key env) (cf_Integrity cfg) (h_fs h0) = (Inr (key, src), fs)"
    "NewWithOptions (me_lib env) (me_open env) fs (cf_EventPath cfg) (loggerOptions cfg key) = Inr (l, reports)"
    "me_bpf env (cf_BPF cfg) = Inr loader"
    "a = Init (mainServices env cfg) (me_stateErr env) (newAgent env cfg pol
       (map_option (populateMaps once (me_rcPID env) (me_pid env) (me_rcMap env) pol) loader))"
    by (auto simp: prepare_def Let_def split: sum.splits option.splits prod.splits)
  have "ic_EnableChain (cf_Integrity cfg) \<longrightarrow> length key = keySize"
    using c(3) LoadOrCreate_size [OF assms(2)]
    by (auto simp: resolveSigningKey_def Let_def split: if_splits sum.splits prod.splits)
  moreover have "ic_EnableChain (cf_Integrity cfg) \<longrightarrow> cw_enabled (l_chain l) \<and> cw_key (l_chain l) = key"
    using c(4) by (auto simp: NewWithOptions_def loggerOptions_def newChainWriter_def Let_def split: if_splits prod.splits)
  moreover have "bc_Enabled (cf_BPF cfg) \<longrightarrow> loader \<noteq> None"
    using c(5) assms(3) by (auto simp: startBPFLoaderStub_def startBPFLoader_def split: if_splits sum.splits option.splits prod.splits)
  moreover have "ag_deferredCh a \<noteq> None" "(ag_mapFiller a \<noteq> None) = (loader \<noteq> None)"
    unfolding c(6) using Init_ready(1) by (simp_all add: Init_ready(2) newAgent_def)
  ultimately show ?thesis
    using loadConfig_interval [OF c(1)] c(2) by blast
qed



section \<open>A small agent\<close>

text \<open>
  The program under a configuration that turns the probes on and the interposition of files off,
  with its files in the working directory and the key of the log in the environment.
\<close>

definition demoCfg :: config where
  "demoCfg = defaultConfig\<lparr>cf_PolicyPath := ''p'', cf_BaselinePath := ''b'', cf_EventPath := ''e'', cf_ResponsePath := ''r'',
     cf_ArtifactDir := [], cf_SocketPath := ''s'',
     cf_Integrity := \<lparr>ic_EnableChain = True, ic_KeyPath = ''k'', ic_StatePath = ''t'', ic_Algorithm = ''sha256''\<rparr>,
     cf_Suppression := (cf_Suppression defaultConfig)\<lparr>sc_StatePath := ''u''\<rparr>,
     cf_BPF := \<lparr>bc_Enabled = True, bc_ObjDir = ''o'', bc_RingbufPages = 0, bc_RingbufPath = []\<rparr>,
     cf_Fanotify := \<lparr>fc_Enabled = False, fc_Paths = []\<rparr>\<rparr>"

definition demoMain :: MainEnv where
  "demoMain = \<lparr>me_configFile = Inr (Some ''{}''), me_decodeConfig = (\<lambda>_ _. Some demoCfg), me_lstat = (\<lambda>_. Absent), me_mkdirErr = None,
     me_lstatAfter = (\<lambda>_. Absent), me_cwd = None, me_decodePolicy = (\<lambda>_. Some samplePolicy),
     me_key = \<lparr>ke_getenv = demoPub, ke_readErr = None, ke_mkdirErr = None, ke_rand = Inr demoPub, ke_writeErr = None, ke_renameErr = None\<rparr>,
     me_lib = demoLib, me_open = \<lparr>oe_mkdirOK = True, oe_hostname = [], oe_syslogOK = False, oe_dialOK = (\<lambda>_ _. False),
       oe_stateReadFault = False, oe_dirFault = False\<rparr>,
     me_bpf = startBPFLoader (\<lambda>_. True) (\<lambda>_. 0), me_rcPID = 0, me_rcMap = (\<lambda>_. 0), me_pid = 77, me_fan = demoFan False,
     me_stateFile = None, me_stateErr = False, me_wenv = (\<lambda>_ _. quiet 1), me_codec = demoCodec, me_kern = (\<lambda>_. demoKernel),
     me_base = demoServices demoResponder, me_hostname = ''h'', me_uid = 0, me_bootID = [],
     me_health = (\<lambda>_. \<lparr>Attached = True, EventsDrained = 0, OverloadDrops = 0, LastErrorAt = None, LastError = []\<rparr>)\<rparr>"

definition demoMainHost :: Host where
  "demoMainHost = demoHost\<lparr>h_fs := [(''p'', ''{}'')]\<rparr>"

lemma demo_prepares: "\<exists>key src s. prepare demoMain False demoMainHost = Inr (demoCfg, key, src, s)"
proof -
  have p: "\<not> prefix ''b64:'' (replicate 32 (CHR ''k''))" "\<not> prefix ''hex:'' (replicate 32 (CHR ''k''))"
    by (simp_all add: numeral_eq_Suc)
  have "loadConfig (me_decodeConfig demoMain) (me_configFile demoMain) = Inr demoCfg"
    by (simp add: loadConfig_def demoMain_def demoCfg_def defaultConfig_def)
  moreover have "validateDirs demoMain (configDirs demoCfg) = None"
    by (simp add: configDirs_def demoCfg_def dirOf_def cleanName_def hasPrefix_def)
  moreover have "loadPolicy (me_decodePolicy demoMain) (fsGet (h_fs demoMainHost)) (cf_PolicyPath demoCfg) = Inr samplePolicy"
    using demo_validates by (auto simp: loadPolicy_def maxPolicyBytes_def demoMain_def demoMainHost_def demoCfg_def fsGet_def)
  moreover obtain key src fs where "resolveSigningKey (me_key demoMain) (cf_Integrity demoCfg) (h_fs demoMainHost) = (Inr (key, src), fs)"
    by (atomize_elim, simp add: resolveSigningKey_def demoMain_def demoCfg_def LoadOrCreate_def loadFromEnv_def demoPub_def trimSpace_def isSpace_def
        hasPrefix_def keySize_def Let_def p)
  moreover obtain l reports where "NewWithOptions (me_lib demoMain) (me_open demoMain) fs (cf_EventPath demoCfg) (loggerOptions demoCfg key) = Inr (l, reports)"
    by (atomize_elim, simp add: NewWithOptions_def demoMain_def Let_def split_beta)
  moreover obtain l' where "me_bpf demoMain (cf_BPF demoCfg) = Inr (Some l')"
    by (atomize_elim, simp add: demoMain_def demoCfg_def startBPFLoader_def NewLibBPFLoader_def findProbesObject_def libLoad_def newLibbpf_def)
  ultimately show ?thesis by (simp add: prepare_def Let_def)
qed

lemma demo_starts: obtains st where "start demoMain False demoMainHost = Inr st" "sd_cfg st = demoCfg"
  using demo_prepares that by (auto simp: start_def Let_def split_beta)


theorem policy_always_valid_witness:
  "\<exists>st. launch demoMain False \<lparr>se_mkdirErr = None, se_kind = ASocket, se_removeErr = None, se_listenErr = None\<rparr>
       False (Inl []) True None demoMainHost = Serving st
     \<and> wfPolicy (ag_Policy (fst (auditSignalDenied (mainServices demoMain demoCfg) ''terminated'' (sd_sys st))))"
proof -
  obtain st where st: "start demoMain False demoMainHost = Inr st" "sd_cfg st = demoCfg" by (rule demo_starts)
  have "mainStep demoMain (sd_cfg st) (sd_opts st) (Waiting, sd_sys st)
      (Waiting, auditSignalDenied (mainServices demoMain demoCfg) ''terminated'' (sd_sys st))"
    by (rule mainStep.signal) (auto simp: svcOf_def mainServices_def st(2))
  moreover have "launch demoMain False \<lparr>se_mkdirErr = None, se_kind = ASocket, se_removeErr = None, se_listenErr = None\<rparr>
      False (Inl []) True None demoMainHost = Serving st"
    by (simp add: launch_def st(1) openControl_def prepareSocketPath_def)
  ultimately show ?thesis using policy_always_valid [OF _ r_into_rtranclp] by blast
qed

text \<open>The server of the small agent; root asks it to stop.\<close>

definition demoMainSrv :: SrvEnv where
  "demoMainSrv = (demoSrv ''2'')\<lparr>sv_responder := responderOf demoCfg\<rparr>"

lemma demo_stops: "\<exists>s'. serve demoMainSrv demoSrvOpts ''/v0/shutdown'' (demoRequest (Some rootPeer)) (fst (demoSrvState True), False)
    = (Reply BShutdown, (s', True))"
proof -
  have "readProcLoginUID (\<lambda>f. if f = ''/proc/'' @ itoa 5 @ ''/loginuid'' then Some ''0'' else None) 5 = Inr 0"
    by (simp add: readProcLoginUID_def trimSpace_def isSpace_def parseUint32_def parseNat_def isDigitC_def digitsVal_def digitVal_def)
  then have "shutdownCredential (sv_procFile demoMainSrv) (Some rootPeer) = (rootPeer, 0, None)"
    by (simp add: demoMainSrv_def demoSrv_def shutdownCredential_def rootPeer_def)
  moreover from this have "authorizeRootLogin (sv_procFile demoMainSrv) (Some rootPeer) = (rootPeer, 0, None)"
    by (simp add: authorizeRootLogin_def rootPeer_def)
  moreover have "sp_ShutdownEnabled (p_SelfProtection (CurrentPolicy (agentOf (fst (demoSrvState True), False))))"
    by (simp add: demoSrvState_def agentOf_def CurrentPolicy_def Let_def)
  ultimately show ?thesis
    by (simp add: serve_shutdown requirePost_def handleShutdown_def demoRequest_def demoSrvOpts_def) (metis surj_pair)
qed

theorem only_root_stops_agent_witness:
  "\<exists>senv rq cred s1 s2. srvOf demoMain demoCfg senv
     \<and> serve senv demoSrvOpts ''/v0/shutdown'' rq (s1, False) = (Reply BShutdown, (s2, True)) \<and> rq_peer rq = Some cred \<and> uid cred = 0"
proof -
  obtain s' where s: "serve demoMainSrv demoSrvOpts ''/v0/shutdown'' (demoRequest (Some rootPeer)) (fst (demoSrvState True), False)
      = (Reply BShutdown, (s', True))" using demo_stops by blast
  have "srvOf demoMain demoCfg demoMainSrv" by (simp add: srvOf_def demoMain_def demoMainSrv_def demoSrv_def)
  from mainStep.request [OF _ this s, of Waiting] have "mainStep demoMain demoCfg demoSrvOpts (Waiting, fst (demoSrvState True)) (Stopping, s')" by simp
  moreover have "mainStep demoMain demoCfg demoSrvOpts (Stopping, s') (Exited, stopAgent 0 demoKernel (cf_NFT demoCfg) s')"
    by (rule mainStep.stop)
  ultimately have "(mainStep demoMain demoCfg demoSrvOpts)\<^sup>*\<^sup>* (Waiting, fst (demoSrvState True)) (Exited, stopAgent 0 demoKernel (cf_NFT demoCfg) s')"
    by (meson r_into_rtranclp rtranclp_trans)
  from only_root_stops_agent [OF this] show ?thesis by blast
qed

text \<open>A rule that blocks access to one file.\<close>

definition shadowRule :: Rule where
  "shadowRule = zeroRule\<lparr>r_ID := ''no-shadow'', r_Category := ''file'', r_Decision := ''block'', r_Action := ''quarantine'',
     r_Match := zeroMatch\<lparr>m_FilePath := ''/etc/shadow''\<rparr>\<rparr>"

definition shadowSys :: sys where
  "shadowSys = ((demoAgent None)\<lparr>ag_Policy := samplePolicy\<lparr>p_Rules := [shadowRule]\<rparr>\<rparr>, demoLogger 0, demoHost)"


end
