(* ===== verification/Edrctl.thy ===== *)
theory Edrctl
  imports Server
begin

text \<open>
  The command line tool \<open>cmd/edrctl/main.go\<close>: the commands in the order of the source, each
  either a local operation on files or one request over the socket of the agent.  The transport
  is an argument that threads the state of the other side; the last part of the theory connects
  it to the control server, so that a command and its effect in the agent are one function.
\<close>

section \<open>Requests\<close>

datatype call = GetCall string | PostCall string string

text \<open>The answer of a transport: its status and what could be read of the body, with the error of reading.\<close>

record HttpReply =
  hr_StatusCode :: int
  hr_Status :: string
  hr_Body :: "string \<times> string option"

datatype ctl_error =
    TransportError string
  | StatusError string
  | BodyError string
  | CtlPolicy policy_error
  | CtlSign sign_error
  | CtlBaseline baseline_error
  | CtlWrite string

record 'w CtlEnv =
  ct_ask :: "string \<Rightarrow> call \<Rightarrow> 'w \<Rightarrow> (string + HttpReply) \<times> 'w"
  ct_decodePolicy :: "string \<Rightarrow> Policy option"
  ct_newKey :: "string \<Rightarrow> string"
  ct_edSign :: "string \<Rightarrow> string \<Rightarrow> string"
  ct_edVerify :: "string \<Rightarrow> string \<Rightarrow> string \<Rightarrow> bool"
  ct_readErr :: "string \<Rightarrow> string option"
  ct_writeErr :: "(string \<times> string) option"
  ct_decodeTemplate :: "string \<Rightarrow> Template option"
  ct_readBaseline :: "string \<Rightarrow> string + string"
  ct_statPerm :: "string \<Rightarrow> string + 32 word"
  ct_json :: "Finding list \<Rightarrow> string"

definition readAll :: "HttpReply \<Rightarrow> ctl_error + string" where
  "readAll r = (case hr_Body r of (b, None) \<Rightarrow> Inr b | (b, Some e) \<Rightarrow> Inl (BodyError e))"

definition unixGet :: "'w CtlEnv \<Rightarrow> string \<Rightarrow> string \<Rightarrow> 'w \<Rightarrow> (ctl_error + string) \<times> 'w" where
  "unixGet env socket path w =
     (case ct_ask env socket (GetCall path) w of
        (Inl e, w') \<Rightarrow> (Inl (TransportError e), w')
      | (Inr r, w') \<Rightarrow> (if hr_StatusCode r \<ge> 300 then Inl (StatusError (hr_Status r)) else readAll r, w'))"

definition unixPostJSON :: "'w CtlEnv \<Rightarrow> string \<Rightarrow> string \<Rightarrow> string \<Rightarrow> 'w \<Rightarrow> (ctl_error + string) \<times> 'w" where
  "unixPostJSON env socket path jsonBody w =
     (case ct_ask env socket (PostCall path jsonBody) w of
        (Inl e, w') \<Rightarrow> (Inl (TransportError e), w')
      | (Inr r, w') \<Rightarrow>
          (if hr_StatusCode r \<ge> 300 then Inl (StatusError (hr_Status r @ '': '' @ trimSpace (fst (hr_Body r)))) else readAll r, w'))"

definition unixPost :: "'w CtlEnv \<Rightarrow> string \<Rightarrow> string \<Rightarrow> 'w \<Rightarrow> (ctl_error + string) \<times> 'w" where
  "unixPost env socket path = unixPostJSON env socket path []"

section \<open>Commands\<close>

text \<open>How the program ends: with text on the standard output, with an error, or with its usage.\<close>

datatype outcome =
    Printed string
  | Refused string       \<comment> \<open>printed, exit status 1\<close>
  | Died ctl_error
  | UsageText
  | UsageLine string
  | Silent

fun exitCode :: "outcome \<Rightarrow> nat" where
  "exitCode (Printed out) = 0"
| "exitCode (Refused out) = 1"
| "exitCode (Died e) = 1"
| "exitCode UsageText = 2"
| "exitCode (UsageLine t) = 2"
| "exitCode Silent = 0"

type_synonym 'w ctl = "'w \<times> filesys"

definition printReply :: "(ctl_error + string) \<times> 'w \<Rightarrow> filesys \<Rightarrow> outcome \<times> 'w ctl" where
  "printReply r fs = (case r of (Inl e, w) \<Rightarrow> (Died e, (w, fs)) | (Inr body, w) \<Rightarrow> (Printed (body @ [nl]), (w, fs)))"

definition getAndPrint :: "'w CtlEnv \<Rightarrow> string \<Rightarrow> string \<Rightarrow> 'w ctl \<Rightarrow> outcome \<times> 'w ctl" where
  "getAndPrint env socket path s = printReply (unixGet env socket path (fst s)) (snd s)"

definition postAndPrint :: "'w CtlEnv \<Rightarrow> string \<Rightarrow> string \<Rightarrow> 'w ctl \<Rightarrow> outcome \<times> 'w ctl" where
  "postAndPrint env socket path s = printReply (unixPost env socket path (fst s)) (snd s)"

definition postJSONAndPrint :: "'w CtlEnv \<Rightarrow> string \<Rightarrow> string \<Rightarrow> string \<Rightarrow> 'w ctl \<Rightarrow> outcome \<times> 'w ctl" where
  "postJSONAndPrint env socket path body s = printReply (unixPostJSON env socket path body (fst s)) (snd s)"

text \<open>\<open>flag.Arg\<close>: empty when there is no such argument.\<close>

definition argAt :: "string list \<Rightarrow> nat \<Rightarrow> string" where
  "argAt args i = (if i < length args then args ! i else [])"

definition queryString :: "string list \<Rightarrow> string" where
  "queryString args =
     (let parts = filter (\<lambda>arg. strContains arg ''='') args
      in if args = [] \<or> parts = [] then [] else ''?'' @ joinS ''&'' parts)"

definition policyValidate :: "'w CtlEnv \<Rightarrow> string \<Rightarrow> 'w ctl \<Rightarrow> outcome \<times> 'w ctl" where
  "policyValidate env path s =
     (case loadPolicy (ct_decodePolicy env) (fsGet (snd s)) path of
        Inl e \<Rightarrow> (Died (CtlPolicy e), s)
      | Inr p \<Rightarrow> (Printed (''ok: '' @ itoa (int (length (p_Rules p))) @ '' rules, process_access='' @ pa_Mode (p_ProcessAccess p) @ [nl]), s))"

text \<open>A failed write leaves the text it gives.\<close>

definition policySign :: "'w CtlEnv \<Rightarrow> string \<Rightarrow> string \<Rightarrow> 'w ctl \<Rightarrow> outcome \<times> 'w ctl" where
  "policySign env policyPath keyPath s =
     (case LoadSigningKey (ct_newKey env) (ct_readErr env keyPath) (snd s) keyPath of
        Inl e \<Rightarrow> (Died (CtlSign e), s)
      | Inr key \<Rightarrow>
     (case readKeyFile (ct_readErr env policyPath) (snd s) policyPath of
        Inl e \<Rightarrow> (Died (CtlSign e), s)
      | Inr raw \<Rightarrow>
     (case Sign (ct_edSign env) (Some key) raw of
        Inl e \<Rightarrow> (Died (CtlSign e), s)
      | Inr sig \<Rightarrow>
          (let sigPath = SignatureFile policyPath in
           case ct_writeErr env of
             Some (e, left) \<Rightarrow> (Died (CtlWrite e), (fst s, fsPut (snd s) sigPath left))
           | None \<Rightarrow> (Printed (''ok: signed '' @ policyPath @ '' -> '' @ sigPath @ [nl]), (fst s, fsPut (snd s) sigPath (sig @ [nl])))))))"

definition policyVerify :: "'w CtlEnv \<Rightarrow> string \<Rightarrow> string \<Rightarrow> 'w ctl \<Rightarrow> outcome \<times> 'w ctl" where
  "policyVerify env policyPath keyPath s =
     (case LoadPublicKey (ct_readErr env keyPath) (snd s) keyPath of
        Inl e \<Rightarrow> (Died (CtlSign e), s)
      | Inr pub \<Rightarrow>
     (case readKeyFile (ct_readErr env policyPath) (snd s) policyPath of
        Inl e \<Rightarrow> (Died (CtlSign e), s)
      | Inr raw \<Rightarrow>
     (case readKeyFile (ct_readErr env (SignatureFile policyPath)) (snd s) (SignatureFile policyPath) of
        Inl e \<Rightarrow> (Died (CtlSign e), s)
      | Inr sigRaw \<Rightarrow>
     (case VerifySignature (ct_edVerify env) pub raw sigRaw of
        Inl e \<Rightarrow> (Died (CtlSign e), s)
      | Inr ok \<Rightarrow> (if \<not> ok then Refused (''invalid signature'' @ [nl])
                   else Printed (''ok: valid signature for '' @ policyPath @ [nl]), s)))))"

text \<open>A \<open>policy\<close> command that fits none of the forms ends without a word.\<close>

definition policyCommand :: "'w CtlEnv \<Rightarrow> string \<Rightarrow> string list \<Rightarrow> 'w ctl \<Rightarrow> outcome \<times> 'w ctl" where
  "policyCommand env socket args s =
     (let n = length args; sub = argAt args 1; versionArg = (if n = 3 then ''?version='' @ argAt args 2 else [])
      in if n = 3 \<and> sub = ''validate'' then policyValidate env (argAt args 2) s
         else if n = 2 \<and> sub = ''versions'' then getAndPrint env socket ''/v0/policy/versions'' s
         else if n \<ge> 2 \<and> sub = ''rollback'' then postAndPrint env socket (''/v0/policy/rollback'' @ versionArg) s
         else if n = 4 \<and> sub = ''sign'' then policySign env (argAt args 2) (argAt args 3) s
         else if n \<ge> 3 \<and> sub = ''verify-signature'' then policyVerify env (argAt args 2) (argAt args 3) s
         else if n = 2 \<and> sub = ''verify-signature'' then postAndPrint env socket ''/v0/policy/verify-signature'' s
         else if n \<ge> 2 \<and> sub = ''reload'' then postAndPrint env socket (''/v0/policy/reload'' @ versionArg) s
         else (Silent, s))"

definition baselineCommand :: "'w CtlEnv \<Rightarrow> string list \<Rightarrow> 'w ctl \<Rightarrow> outcome \<times> 'w ctl" where
  "baselineCommand env args s =
     (if length args = 3 \<and> argAt args 1 = ''run''
      then (case LoadBaseline (ct_decodeTemplate env) (ct_readBaseline env) (argAt args 2) of
              Inl e \<Rightarrow> (Died (CtlBaseline e), s)
            | Inr t \<Rightarrow> (Printed (ct_json env (RunBaseline (ct_statPerm env) t) @ [nl]), s))
      else (UsageText, s))"

definition eventsCommand :: "'w CtlEnv \<Rightarrow> string \<Rightarrow> string list \<Rightarrow> 'w ctl \<Rightarrow> outcome \<times> 'w ctl" where
  "eventsCommand env socket args s =
     (let sub = argAt args 1 in
      if length args \<ge> 2 \<and> sub = ''verify'' then getAndPrint env socket ''/v0/events/verify'' s
      else if length args \<ge> 2 \<and> (sub = ''tail'' \<or> sub = ''query'')
      then getAndPrint env socket (''/v0/events'' @ queryString (drop 2 args)) s
      else (UsageText, s))"

text \<open>The bodies are put together as text.\<close>

definition freezeField :: "string \<Rightarrow> string" where
  "freezeField arg =
     (if hasPrefix arg ''path='' then '',\"process_path\":\"'' @ drop 5 arg @ ''\"''
      else if hasPrefix arg ''ticks='' then '',\"start_ticks\":\"'' @ drop 6 arg @ ''\"''
      else [])"

definition freezeBody :: "string \<Rightarrow> string list \<Rightarrow> string" where
  "freezeBody p extra = ''{\"pid\":'' @ p @ concat (map freezeField extra) @ ''}''"

definition processCommand :: "'w CtlEnv \<Rightarrow> string \<Rightarrow> string list \<Rightarrow> 'w ctl \<Rightarrow> outcome \<times> 'w ctl" where
  "processCommand env socket args s =
     (let n = length args; sub = argAt args 1 in
      if n < 2 then (UsageText, s)
      else if sub = ''freeze'' then
        (if n < 3 then (UsageLine ''usage: edrctl process freeze PID [path=PATH] [ticks=TICKS]'', s)
         else postJSONAndPrint env socket ''/v0/process/freeze'' (freezeBody (argAt args 2) (drop 3 args)) s)
      else if sub = ''resume'' then
        (if n < 3 then (UsageLine ''usage: edrctl process resume PID'', s)
         else postJSONAndPrint env socket ''/v0/process/resume'' (''{\"pid\":'' @ argAt args 2 @ ''}'') s)
      else if sub = ''frozen'' then getAndPrint env socket ''/v0/process/frozen'' s
      else (UsageText, s))"

definition quarantineCommand :: "'w CtlEnv \<Rightarrow> string \<Rightarrow> string list \<Rightarrow> 'w ctl \<Rightarrow> outcome \<times> 'w ctl" where
  "quarantineCommand env socket args s =
     (let n = length args; sub = argAt args 1 in
      if n < 2 then (UsageText, s)
      else if sub = ''list'' then getAndPrint env socket ''/v0/quarantine/list'' s
      else if sub = ''restore'' then
        (if n < 3 then (UsageLine ''usage: edrctl quarantine restore ORIGINAL_PATH'', s)
         else postAndPrint env socket (''/v0/quarantine/restore?path='' @ argAt args 2) s)
      else (UsageText, s))"

definition networkCommand :: "'w CtlEnv \<Rightarrow> string \<Rightarrow> string list \<Rightarrow> 'w ctl \<Rightarrow> outcome \<times> 'w ctl" where
  "networkCommand env socket args s =
     (if length args < 2 then (UsageText, s)
      else if argAt args 1 = ''isolate'' then postAndPrint env socket ''/v0/network/isolate'' s
      else if argAt args 1 = ''restore'' then postAndPrint env socket ''/v0/network/restore'' s
      else (UsageText, s))"

definition nftCommand :: "'w CtlEnv \<Rightarrow> string \<Rightarrow> string list \<Rightarrow> 'w ctl \<Rightarrow> outcome \<times> 'w ctl" where
  "nftCommand env socket args s =
     (if length args \<noteq> 2 then (UsageText, s)
      else if argAt args 1 = ''list'' then getAndPrint env socket ''/v0/network/nft/list'' s
      else if argAt args 1 = ''rollback'' then postAndPrint env socket ''/v0/network/nft/rollback'' s
      else (UsageText, s))"

text \<open>The program on the arguments that follow its flags.\<close>

definition edrctl :: "'w CtlEnv \<Rightarrow> string \<Rightarrow> string list \<Rightarrow> 'w ctl \<Rightarrow> outcome \<times> 'w ctl" where
  "edrctl env socket args s =
     (let n = length args; cmd = argAt args 0; sub = argAt args 1 in
      if n = 0 then (UsageText, s)
      else if cmd = ''policy'' then policyCommand env socket args s
      else if cmd = ''baseline'' then baselineCommand env args s
      else if cmd = ''status'' then getAndPrint env socket ''/v0/status'' s
      else if cmd = ''metrics'' then
        getAndPrint env socket (if n \<ge> 2 \<and> sub = ''prometheus'' then ''/v0/metrics/prometheus'' else ''/v0/metrics'') s
      else if cmd = ''health'' then getAndPrint env socket ''/v0/health'' s
      else if cmd = ''shutdown'' then (if n \<noteq> 1 then (UsageText, s) else postAndPrint env socket ''/v0/shutdown'' s)
      else if cmd = ''events'' then eventsCommand env socket args s
      else if cmd = ''responses'' then
        (if n \<noteq> 2 \<or> sub \<noteq> ''list'' then (UsageText, s) else getAndPrint env socket ''/v0/responses'' s)
      else if cmd = ''forensics'' then
        (if n \<ge> 2 \<and> sub = ''export'' then postAndPrint env socket (''/v0/forensics/export'' @ queryString (drop 2 args)) s else (UsageText, s))
      else if cmd = ''nft'' then nftCommand env socket args s
      else if cmd = ''process'' then processCommand env socket args s
      else if cmd = ''network'' then networkCommand env socket args s
      else if cmd = ''notify'' then
        (if n < 2 \<or> sub \<noteq> ''test'' then (UsageText, s) else postAndPrint env socket ''/v0/notify/test'' s)
      else if cmd = ''quarantine'' then quarantineCommand env socket args s
      else (UsageText, s))"

section \<open>The agent at the other end\<close>

text \<open>
  The text after the question mark as the server reads it: the parts between ampersands, each a
  name and a value; \<open>unesc\<close> decodes the percent escapes.
\<close>

definition queryPart :: "(string \<Rightarrow> string option) \<Rightarrow> string \<Rightarrow> (string \<times> string) option" where
  "queryPart unesc part =
     (if part = [] \<or> CHR '';'' \<in> set part then None
      else (case (unesc (takeWhile (\<lambda>c. c \<noteq> CHR ''='') part), unesc (drop 1 (dropWhile (\<lambda>c. c \<noteq> CHR ''='') part))) of
              (Some k, Some v) \<Rightarrow> Some (k, v)
            | _ \<Rightarrow> None))"

definition queryOf :: "(string \<Rightarrow> string option) \<Rightarrow> string \<Rightarrow> string \<Rightarrow> string" where
  "queryOf unesc raw k = (case map_of (List.map_filter (queryPart unesc) (splitC (CHR ''&'') raw)) k of Some v \<Rightarrow> v | None \<Rightarrow> [])"

definition urlPath :: "string \<Rightarrow> string" where
  "urlPath url = takeWhile (\<lambda>c. c \<noteq> CHR ''?'') url"

definition urlQuery :: "string \<Rightarrow> string" where
  "urlQuery url = drop 1 (dropWhile (\<lambda>c. c \<noteq> CHR ''?'') url)"

definition requestOf :: "(string \<Rightarrow> string option) \<Rightarrow> peerCred option \<Rightarrow> call \<Rightarrow> string \<times> Request" where
  "requestOf unesc peer c =
     (case c of
        GetCall url \<Rightarrow> (urlPath url, \<lparr>rq_method = ''GET'', rq_query = queryOf unesc (urlQuery url), rq_body = [], rq_peer = peer\<rparr>)
      | PostCall url body \<Rightarrow> (urlPath url, \<lparr>rq_method = ''POST'', rq_query = queryOf unesc (urlQuery url), rq_body = body, rq_peer = peer\<rparr>))"

text \<open>A transport that hands the request to the server; \<open>render\<close> writes the reply.\<close>

definition served :: "SrvEnv \<Rightarrow> ServerOptions \<Rightarrow> (string \<Rightarrow> string option) \<Rightarrow> (reply \<Rightarrow> HttpReply) \<Rightarrow> peerCred option
    \<Rightarrow> string \<Rightarrow> call \<Rightarrow> srv \<Rightarrow> (string + HttpReply) \<times> srv" where
  "served senv opts unesc render peer socket c s =
     (case requestOf unesc peer c of (url, rq) \<Rightarrow> (case serve senv opts url rq s of (r, s') \<Rightarrow> (Inr (render r), s')))"

section \<open>Properties\<close>

lemma SignatureFile_other [simp]: "SignatureFile p \<noteq> p" "p \<noteq> SignatureFile p"
  by (simp_all add: SignatureFile_def)

text \<open>
  Claim C36.  What \<open>edrctl policy sign\<close> signs, \<open>edrctl policy verify-signature\<close> and the agent
  accept.  With a saved signing key and its public half in place, signing prints its result and
  writes only the signature file; the check with the public key then prints that the signature is
  valid, and the agent's check before an installation passes, when Ed25519 is correct.
\<close>

theorem signed_policy_verifies:
  assumes "\<And>seed. length seed = 32 \<Longrightarrow> length (ct_newKey env seed) = 64"
    and "\<And>seed m. length seed = 32 \<Longrightarrow> ct_edVerify env (drop 32 (ct_newKey env seed)) m (ct_edSign env (ct_newKey env seed) m)"
    and "\<And>p. ct_readErr env p = None" "ct_writeErr env = None" "length seed = 32"
    and "fsGet fs key = Some (hexEncode seed @ [nl])" "fsGet fs pol = Some raw"
    and "fsGet fs (agentKey @ ''.pub'') = Some (hexEncode (drop 32 (ct_newKey env seed)) @ [nl])"
    and "agentKey \<noteq> []" "agentKey @ ''.pub'' \<noteq> SignatureFile pol" "sv_edVerify senv = ct_edVerify env" "sv_sigErr senv = None"
  shows "\<exists>fs'. edrctl env sock [''policy'', ''sign'', pol, key] (w, fs)
        = (Printed (''ok: signed '' @ pol @ '' -> '' @ pol @ ''.sig'' @ [nl]), (w, fs'))
    \<and> (\<forall>p. p \<noteq> SignatureFile pol \<longrightarrow> fsGet fs' p = fsGet fs p)
    \<and> edrctl env sock [''policy'', ''verify-signature'', pol, agentKey @ ''.pub''] (w, fs')
        = (Printed (''ok: valid signature for '' @ pol @ [nl]), (w, fs'))
    \<and> verifyPolicySig senv pol agentKey fs' = None"
proof -
  let ?k = "ct_newKey env seed" and ?pub = "drop 32 (ct_newKey env seed)"
  let ?sig = "hexEncode (ct_edSign env ?k raw)"
  let ?fs = "fsPut fs (SignatureFile pol) (?sig @ [nl])"
  have len: "length ?k = 64" by (rule assms(1) [OF assms(5)])
  then have "?k \<noteq> []" by auto
  then have sign: "edrctl env sock [''policy'', ''sign'', pol, key] (w, fs)
      = (Printed (''ok: signed '' @ pol @ '' -> '' @ pol @ ''.sig'' @ [nl]), (w, ?fs))"
    using assms(3-7)
    by (simp add: edrctl_def policyCommand_def policySign_def argAt_def LoadSigningKey_def readKeyFile_def trimString_hex keyOfSeed_def
        Sign_def SignatureFile_def Let_def)
  have pub: "LoadPublicKey None ?fs (agentKey @ ''.pub'') = Inr ?pub"
    using assms(8,10) len by (simp add: LoadPublicKey_def readKeyFile_def trimString_hex)
  have ok: "VerifySignature (ct_edVerify env) ?pub raw (?sig @ [nl]) = Inr True"
    using assms(2) [OF assms(5)] by (simp add: VerifySignature_def trimString_hex)
  have verify: "edrctl env sock [''policy'', ''verify-signature'', pol, agentKey @ ''.pub''] (w, ?fs)
      = (Printed (''ok: valid signature for '' @ pol @ [nl]), (w, ?fs))"
    using assms(3,7) pub ok
    by (simp add: edrctl_def policyCommand_def policyVerify_def argAt_def readKeyFile_def Let_def)
  have "verifyPolicySig senv pol agentKey ?fs = None"
    using assms(7,9,11,12) pub ok by (simp add: verifyPolicySig_def)
  with sign verify show ?thesis by (intro exI [of _ ?fs]) simp
qed

text \<open>Plain text passes the reading of a query unchanged.\<close>

definition plainArg :: "string \<Rightarrow> bool" where
  "plainArg s \<longleftrightarrow> (\<forall>c \<in> set s. c \<notin> set ''&;?=#%+'')"

lemma queryOf_single:
  assumes "plainArg n" "plainArg v" "\<And>t. plainArg t \<Longrightarrow> unesc t = Some t"
  shows "queryOf unesc (n @ ''='' @ v) k = (if k = n then v else [])"
proof -
  have "splitC (CHR ''&'') (n @ ''='' @ v) = [n @ ''='' @ v]"
    using assms(1,2) by (intro splitC_none) (auto simp: plainArg_def)
  moreover have "takeWhile (\<lambda>c. c \<noteq> CHR ''='') (n @ ''='' @ v) = n" "dropWhile (\<lambda>c. c \<noteq> CHR ''='') (n @ ''='' @ v) = ''='' @ v"
    using assms(1) by (auto simp: plainArg_def takeWhile_append dropWhile_append)
  moreover have "CHR '';'' \<notin> set (n @ ''='' @ v)" using assms(1,2) by (auto simp: plainArg_def)
  ultimately show ?thesis
    using assms by (simp add: queryOf_def queryPart_def List.map_filter_def)
qed

lemma queryOf_empty [simp]: "queryOf unesc [] k = []"
  by (simp add: queryOf_def queryPart_def List.map_filter_def)

lemma urlPath_split [simp]:
  assumes "CHR ''?'' \<notin> set p"
  shows "urlPath (p @ ''?'' @ q) = p" "urlQuery (p @ ''?'' @ q) = q" "urlPath p = p" "urlQuery p = []"
proof -
  have "dropWhile (\<lambda>c. c \<noteq> CHR ''?'') p = []" using assms by auto
  then show "urlQuery p = []" unfolding urlQuery_def by (simp only: drop_Nil)
qed (use assms in \<open>auto simp: urlPath_def urlQuery_def takeWhile_append dropWhile_append\<close>)

text \<open>The reload reads one parameter only, \<open>path\<close>.\<close>

lemma reload_query:
  assumes "rq_query rq ''path'' = rq_query rq' ''path''" "rq_peer rq = rq_peer rq'" "rq_method rq = rq_method rq'"
  shows "serve env opts ''/v0/policy/reload'' rq = serve env opts ''/v0/policy/reload'' rq'"
proof -
  have "policyPathOf env opts rq = policyPathOf env opts rq'" using assms(1) by (simp add: policyPathOf_def)
  then show ?thesis using assms(2,3)
    by (simp add: fun_eq_iff serve_def NewServerWithOptions_def requireAuthorized_def requirePost_def handleReload_def split: option.split)
qed

text \<open>
  The file named to \<open>edrctl policy reload\<close> is ignored.  The tool sends it as the
  parameter \<open>version\<close>, which the agent does not read for a reload: with any plain file name the
  command answers and does exactly what it does without one, a reload of the configured policy.
\<close>

theorem reload_argument_ignored:
  assumes "plainArg f" "\<And>t. plainArg t \<Longrightarrow> unesc t = Some t" "ct_ask env = served senv opts unesc render peer"
  shows "edrctl env sock [''policy'', ''reload'', f] s = edrctl env sock [''policy'', ''reload''] s"
proof -
  have u: "''/v0/policy/reload?version='' @ f = ''/v0/policy/reload'' @ ''?'' @ (''version'' @ ''='' @ f)" by simp
  have q: "queryOf unesc (''version'' @ ''='' @ f) ''path'' = []"
    by (subst queryOf_single) (auto simp: assms(1,2), simp add: plainArg_def)
  have r: "requestOf unesc peer (PostCall (''/v0/policy/reload?version='' @ f) [])
      = (''/v0/policy/reload'', \<lparr>rq_method = ''POST'', rq_query = queryOf unesc (''version'' @ ''='' @ f), rq_body = [], rq_peer = peer\<rparr>)"
    "requestOf unesc peer (PostCall ''/v0/policy/reload'' [])
      = (''/v0/policy/reload'', \<lparr>rq_method = ''POST'', rq_query = queryOf unesc [], rq_body = [], rq_peer = peer\<rparr>)"
    unfolding requestOf_def u by (simp_all del: append_Cons append_Nil add: urlPath_split)
  have "served senv opts unesc render peer sock (PostCall (''/v0/policy/reload?version='' @ f) [])
      = served senv opts unesc render peer sock (PostCall ''/v0/policy/reload'' [])"
    unfolding served_def r by (auto simp: fun_eq_iff q [simplified] intro!: arg_cong [of _ _ "case_prod _"] reload_query [THEN fun_cong])
  then show ?thesis
    by (simp add: edrctl_def policyCommand_def argAt_def postAndPrint_def unixPost_def unixPostJSON_def assms(3))
qed

lemma serve_unauthorized:
  assumes "authorize (rq_peer rq) (so_AllowedUIDs opts) = Some e" "url \<noteq> ''/v0/shutdown''"
  shows "\<exists>n err. serve env opts url rq s = (Fail n err, s) \<and> 300 \<le> n"
proof (cases "map_of (NewServerWithOptions env opts) url")
  case (Some f)
  have "f rq s = (Fail 403 (ErrAuth e), s)"
    using routes_checked [OF map_of_SomeD [OF Some] assms(2)] assms(1) unfolding peerChecked_def by blast
  then show ?thesis by (simp add: serve_def Some)
qed (simp add: serve_def)

text \<open>A request of a peer that is not authorized ends in an error and changes nothing.\<close>

lemma unauthorized_calls:
  assumes "authorize peer (so_AllowedUIDs opts) = Some e" "ct_ask env = served senv opts unesc render peer"
    and "\<And>n err. hr_StatusCode (render (Fail n err)) = int n" "urlPath path \<noteq> ''/v0/shutdown''"
  shows "\<exists>err. getAndPrint env sock path s = (Died err, s)" "\<exists>err. postAndPrint env sock path s = (Died err, s)"
    "\<exists>err. postJSONAndPrint env sock path body s = (Died err, s)"
proof -
  have "\<exists>n err. served senv opts unesc render peer sock c (fst s) = (Inr (render (Fail n err)), fst s) \<and> 300 \<le> n"
    if "c = GetCall path \<or> c = PostCall path b" for c b
  proof -
    obtain url rq where rq: "requestOf unesc peer c = (url, rq)" by fastforce
    with that have "url = urlPath path" "rq_peer rq = peer" by (auto simp: requestOf_def)
    with assms(1,4) obtain n err where "serve senv opts url rq (fst s) = (Fail n err, fst s)" "300 \<le> n"
      using serve_unauthorized by metis
    with rq show ?thesis by (intro exI [of _ n] exI [of _ err]) (simp add: served_def)
  qed
  from this [of "GetCall path"] this [of "PostCall path []" "[]"] this [of "PostCall path body" body]
  show "\<exists>err. getAndPrint env sock path s = (Died err, s)" "\<exists>err. postAndPrint env sock path s = (Died err, s)"
    "\<exists>err. postJSONAndPrint env sock path body s = (Died err, s)"
    by (auto simp: getAndPrint_def unixGet_def postAndPrint_def unixPost_def postJSONAndPrint_def unixPostJSON_def assms(2,3) printReply_def)
qed

definition localCommand :: "string list \<Rightarrow> bool" where
  "localCommand args \<longleftrightarrow> argAt args 0 = ''baseline''
     \<or> argAt args 0 = ''policy'' \<and> argAt args 1 \<in> set [''validate'', ''sign'', ''verify-signature'']"


section \<open>A small installation\<close>

text \<open>Keys as in the small server: the signature is the public key followed by the text.\<close>

definition demoRender :: "reply \<Rightarrow> HttpReply" where
  "demoRender r = (case r of Reply b \<Rightarrow> \<lparr>hr_StatusCode = 200, hr_Status = ''200 OK'', hr_Body = ([], None)\<rparr>
     | Fail n e \<Rightarrow> \<lparr>hr_StatusCode = int n, hr_Status = ''error'', hr_Body = ([], None)\<rparr>)"

definition demoCtl :: "peerCred option \<Rightarrow> srv CtlEnv" where
  "demoCtl peer = \<lparr>ct_ask = served (demoSrv ''2'') demoSrvOpts Some demoRender peer, ct_decodePolicy = (\<lambda>_. Some samplePolicy),
     ct_newKey = (\<lambda>seed. seed @ seed), ct_edSign = (\<lambda>k m. drop 32 k @ m), ct_edVerify = (\<lambda>pub m sig. sig = pub @ m),
     ct_readErr = (\<lambda>_. None), ct_writeErr = None, ct_decodeTemplate = Map.empty, ct_readBaseline = (\<lambda>_. Inl ''missing''),
     ct_statPerm = (\<lambda>_. Inl ''missing''), ct_json = (\<lambda>_. [])\<rparr>"

theorem signed_policy_verifies_witness:
  "\<exists>fs'. edrctl (demoCtl None) ''s'' [''policy'', ''verify-signature'', ''/p'', ''/k.pub''] (demoSrvState True, fs')
      = (Printed (''ok: valid signature for /p'' @ [nl]), (demoSrvState True, fs'))
    \<and> verifyPolicySig (demoSrv ''2'') ''/p'' ''/k'' fs' = None"
proof -
  let ?fs = "[(''/seed'', hexEncode demoPub @ [nl]), (''/p'', ''new''), (''/k.pub'', hexEncode demoPub @ [nl])]"
  have "\<exists>fs'. edrctl (demoCtl None) ''s'' [''policy'', ''sign'', ''/p'', ''/seed''] (demoSrvState True, ?fs)
        = (Printed (''ok: signed '' @ ''/p'' @ '' -> '' @ ''/p'' @ ''.sig'' @ [nl]), (demoSrvState True, fs'))
    \<and> (\<forall>p. p \<noteq> SignatureFile ''/p'' \<longrightarrow> fsGet fs' p = fsGet ?fs p)
    \<and> edrctl (demoCtl None) ''s'' [''policy'', ''verify-signature'', ''/p'', ''/k'' @ ''.pub''] (demoSrvState True, fs')
        = (Printed (''ok: valid signature for '' @ ''/p'' @ [nl]), (demoSrvState True, fs'))
    \<and> verifyPolicySig (demoSrv ''2'') ''/p'' ''/k'' fs' = None"
    by (rule signed_policy_verifies [of _ demoPub _ _ _ "''new''"])
      (simp_all add: demoCtl_def demoSrv_def demoPub_def SignatureFile_def fsGet_def del: hexEncode.simps)
  then show ?thesis by auto
qed

theorem reload_argument_ignored_witness:
  "edrctl (demoCtl (Some rootPeer)) ''s'' [''policy'', ''reload'', ''/tmp/p''] (demoSrvState True, [])
     = edrctl (demoCtl (Some rootPeer)) ''s'' [''policy'', ''reload''] (demoSrvState True, [])"
  by (rule reload_argument_ignored [of _ Some _ "demoSrv ''2''" demoSrvOpts demoRender "Some rootPeer"])
    (simp_all add: plainArg_def demoCtl_def)


end
