(* ===== verification/Notify.thy ===== *)
theory Notify
  imports EventLog Suppress Channel
begin

text \<open>
  The notifications of \<open>internal/notify\<close>: \<open>webhook.go\<close>, a bounded queue, the goroutine that empties
  it and the goroutines it starts, one for each endpoint and event; \<open>email.go\<close>, the message and
  its delivery.  The JSON encoder, HTTP, the template engine and SMTP are arguments.
\<close>

section \<open>Events and endpoints\<close>

record WebhookConfig =
  wh_URL :: string
  wh_Headers :: "(string \<times> string) list"
  wh_TimeoutSec :: int
  wh_Format :: string
  wh_MinSeverity :: string

record WebhookEvent =
  we_RuleID :: string
  we_Severity :: string
  we_Category :: string
  we_Decision :: string
  we_Action :: string
  we_Subject :: gomap
  we_Object :: gomap
  we_Timestamp :: gotime
  we_Host :: string

record webhookClient =
  cl_cfg :: WebhookConfig
  cl_Timeout :: int

datatype loop_state = NoLoop | Looping | Draining | Ended

text \<open>The sends that are under way have been started as goroutines of their own.\<close>

record WebhookDispatcher =
  wd_clients :: "webhookClient list"
  wd_queue :: "WebhookEvent list"
  wd_done :: bool
  wd_loop :: loop_state
  wd_sends :: "(webhookClient \<times> WebhookEvent) list"

definition queueSize :: nat where "queueSize = 256"

definition newClient :: "WebhookConfig \<Rightarrow> webhookClient" where
  "newClient cfg = \<lparr>cl_cfg = cfg, cl_Timeout = sint (word_of_int ((if wh_TimeoutSec cfg \<le> 0 then 10 else wh_TimeoutSec cfg) * second) :: 64 word)\<rparr>"

definition NewWebhookDispatcher :: "WebhookConfig list \<Rightarrow> WebhookDispatcher" where
  "NewWebhookDispatcher cfgs =
     (let clients = map newClient (filter (\<lambda>cfg. wh_URL cfg \<noteq> []) cfgs) in
      \<lparr>wd_clients = clients, wd_queue = [], wd_done = False, wd_loop = (if clients \<noteq> [] then Looping else NoLoop), wd_sends = []\<rparr>)"

text \<open>A full queue drops the event.\<close>

definition Dispatch :: "WebhookEvent \<Rightarrow> WebhookDispatcher \<Rightarrow> WebhookDispatcher" where
  "Dispatch ev d = (if length (wd_queue d) < queueSize then d\<lparr>wd_queue := wd_queue d @ [ev]\<rparr> else d)"

interpretation hooks: lossy_channel "\<lambda>d ev. Dispatch ev d" wd_queue queueSize
  by unfold_locales (simp_all add: Dispatch_def)

lemma Dispatch_frame [frame]: "wd_clients (Dispatch ev d) = wd_clients d" "wd_sends (Dispatch ev d) = wd_sends d"
  "wd_loop (Dispatch ev d) = wd_loop d" "wd_done (Dispatch ev d) = wd_done d"
  by (simp_all add: Dispatch_def)

text \<open>The start of \<open>Stop\<close>; closing the channel again panics.  The wait that follows ends when the loop has ended.\<close>

definition Stop :: "WebhookDispatcher \<Rightarrow> WebhookDispatcher option" where
  "Stop d = (if wd_done d then None else Some (d\<lparr>wd_done := True\<rparr>))"

definition stopReturns :: "WebhookDispatcher \<Rightarrow> bool" where
  "stopReturns d \<longleftrightarrow> wd_loop d \<in> {NoLoop, Ended}"

section \<open>Severities\<close>

definition severityOrder :: "string \<Rightarrow> int" where
  "severityOrder s =
     (if s = ''low'' then 1 else if s = ''medium'' then 2 else if s = ''high'' then 3 else if s = ''critical'' then 4 else 0)"

definition shouldNotify :: "string \<Rightarrow> string \<Rightarrow> bool" where
  "shouldNotify eventSeverity minSeverity =
     (if minSeverity = [] then True else severityOrder eventSeverity \<ge> severityOrder minSeverity)"

text \<open>The marks in UTF-8.\<close>

definition severityEmoji :: "string \<Rightarrow> string" where
  "severityEmoji s =
     (if s = ''critical'' then [CHR 0xF0, CHR 0x9F, CHR 0x94, CHR 0xB4]
      else if s = ''high'' then [CHR 0xF0, CHR 0x9F, CHR 0x9F, CHR 0xA0]
      else if s = ''medium'' then [CHR 0xF0, CHR 0x9F, CHR 0x9F, CHR 0xA1]
      else if s = ''low'' then [CHR 0xF0, CHR 0x9F, CHR 0x9F, CHR 0xA2]
      else [CHR 0xE2, CHR 0x9A, CHR 0xAA])"

section \<open>The loop\<close>

definition sendToAll :: "WebhookEvent \<Rightarrow> WebhookDispatcher \<Rightarrow> WebhookDispatcher" where
  "sendToAll ev d =
     d\<lparr>wd_sends := wd_sends d @ map (\<lambda>c. (c, ev)) (filter (\<lambda>c. shouldNotify (we_Severity ev) (wh_MinSeverity (cl_cfg c))) (wd_clients d))\<rparr>"

text \<open>The steps of \<open>dispatchLoop\<close>: when both channels are ready either may be taken.\<close>

inductive loopStep :: "WebhookDispatcher \<Rightarrow> WebhookDispatcher \<Rightarrow> bool" where
  receive: "wd_loop d = Looping \<Longrightarrow> wd_queue d = ev # q \<Longrightarrow> loopStep d (sendToAll ev (d\<lparr>wd_queue := q\<rparr>))"
| notice: "wd_loop d = Looping \<Longrightarrow> wd_done d \<Longrightarrow> loopStep d (d\<lparr>wd_loop := Draining\<rparr>)"
| drain: "wd_loop d = Draining \<Longrightarrow> wd_queue d = ev # q \<Longrightarrow> loopStep d (sendToAll ev (d\<lparr>wd_queue := q\<rparr>))"
| finish: "wd_loop d = Draining \<Longrightarrow> wd_queue d = [] \<Longrightarrow> loopStep d (d\<lparr>wd_loop := Ended\<rparr>)"

inductive_cases loopStepE: "loopStep d d'"

section \<open>Payloads\<close>

text \<open>The libraries: the encoder of JSON, the text of a time and of a value, the name of a header, the two steps of a request.\<close>

record NotifyEnv =
  nt_json :: "anyv \<Rightarrow> string option"
  nt_rfc3339 :: "gotime \<Rightarrow> string"
  nt_fmtV :: "anyv \<Rightarrow> string"
  nt_canon :: "string \<Rightarrow> string"
  nt_newRequest :: "string \<Rightarrow> string option"
  nt_do :: "string \<Rightarrow> (string \<times> string) list \<Rightarrow> string \<Rightarrow> int \<Rightarrow> string + int"

definition marshal :: "NotifyEnv \<Rightarrow> anyv \<Rightarrow> string" where
  "marshal env v = (case nt_json env v of Some s \<Rightarrow> s | None \<Rightarrow> [])"

definition omitEmptyMap :: "string \<Rightarrow> gomap \<Rightarrow> (string \<times> anyv) list" where
  "omitEmptyMap k m = (case m of Some (x # xs) \<Rightarrow> [(k, VStruct (x # xs))] | _ \<Rightarrow> [])"

definition eventPayload :: "WebhookEvent \<Rightarrow> anyv" where
  "eventPayload ev = VStruct
     ([(''rule_id'', VStr (we_RuleID ev)), (''severity'', VStr (we_Severity ev)), (''category'', VStr (we_Category ev)),
       (''decision'', VStr (we_Decision ev))]
      @ (if we_Action ev = [] then [] else [(''action'', VStr (we_Action ev))])
      @ omitEmptyMap ''subject'' (we_Subject ev) @ omitEmptyMap ''object'' (we_Object ev)
      @ [(''timestamp'', VTime (we_Timestamp ev)), (''host'', VStr (we_Host ev))])"

definition formatDingTalk :: "NotifyEnv \<Rightarrow> WebhookEvent \<Rightarrow> string" where
  "formatDingTalk env ev =
     (let msg = severityEmoji (we_Severity ev) @ '' **EDR Alert** ['' @ we_RuleID ev @ '']'' @ [nl, nl]
            @ ''- **Rule**: '' @ we_RuleID ev @ [nl] @ ''- **Severity**: '' @ we_Severity ev @ [nl]
            @ ''- **Category**: '' @ we_Category ev @ [nl] @ ''- **Decision**: '' @ we_Decision ev @ [nl]
            @ ''- **Host**: '' @ we_Host ev @ [nl] @ ''- **Time**: '' @ nt_rfc3339 env (we_Timestamp ev);
          msg = (case lookupAny (we_Subject ev) ''process_name'' of
                   Some name \<Rightarrow> msg @ [nl] @ ''- **Process**: '' @ nt_fmtV env name
                 | None \<Rightarrow> msg)
      in marshal env (VStruct
           [(''msgtype'', VStr ''markdown''),
            (''markdown'', VStruct [(''title'', VStr (''EDR ['' @ we_Severity ev @ ''] '' @ we_RuleID ev)), (''text'', VStr msg)])]))"

definition formatWeChatWork :: "NotifyEnv \<Rightarrow> WebhookEvent \<Rightarrow> string" where
  "formatWeChatWork env ev =
     (let msg = severityEmoji (we_Severity ev) @ '' EDR Alert ['' @ we_RuleID ev @ '']'' @ [nl]
            @ ''> Rule: '' @ we_RuleID ev @ [nl] @ ''> Severity: '' @ we_Severity ev @ [nl]
            @ ''> Category: '' @ we_Category ev @ [nl] @ ''> Decision: '' @ we_Decision ev @ [nl]
            @ ''> Host: '' @ we_Host ev @ [nl] @ ''> Time: '' @ nt_rfc3339 env (we_Timestamp ev)
      in marshal env (VStruct [(''msgtype'', VStr ''markdown''), (''markdown'', VStruct [(''content'', VStr msg)])]))"

definition formatFeishu :: "NotifyEnv \<Rightarrow> WebhookEvent \<Rightarrow> string" where
  "formatFeishu env ev =
     (let title = severityEmoji (we_Severity ev) @ '' EDR Alert ['' @ we_Severity ev @ '']'';
          content = ''**Rule**: '' @ we_RuleID ev @ [nl] @ ''**Category**: '' @ we_Category ev @ [nl]
            @ ''**Decision**: '' @ we_Decision ev @ [nl] @ ''**Host**: '' @ we_Host ev @ [nl]
            @ ''**Time**: '' @ nt_rfc3339 env (we_Timestamp ev)
      in marshal env (VStruct
           [(''msg_type'', VStr ''interactive''),
            (''card'', VStruct
               [(''header'', VStruct [(''title'', VStruct [(''tag'', VStr ''plain_text''), (''content'', VStr title)])]),
                (''elements'', VList [VStruct [(''tag'', VStr ''markdown''), (''content'', VStr content)]])])]))"

definition formatPayload :: "NotifyEnv \<Rightarrow> string \<Rightarrow> WebhookEvent \<Rightarrow> string" where
  "formatPayload env format ev =
     (if format = ''dingtalk'' then formatDingTalk env ev
      else if format = ''wechat_work'' then formatWeChatWork env ev
      else if format = ''feishu'' then formatFeishu env ev
      else marshal env (eventPayload ev))"

section \<open>Sending\<close>

text \<open>\<open>strings.Index\<close>.\<close>

fun strIndex :: "string \<Rightarrow> string \<Rightarrow> nat option" where
  "strIndex sub [] = (if sub = [] then Some 0 else None)"
| "strIndex sub (c # cs) = (if hasPrefix (c # cs) sub then Some 0 else map_option Suc (strIndex sub cs))"

definition redactURL :: "string \<Rightarrow> string" where
  "redactURL url =
     (case strIndex ''access_token='' url of
        Some i \<Rightarrow> take (i + 13) url @ ''***''
      | None \<Rightarrow> (case strIndex ''key='' url of Some i \<Rightarrow> take (i + 4) url @ ''***'' | None \<Rightarrow> url))"

definition setHeader :: "NotifyEnv \<Rightarrow> string \<times> string \<Rightarrow> (string \<times> string) list \<Rightarrow> (string \<times> string) list" where
  "setHeader env kv hs = filter (\<lambda>(k, v). k \<noteq> nt_canon env (fst kv)) hs @ [(nt_canon env (fst kv), snd kv)]"

text \<open>What is reported on the standard error, if anything.\<close>

definition sendOne :: "NotifyEnv \<Rightarrow> webhookClient \<Rightarrow> WebhookEvent \<Rightarrow> string option" where
  "sendOne env c ev =
     (let cfg = cl_cfg c; body = formatPayload env (wh_Format cfg) ev in
      case nt_newRequest env (wh_URL cfg) of
        Some e \<Rightarrow> Some (''webhook: new request: '' @ e)
      | None \<Rightarrow>
          (let hs = fold (setHeader env) (wh_Headers cfg) (setHeader env (''Content-Type'', ''application/json'') []) in
           case nt_do env (wh_URL cfg) hs body (cl_Timeout c) of
             Inl e \<Rightarrow> Some (''webhook: post '' @ redactURL (wh_URL cfg) @ '': '' @ e)
           | Inr status \<Rightarrow>
               if status \<ge> 400 then Some (''webhook: post '' @ redactURL (wh_URL cfg) @ '': status '' @ itoa status) else None))"

section \<open>Mail\<close>

record EmailConfig =
  em_Enabled :: bool
  em_SMTPHost :: string
  em_SMTPPort :: int
  em_Username :: string
  em_Password :: string
  em_From :: string
  em_To :: "string list"
  em_UseTLS :: bool
  em_MinSeverity :: string

record Mail =
  ml_addr :: string
  ml_auth :: "(string \<times> string \<times> string) option"  \<comment> \<open>user, password, host\<close>
  ml_from :: string
  ml_to :: "string list"
  ml_msg :: string

definition upperC :: "char \<Rightarrow> char" where
  "upperC c = (let n = (of_char c :: nat) in if 97 \<le> n \<and> n \<le> 122 then char_of (n - 32) else c)"

definition toUpper :: "string \<Rightarrow> string" where
  "toUpper s = map upperC s"

text \<open>The host of \<open>net.SplitHostPort\<close>, empty on an error.\<close>

definition hostOf :: "string \<Rightarrow> string" where
  "hostOf hp =
     (case lastIndexC (CHR '':'') hp of
        None \<Rightarrow> []
      | Some i \<Rightarrow>
          if hd hp = CHR ''['' then
            (let host = takeWhile (\<lambda>c. c \<noteq> CHR '']'') (tl hp); close = length host + 1 in
             if close + 1 = i \<and> close < length hp \<and> CHR ''['' \<notin> set (tl hp) \<and> CHR '']'' \<notin> set (drop (close + 1) hp) then host else [])
          else
            (let host = take i hp in
             if CHR '':'' \<in> set host \<or> CHR ''['' \<in> set hp \<or> CHR '']'' \<in> set hp then [] else host))"

definition crlf :: string where "crlf = [cr, nl]"

definition mailSubject :: "WebhookEvent \<Rightarrow> string" where
  "mailSubject ev = ''[EDR '' @ toUpper (we_Severity ev) @ ''] '' @ we_RuleID ev @ '' '' @ [CHR 0xE2, CHR 0x80, CHR 0x94] @ '' '' @ we_Host ev"

definition mailText :: "EmailConfig \<Rightarrow> string \<Rightarrow> WebhookEvent \<Rightarrow> string" where
  "mailText cfg htmlBody ev =
     ''From: '' @ em_From cfg @ crlf @ ''To: '' @ joinS '','' (em_To cfg) @ crlf @ ''Subject: '' @ mailSubject ev @ crlf
     @ ''MIME-Version: 1.0'' @ crlf @ ''Content-Type: text/html; charset=\"UTF-8\"'' @ crlf @ crlf @ htmlBody"

definition sendMail :: "(Mail \<Rightarrow> string option) \<Rightarrow> EmailConfig \<Rightarrow> string \<Rightarrow> WebhookEvent \<Rightarrow> string option \<times> Mail" where
  "sendMail smtp cfg htmlBody ev =
     (let port = (if em_SMTPPort cfg \<le> 0 then 587 else em_SMTPPort cfg);
          addr = em_SMTPHost cfg @ '':'' @ itoa port;
          auth = (if em_Username cfg \<noteq> [] then Some (em_Username cfg, em_Password cfg, hostOf addr) else None);
          mail = \<lparr>ml_addr = addr, ml_auth = auth, ml_from = em_From cfg, ml_to = em_To cfg, ml_msg = mailText cfg htmlBody ev\<rparr>
      in (smtp mail, mail))"

definition EmailDispatch :: "(WebhookEvent \<Rightarrow> string + string) \<Rightarrow> (Mail \<Rightarrow> string option) \<Rightarrow> EmailConfig \<Rightarrow> WebhookEvent
    \<Rightarrow> string option \<times> Mail option" where
  "EmailDispatch tmpl smtp cfg ev =
     (if \<not> em_Enabled cfg then (None, None)
      else if \<not> shouldNotify (we_Severity ev) (em_MinSeverity cfg) then (None, None)
      else (case tmpl ev of
              Inl e \<Rightarrow> (Some (''template: '' @ e), None)
            | Inr body \<Rightarrow> (case sendMail smtp cfg body ev of (err, mail) \<Rightarrow> (err, Some mail))))"

section \<open>Delivery\<close>

text \<open>
  All interleavings of the callers of \<open>Dispatch\<close> and \<open>Stop\<close>, the loop and the sends, with what the
  queue has accepted and what the loop has taken from it.
\<close>

inductive notifyStep :: "WebhookDispatcher \<times> WebhookEvent list \<times> WebhookEvent list \<Rightarrow> WebhookDispatcher \<times> WebhookEvent list \<times> WebhookEvent list \<Rightarrow> bool" where
  accept: "length (wd_queue d) < queueSize \<Longrightarrow> notifyStep (d, acc, han) (Dispatch ev d, acc @ [ev], han)"
| drop: "\<not> length (wd_queue d) < queueSize \<Longrightarrow> notifyStep (d, acc, han) (Dispatch ev d, acc, han)"
| stop: "Stop d = Some d' \<Longrightarrow> notifyStep (d, acc, han) (d', acc, han)"
| loop: "loopStep d d' \<Longrightarrow> notifyStep (d, acc, han) (d', acc, han @ (if length (wd_queue d') < length (wd_queue d) then [hd (wd_queue d)] else []))"
| sent: "wd_sends d = as @ (c, ev) # bs \<Longrightarrow> notifyStep (d, acc, han) (d\<lparr>wd_sends := as @ bs\<rparr>, acc, han)"

definition chosen :: "webhookClient list \<Rightarrow> WebhookEvent \<Rightarrow> (webhookClient \<times> WebhookEvent) list" where
  "chosen clients ev = map (\<lambda>c. (c, ev)) (filter (\<lambda>c. shouldNotify (we_Severity ev) (wh_MinSeverity (cl_cfg c))) clients)"

definition queueInv :: "webhookClient list \<Rightarrow> WebhookDispatcher \<times> WebhookEvent list \<times> WebhookEvent list \<Rightarrow> bool" where
  "queueInv clients s = (case s of (d, acc, han) \<Rightarrow>
     wd_clients d = clients \<and> acc = han @ wd_queue d \<and> length (wd_queue d) \<le> queueSize
     \<and> subseq (wd_sends d) (concat (map (chosen clients) han)) \<and> (clients = [] \<longrightarrow> wd_loop d = NoLoop)
     \<and> (wd_loop d \<in> {Draining, Ended} \<longrightarrow> wd_done d))"

lemma subseq_delete: "subseq (as @ bs) (as @ x # bs)"
  by (rule list_emb_append_mono) auto

lemma subseq_set_mono: "subseq xs ys \<Longrightarrow> set xs \<subseteq> set ys"
  by (induction rule: list_emb.induct) auto

lemma loopStep_inv:
  "loopStep d d' \<Longrightarrow> queueInv clients (d, acc, han) \<Longrightarrow>
     queueInv clients (d', acc, han @ (if length (wd_queue d') < length (wd_queue d) then [hd (wd_queue d)] else []))"
  by (cases rule: loopStep.cases) (auto simp: queueInv_def sendToAll_def chosen_def intro: list_emb_append_mono)

lemma notifyStep_inv: "notifyStep s s' \<Longrightarrow> queueInv clients s \<Longrightarrow> queueInv clients s'"
proof (induction rule: notifyStep.induct)
  case (loop d d' acc han)
  then show ?case by (rule loopStep_inv)
next
  case (sent d as c ev bs acc han)
  with subseq_delete [of as bs "(c, ev)"] show ?case
    by (auto simp: queueInv_def intro: subseq_order.order_trans)
next
  case (accept d acc han ev)
  with hooks.give_bounded [of d ev] show ?case by (auto simp: queueInv_def frame hooks.give_room)
next
  case (drop d acc han ev)
  then show ?case by (simp add: Dispatch_def)
qed (auto simp: queueInv_def Stop_def split: if_splits)

lemma started_inv: "queueInv (wd_clients (NewWebhookDispatcher cfgs)) (NewWebhookDispatcher cfgs, [], [])"
  by (simp add: queueInv_def NewWebhookDispatcher_def Let_def)

text \<open>
  Claim C38.  Events keep their order and no one is bothered who did not ask.  However callers,
  the loop, the sends and a stop interleave, the queue never holds more than 256 events; the
  loop takes the accepted events in their order, each once; and a send under way is for an event the loop has taken and an
  endpoint whose least severity the event reaches.  Without endpoints nothing is ever taken.
\<close>

theorem webhook_queue_in_order:
  assumes "notifyStep\<^sup>*\<^sup>* (NewWebhookDispatcher cfgs, [], []) (d, acc, han)"
  shows "acc = han @ wd_queue d \<and> length (wd_queue d) \<le> 256
    \<and> (\<forall>(c, ev) \<in> set (wd_sends d). ev \<in> set han \<and> cl_cfg c \<in> set cfgs \<and> wh_URL (cl_cfg c) \<noteq> []
         \<and> (wh_MinSeverity (cl_cfg c) = [] \<or> severityOrder (wh_MinSeverity (cl_cfg c)) \<le> severityOrder (we_Severity ev)))
    \<and> (wd_loop d = Ended \<longrightarrow> wd_done d)"
proof -
  let ?cl = "wd_clients (NewWebhookDispatcher cfgs)"
  from assms have inv: "queueInv ?cl (d, acc, han)"
    by (rule rtranclp_induct) (use started_inv notifyStep_inv in auto)
  have "cl_cfg c \<in> set cfgs \<and> wh_URL (cl_cfg c) \<noteq> []" if "c \<in> set ?cl" for c
    using that by (auto simp: NewWebhookDispatcher_def newClient_def Let_def)
  moreover have "set (wd_sends d) \<subseteq> set (concat (map (chosen ?cl) han))"
    using inv subseq_set_mono unfolding queueInv_def by blast
  ultimately have "\<forall>(c, ev) \<in> set (wd_sends d). ev \<in> set han \<and> cl_cfg c \<in> set cfgs \<and> wh_URL (cl_cfg c) \<noteq> []
      \<and> (wh_MinSeverity (cl_cfg c) = [] \<or> severityOrder (wh_MinSeverity (cl_cfg c)) \<le> severityOrder (we_Severity ev))"
    by (auto simp: chosen_def shouldNotify_def split: if_splits)
  with inv show ?thesis by (simp add: queueInv_def queueSize_def)
qed

text \<open>The work the loop has left once it was told to stop.\<close>

definition loopWork :: "WebhookDispatcher \<Rightarrow> nat" where
  "loopWork d = length (wd_queue d) + (case wd_loop d of Looping \<Rightarrow> 2 | Draining \<Rightarrow> 1 | _ \<Rightarrow> 0)"

lemma loopStep_work: "loopStep d d' \<Longrightarrow> loopWork d' < loopWork d"
  by (induction rule: loopStep.induct) (auto simp: loopWork_def sendToAll_def split: loop_state.splits)

lemma loop_progress: "wd_loop d \<in> {Looping, Draining} \<Longrightarrow> wd_done d \<Longrightarrow> \<exists>d'. loopStep d d'"
  by (cases "wd_queue d") (auto intro: loopStep.intros)

definition pendingInv :: "WebhookDispatcher \<Rightarrow> (webhookClient \<times> WebhookEvent) list \<Rightarrow> bool" where
  "pendingInv d planned \<longleftrightarrow> wd_sends d @ concat (map (chosen (wd_clients d)) (wd_queue d)) = planned \<and> wd_done d
     \<and> (wd_loop d = Ended \<longrightarrow> wd_queue d = []) \<and> wd_loop d \<noteq> NoLoop"

lemma loopStep_pending: "loopStep d d' \<Longrightarrow> pendingInv d planned \<Longrightarrow> pendingInv d' planned"
  by (induction rule: loopStep.induct) (auto simp: pendingInv_def sendToAll_def chosen_def)

text \<open>
  Claim C39.  The loop ends after a stop.  From the moment \<open>done\<close> is closed, when no more events
  are handed in, the loop makes at most as many steps as there are queued events and two more;
  and wherever it can make no further step it has ended with an empty queue and has started a
  send for every queued event and every endpoint that asks for it.
\<close>

theorem webhook_loop_ends:
  assumes "(loopStep ^^ n) d d'" "wd_done d" "wd_loop d = Looping"
  shows "n \<le> length (wd_queue d) + 2
    \<and> ((\<nexists>d''. loopStep d' d'') \<longrightarrow> stopReturns d' \<and> wd_queue d' = []
         \<and> wd_sends d' = wd_sends d @ concat (map (chosen (wd_clients d)) (wd_queue d)))"
proof -
  have "n + loopWork d' \<le> loopWork d"
    using assms(1) by (induction n arbitrary: d') (auto dest!: loopStep_work, fastforce dest: loopStep_work)
  then have "n \<le> length (wd_queue d) + 2" using assms(3) by (simp add: loopWork_def)
  moreover have "pendingInv d' (wd_sends d @ concat (map (chosen (wd_clients d)) (wd_queue d)))"
    using assms(1) by (induction n arbitrary: d') (use assms(2,3) in \<open>auto simp: pendingInv_def [of d] intro: loopStep_pending\<close>)
  then have "(\<nexists>d''. loopStep d' d'') \<longrightarrow> stopReturns d' \<and> wd_queue d' = []
      \<and> wd_sends d' = wd_sends d @ concat (map (chosen (wd_clients d)) (wd_queue d))"
    using loop_progress [of d'] by (cases "wd_loop d'") (auto simp: pendingInv_def stopReturns_def)
  ultimately show ?thesis by blast
qed

section \<open>Secrets and mail\<close>

lemma prefix_before: "length p \<le> length u \<Longrightarrow> prefix p (u @ s) \<longleftrightarrow> prefix p u"
  by (auto simp: prefix_def append_eq_append_conv2)

lemma strIndex_start: "strIndex sub (sub @ t) = Some 0"
  by (cases "sub @ t") (auto simp: hasPrefix_def prefix_def intro: exI [of _ t])

lemma strIndex_before:
  "\<exists>i \<le> length a. strIndex sub (a @ sub @ s) = Some i \<and> (\<forall>t. strIndex sub (a @ sub @ t) = Some i)"
proof (induction a)
  case Nil
  then show ?case using strIndex_start by simp
next
  case (Cons c a)
  have "hasPrefix (c # a @ sub @ t) sub \<longleftrightarrow> prefix sub (c # a @ sub)" for t
    using prefix_before [of sub "c # a @ sub" t] by (simp add: hasPrefix_def)
  with Cons show ?case by auto
qed

text \<open>
  A token is never reported.  Whatever follows \<open>access_token=\<close> in the address of an
  endpoint has no influence on what a failed request reports of the address; but the value of
  \<open>key=\<close> is shown when an access token comes after it.
\<close>

theorem access_token_redacted:
  "redactURL (a @ ''access_token='' @ s) = redactURL (a @ ''access_token='' @ t)
   \<and> redactURL ''https://h/?key=K1&access_token=T'' \<noteq> redactURL ''https://h/?key=K2&access_token=T''"
proof
  obtain i where i: "i \<le> length a" "\<And>t. strIndex ''access_token='' (a @ ''access_token='' @ t) = Some i"
    using strIndex_before [of a "''access_token=''" s] by metis
  have "take (i + 13) ((a @ ''access_token='') @ t) = take (i + 13) (a @ ''access_token='')" for t
    unfolding take_append [of _ "a @ ''access_token=''"] using i(1) by simp
  then show "redactURL (a @ ''access_token='' @ s) = redactURL (a @ ''access_token='' @ t)"
    unfolding redactURL_def i(2) option.case append_assoc by metis
qed (simp add: redactURL_def hasPrefix_def)

lemma nl_char: "nl = CHR 0x0A"
  by (simp add: gostr)

lemma joinS_set: "x \<in> set (joinS sep xs) \<Longrightarrow> x \<in> set sep \<or> (\<exists>s \<in> set xs. x \<in> set s)"
  by (induction sep xs rule: joinS.induct) auto

lemma splitC_headers:
  assumes "t = concat (map (\<lambda>l. l @ crlf) hs) @ s" "\<forall>l \<in> set hs. nl \<notin> set l"
  shows "splitC nl t = map (\<lambda>l. l @ [cr]) hs @ splitC nl s"
  unfolding assms(1) using assms(2)
proof (induction hs)
  case (Cons l hs)
  then have "nl \<notin> set (l @ [cr])" by (auto simp: gostr)
  from splitC_line [OF this] Cons show ?case by (simp add: crlf_def)
qed simp

text \<open>
  The mail is read as it was meant.  When no field holds a line break, the lines of
  the message are the five headers, an empty line and the body, whatever the body contains.
\<close>

theorem mail_headers_intact:
  assumes "nl \<notin> set (em_From cfg)" "\<forall>r \<in> set (em_To cfg). nl \<notin> set r"
    and "nl \<notin> set (we_Severity ev)" "nl \<notin> set (we_RuleID ev)" "nl \<notin> set (we_Host ev)"
  shows "splitC nl (mailText cfg body ev) =
    [''From: '' @ em_From cfg @ [cr], ''To: '' @ joinS '','' (em_To cfg) @ [cr], ''Subject: '' @ mailSubject ev @ [cr],
     ''MIME-Version: 1.0'' @ [cr], ''Content-Type: text/html; charset=\"UTF-8\"'' @ [cr], [cr]] @ splitC nl body"
proof -
  have "nl \<notin> set (joinS '','' (em_To cfg))" using assms(2)
    by (auto simp: nl_char dest!: joinS_set)
  moreover have "upperC c \<noteq> nl" if "c \<noteq> nl" for c
  proof (cases "97 \<le> (of_char c :: nat) \<and> (of_char c :: nat) \<le> 122")
    case True
    then have "of_char (char_of (of_char c - 32 :: nat)) \<noteq> (10 :: nat)" by auto
    with True show ?thesis by (auto simp: upperC_def Let_def nl_def)
  qed (use that in \<open>auto simp: upperC_def Let_def\<close>)
  then have "nl \<notin> set (toUpper (we_Severity ev))" using assms(3) unfolding toUpper_def set_map image_iff by metis
  then have "nl \<notin> set (mailSubject ev)" using assms(4,5) by (auto simp: mailSubject_def nl_char)
  ultimately have h: "nl \<notin> set (''From: '' @ em_From cfg)" "nl \<notin> set (''To: '' @ joinS '','' (em_To cfg))"
    "nl \<notin> set (''Subject: '' @ mailSubject ev)" "nl \<notin> set ''MIME-Version: 1.0''"
    "nl \<notin> set ''Content-Type: text/html; charset=\"UTF-8\"''" "nl \<notin> set []"
    using assms(1) by (simp_all add: nl_char)
  have "mailText cfg body ev = concat (map (\<lambda>l. l @ crlf) [''From: '' @ em_From cfg, ''To: '' @ joinS '','' (em_To cfg),
      ''Subject: '' @ mailSubject ev, ''MIME-Version: 1.0'', ''Content-Type: text/html; charset=\"UTF-8\"'', []]) @ body"
    by (simp add: mailText_def)
  from splitC_headers [OF this] h show ?thesis by simp
qed

section \<open>A small dispatcher\<close>

definition demoHook :: WebhookConfig where
  "demoHook = \<lparr>wh_URL = ''https://h'', wh_Headers = [], wh_TimeoutSec = 0, wh_Format = ''feishu'', wh_MinSeverity = ''high''\<rparr>"

definition demoAlert :: WebhookEvent where
  "demoAlert = \<lparr>we_RuleID = ''r'', we_Severity = ''critical'', we_Category = ''process'', we_Decision = ''block'', we_Action = ''kill'',
     we_Subject = None, we_Object = None, we_Timestamp = 0, we_Host = ''h''\<rparr>"

definition demoHooks :: WebhookDispatcher where
  "demoHooks = Dispatch demoAlert (NewWebhookDispatcher [demoHook])"

lemma demo_hooks: "wd_queue demoHooks = [demoAlert]" "wd_loop demoHooks = Looping" "wd_sends demoHooks = []" "\<not> wd_done demoHooks"
  "wd_clients demoHooks = [newClient demoHook]"
  by (simp_all add: demoHooks_def Dispatch_def NewWebhookDispatcher_def demoHook_def queueSize_def Let_def)

theorem webhook_queue_in_order_witness:
  "\<exists>d. notifyStep\<^sup>*\<^sup>* (NewWebhookDispatcher [demoHook], [], []) (d, [demoAlert], [demoAlert]) \<and> wd_sends d = [(newClient demoHook, demoAlert)]
     \<and> wd_queue d = [] \<and> (\<forall>(c, ev) \<in> set (wd_sends d). severityOrder (wh_MinSeverity (cl_cfg c)) \<le> severityOrder (we_Severity ev))"
proof -
  let ?d = "sendToAll demoAlert (demoHooks\<lparr>wd_queue := []\<rparr>)"
  have "notifyStep (NewWebhookDispatcher [demoHook], [], []) (demoHooks, [] @ [demoAlert], [])"
    unfolding demoHooks_def by (rule notifyStep.accept) (simp add: NewWebhookDispatcher_def queueSize_def Let_def)
  moreover have "loopStep demoHooks ?d" by (rule loopStep.receive) (simp_all add: demo_hooks)
  from notifyStep.loop [OF this, of "[demoAlert]" "[]"] have "notifyStep (demoHooks, [demoAlert], []) (?d, [demoAlert], [demoAlert])"
    by (simp add: demo_hooks sendToAll_def)
  ultimately have run: "notifyStep\<^sup>*\<^sup>* (NewWebhookDispatcher [demoHook], [], []) (?d, [demoAlert], [demoAlert])" by simp
  moreover have "wd_sends ?d = [(newClient demoHook, demoAlert)]"
    by (simp add: sendToAll_def demo_hooks shouldNotify_def severityOrder_def newClient_def demoHook_def demoAlert_def)
  ultimately show ?thesis using webhook_queue_in_order [OF run]
    by (intro exI [of _ ?d]) (auto simp: newClient_def demoHook_def)
qed

theorem webhook_loop_ends_witness:
  "\<exists>d'. (loopStep ^^ 3) (demoHooks\<lparr>wd_done := True\<rparr>) d' \<and> stopReturns d' \<and> wd_sends d' = [(newClient demoHook, demoAlert)]"
proof -
  let ?d = "demoHooks\<lparr>wd_done := True\<rparr>"
  let ?d1 = "sendToAll demoAlert (?d\<lparr>wd_queue := []\<rparr>)"
  let ?d2 = "?d1\<lparr>wd_loop := Draining\<rparr>"
  let ?d3 = "?d2\<lparr>wd_loop := Ended\<rparr>"
  have "loopStep ?d ?d1" by (rule loopStep.receive) (simp_all add: demo_hooks)
  moreover have "loopStep ?d1 ?d2" by (rule loopStep.notice) (simp_all add: demo_hooks sendToAll_def)
  moreover have "loopStep ?d2 ?d3" by (rule loopStep.finish) (simp_all add: sendToAll_def)
  ultimately have run: "(loopStep ^^ 3) ?d ?d3" by (auto simp: numeral_3_eq_3)
  have "\<nexists>d''. loopStep ?d3 d''" by (auto elim!: loopStepE)
  with webhook_loop_ends [OF run] run show ?thesis
    by (intro exI [of _ ?d3])
      (simp add: demo_hooks chosen_def shouldNotify_def severityOrder_def newClient_def demoHook_def demoAlert_def)
qed

definition demoMail :: EmailConfig where
  "demoMail = \<lparr>em_Enabled = True, em_SMTPHost = ''m'', em_SMTPPort = 0, em_Username = [], em_Password = [], em_From = ''a@b'',
     em_To = [''c@d'', ''e@f''], em_UseTLS = True, em_MinSeverity = ''high''\<rparr>"

theorem mail_headers_intact_witness:
  "hd (splitC nl (mailText demoMail ''<p>'' demoAlert)) = ''From: a@b'' @ [cr]"
  using mail_headers_intact [of demoMail demoAlert "''<p>''"] by (simp add: demoMail_def demoAlert_def nl_char)

end
