(* ===== verification/Dashboard.thy ===== *)
theory Dashboard
  imports Filesys Channel
begin

text \<open>
  The web dashboard, \<open>internal/web/handler.go\<close>: its routes, the publication of events to the
  connected clients, and the stream a client receives.  A client is a buffered channel in the
  set of the dashboard; the browser's side of a client is what has been written to it.
\<close>

section \<open>The data\<close>

record ResponseEvent =
  re_Timestamp :: gotime
  re_RuleID :: string
  re_Category :: string
  re_Subject :: gomap
  re_Result :: gomap

text \<open>The interface to the agent; the values are the ones the JSON encoder is given.\<close>

record AgentView =
  av_Metrics :: anyv
  av_ResponseHistory :: "int \<Rightarrow> ResponseEvent list"
  av_Status :: anyv

type_synonym clientID = nat

text \<open>The channels of the connected clients, and what each connection has been sent.\<close>

record Dashboard =
  db_clients :: "clientID \<rightharpoonup> string list"
  db_written :: "clientID \<Rightarrow> string list"

definition clientBuffer :: nat where "clientBuffer = 16"

definition NewDashboard :: Dashboard where
  "NewDashboard = \<lparr>db_clients = Map.empty, db_written = (\<lambda>_. [])\<rparr>"

section \<open>Publication\<close>

definition frameOf :: "string \<Rightarrow> string" where
  "frameOf data = ''data: '' @ data @ [nl, nl]"

definition offer :: "string \<Rightarrow> string list \<Rightarrow> string list" where
  "offer msg ch = (if length ch < clientBuffer then ch @ [msg] else ch)"

text \<open>An event that cannot be encoded is dropped for all; a full channel drops it for its client.\<close>

definition Publish :: "('e \<Rightarrow> string option) \<Rightarrow> 'e \<Rightarrow> Dashboard \<Rightarrow> Dashboard" where
  "Publish json event d =
     (case json event of
        None \<Rightarrow> d
      | Some data \<Rightarrow> d\<lparr>db_clients := (\<lambda>c. map_option (offer (frameOf data)) (db_clients d c))\<rparr>)"

section \<open>Replies\<close>

datatype webBody = IndexPage | JsonValue anyv | JsonResponses "ResponseEvent list" | Stream clientID

datatype webReply = WebOK string webBody | WebError nat string

definition serveIndex :: "string \<Rightarrow> webReply" where
  "serveIndex urlpath = (if urlpath \<noteq> ''/'' then WebError 404 ''404 page not found'' else WebOK ''text/html; charset=utf-8'' IndexPage)"

definition apiMetrics :: "AgentView \<Rightarrow> webReply" where
  "apiMetrics ag = WebOK ''application/json'' (JsonValue (av_Metrics ag))"

definition apiStatus :: "AgentView \<Rightarrow> webReply" where
  "apiStatus ag = WebOK ''application/json'' (JsonValue (av_Status ag))"

definition apiResponses :: "AgentView \<Rightarrow> webReply" where
  "apiResponses ag = WebOK ''application/json'' (JsonResponses (av_ResponseHistory ag 50))"

text \<open>The beginning of \<open>serveSSE\<close>: a fresh channel joins the set; a writer that cannot flush is refused.\<close>

definition joinStream :: "bool \<Rightarrow> clientID \<Rightarrow> Dashboard \<Rightarrow> webReply \<times> Dashboard" where
  "joinStream flusher c d =
     (if \<not> flusher then (WebError 500 ''streaming not supported'', d)
      else (WebOK ''text/event-stream'' (Stream c), d\<lparr>db_clients := (db_clients d)(c \<mapsto> []), db_written := (db_written d)(c := [])\<rparr>))"

text \<open>One turn of its loop, and its end.\<close>

definition pumpClient :: "clientID \<Rightarrow> Dashboard \<Rightarrow> Dashboard" where
  "pumpClient c d =
     (case db_clients d c of
        Some (msg # rest) \<Rightarrow> d\<lparr>db_clients := (db_clients d)(c \<mapsto> rest), db_written := (db_written d)(c := db_written d c @ [msg])\<rparr>
      | _ \<Rightarrow> d)"

definition leaveStream :: "clientID \<Rightarrow> Dashboard \<Rightarrow> Dashboard" where
  "leaveStream c d = d\<lparr>db_clients := (db_clients d)(c := None)\<rparr>"

text \<open>The routes: the longest pattern that fits, where the one for the root fits every path.\<close>

definition webHandler :: "AgentView \<Rightarrow> string \<Rightarrow> bool \<Rightarrow> clientID \<Rightarrow> Dashboard \<Rightarrow> webReply \<times> Dashboard" where
  "webHandler ag urlpath flusher fresh d =
     (if urlpath = ''/api/metrics'' then (apiMetrics ag, d)
      else if urlpath = ''/api/status'' then (apiStatus ag, d)
      else if urlpath = ''/api/responses'' then (apiResponses ag, d)
      else if urlpath = ''/events'' then joinStream flusher fresh d
      else (serveIndex urlpath, d))"

section \<open>Streams\<close>

text \<open>
  Runs of the dashboard as one client sees them: events are published, other clients come and go
  and read, this one reads when it likes.  The run keeps the frames published since it joined.
\<close>

inductive streamStep :: "('e \<Rightarrow> string option) \<Rightarrow> AgentView \<Rightarrow> clientID \<Rightarrow> Dashboard \<times> string list \<Rightarrow> Dashboard \<times> string list \<Rightarrow> bool"
  for json ag c where
  publish: "streamStep json ag c (d, fs) (Publish json ev d, case json ev of Some data \<Rightarrow> fs @ [frameOf data] | None \<Rightarrow> fs)"
| read: "streamStep json ag c (d, fs) (pumpClient c' d, fs)"
| leave: "c' \<noteq> c \<Longrightarrow> streamStep json ag c (d, fs) (leaveStream c' d, fs)"
| request: "db_clients d fresh = None \<Longrightarrow> streamStep json ag c (d, fs) (snd (webHandler ag urlpath flusher fresh d), fs)"

definition streamInv :: "clientID \<Rightarrow> Dashboard \<times> string list \<Rightarrow> bool" where
  "streamInv c s = (case s of (d, fs) \<Rightarrow>
     \<exists>ch. db_clients d c = Some ch \<and> length ch \<le> clientBuffer \<and> subseq (db_written d c @ ch) fs
       \<and> (length fs \<le> clientBuffer \<longrightarrow> db_written d c @ ch = fs))"

interpretation stream: lossy_channel "\<lambda>ch msg. offer msg ch" "\<lambda>ch. ch" clientBuffer
  by unfold_locales (simp_all add: offer_def)

lemma streamStep_inv: "streamStep json ag c s s' \<Longrightarrow> streamInv c s \<Longrightarrow> streamInv c s'"
proof (induction rule: streamStep.induct)
  case (publish d fs ev)
  then obtain ch where ch: "db_clients d c = Some ch" "length ch \<le> clientBuffer" "subseq (db_written d c @ ch) fs"
    "length fs \<le> clientBuffer \<longrightarrow> db_written d c @ ch = fs" by (auto simp: streamInv_def)
  show ?case
  proof (cases "json ev")
    case (Some data)
    let ?f = "frameOf data"
    have "subseq (db_written d c @ offer ?f ch) (fs @ [?f])"
      by (rule stream.give_subseq [OF ch(3)])
    moreover have "length (offer ?f ch) \<le> clientBuffer" by (rule stream.give_bounded [OF ch(2)])
    moreover have "length (fs @ [?f]) \<le> clientBuffer \<longrightarrow> db_written d c @ offer ?f ch = fs @ [?f]"
      using stream.give_exact ch(4) by auto
    ultimately show ?thesis using Some ch(1) by (simp add: streamInv_def Publish_def)
  qed (use publish in \<open>simp add: Publish_def\<close>)
next
  case (read d fs c')
  then show ?case by (auto simp: streamInv_def pumpClient_def split: option.split list.split)
next
  case (request d fresh fs urlpath flusher)
  then show ?case by (auto simp: streamInv_def webHandler_def joinStream_def)
qed (auto simp: streamInv_def leaveStream_def)


lemma splitC_frame:
  assumes "nl \<notin> set d"
  shows "splitC nl (frameOf d @ s) = (''data: '' @ d) # [] # splitC nl s"
  using splitC_line [of nl "''data: '' @ d" "nl # s"] assms by (simp add: frameOf_def gostr)

text \<open>
  Frames are found again.  When the encoder writes no line break, the lines of a
  sequence of frames are, for each event in order, its data line and an empty line: a reader that
  takes the lines that begin with \<open>data: \<close> has exactly the published data.
\<close>

theorem frames_roundtrip:
  assumes "\<forall>d \<in> set ds. nl \<notin> set d"
  shows "map (drop 6) (filter (\<lambda>l. hasPrefix l ''data: '') (splitC nl (concat (map frameOf ds)))) = ds"
  using assms
proof (induction ds)
  case (Cons d ds)
  then show ?case using splitC_frame [of d "concat (map frameOf ds)"] by (simp add: hasPrefix_def)
qed (simp add: hasPrefix_def)

section \<open>A small dashboard\<close>

definition demoView :: AgentView where
  "demoView = \<lparr>av_Metrics = VInt 0, av_ResponseHistory = (\<lambda>_. []), av_Status = VBool True\<rparr>"


theorem frames_roundtrip_witness:
  "map (drop 6) (filter (\<lambda>l. hasPrefix l ''data: '') (splitC nl (frameOf ''{}'' @ frameOf ''data: 1''))) = [''{}'', ''data: 1'']"
  using frames_roundtrip [of "[''{}'', ''data: 1'']"] by (simp add: gostr)

end
