(* ===== verification/LibbpfBridge.thy ===== *)
theory LibbpfBridge
  imports BpfLoader "HOL-Library.Multiset"
begin

text \<open>
  The C side of \<open>internal/bpf/loader_libbpf.go\<close>: the functions of its cgo preamble, which open
  the object file, attach the probes, hold the links and the ring buffer, and write the BPF maps,
  and how the Go loader of the theory BpfLoader calls them.  The answers of libbpf and of the
  allocator are the fields of an argument of type \<open>libbpf\<close>; the functions return the trace of
  the calls that acquire or release something.  An accounting of that trace says what is held
  afterwards, or that something was released that was not held.
\<close>

section \<open>What libbpf answers\<close>

text \<open>A C pointer; an error pointer of libbpf is one for which \<open>libbpf_get_error\<close> is not zero.\<close>

datatype ptr = Null | Ptr nat

datatype hook_point =
    Tracepoint string string   \<comment> \<open>category and name\<close>
  | Kprobe bool string         \<comment> \<open>on return, and the symbol\<close>
  | Lsm

record libbpf =
  lp_calloc :: bool                                \<comment> \<open>\<open>calloc\<close> succeeds\<close>
  lp_get_error :: "ptr \<Rightarrow> int"
  lp_open_file :: "string \<Rightarrow> ptr"
  lp_load :: "ptr \<Rightarrow> int"
  lp_load_errno :: int                             \<comment> \<open>\<open>errno\<close> after a failed load\<close>
  lp_find_program :: "ptr \<Rightarrow> string \<Rightarrow> ptr"
  lp_attach :: "ptr \<Rightarrow> hook_point \<Rightarrow> ptr"
  lp_find_map :: "ptr \<Rightarrow> string \<Rightarrow> ptr"
  lp_map_fd :: "ptr \<Rightarrow> int"
  lp_ring_new :: "int \<Rightarrow> ptr"

datatype libcall =
    Calloc
  | Free
  | OpenFile string ptr
  | CloseObject ptr
  | Attach string hook_point ptr   \<comment> \<open>the program, where, and the link\<close>
  | DestroyLink ptr
  | NewRing int ptr
  | FreeRing ptr
  | Stderr string                  \<comment> \<open>a line of \<open>fprintf(stderr, ...)\<close>\<close>

definition EINVAL :: int where "EINVAL = 22"
definition ENOMEM :: int where "ENOMEM = 12"
definition ENOENT :: int where "ENOENT = 2"

lemmas errnos = EINVAL_def ENOMEM_def ENOENT_def

section \<open>The loader structure\<close>

datatype link_slot =
    ExecLink | ConnectLink | ForkLink | ExitLink | KillLink | TgkillLink | PtraceLink
  | PtraceEnhLink | LdpreloadLink | InstrumentLink | LsmTaskKillLink | LsmPtraceLink

instantiation link_slot :: enum
begin

definition enum_link_slot :: "link_slot list" where
  "enum_link_slot = [ExecLink, ConnectLink, ForkLink, ExitLink, KillLink, TgkillLink, PtraceLink, PtraceEnhLink,
     LdpreloadLink, InstrumentLink, LsmTaskKillLink, LsmPtraceLink]"

definition enum_all_link_slot :: "(link_slot \<Rightarrow> bool) \<Rightarrow> bool" where
  "enum_all_link_slot P = list_all P enum_class.enum"

definition enum_ex_link_slot :: "(link_slot \<Rightarrow> bool) \<Rightarrow> bool" where
  "enum_ex_link_slot P = list_ex P enum_class.enum"

instance
proof
  show univ: "(UNIV :: link_slot set) = set enum_class.enum"
  proof (rule UNIV_eq_I)
    show "s \<in> set enum_class.enum" for s :: link_slot by (cases s) (simp_all add: enum_link_slot_def)
  qed
  show "distinct (enum_class.enum :: link_slot list)" by (simp add: enum_link_slot_def)
  show "enum_class.enum_all P = Ball UNIV P" "enum_class.enum_ex P = Bex UNIV P" for P :: "link_slot \<Rightarrow> bool"
    by (simp_all add: univ enum_all_link_slot_def enum_ex_link_slot_def list_all_iff list_ex_iff)
qed

end

record edr_loader =
  el_obj :: ptr
  el_link :: "link_slot \<Rightarrow> ptr"
  el_rb :: ptr
  el_map_fd :: int
  el_agent_pid_fd :: int
  el_blacklist_fd :: int
  el_blacklist_filename_fd :: int
  el_go_ctx :: nat

text \<open>What \<open>calloc\<close> leaves.\<close>

definition zeroLoader :: edr_loader where
  "zeroLoader = \<lparr>el_obj = Null, el_link = (\<lambda>_. Null), el_rb = Null, el_map_fd = 0, el_agent_pid_fd = 0,
     el_blacklist_fd = 0, el_blacklist_filename_fd = 0, el_go_ctx = 0\<rparr>"

definition setLink :: "link_slot \<Rightarrow> ptr \<Rightarrow> edr_loader \<Rightarrow> edr_loader" where
  "setLink s p l = l\<lparr>el_link := (el_link l)(s := p)\<rparr>"

definition optionalSlots :: "link_slot list" where
  "optionalSlots = [ForkLink, ExitLink, KillLink, TgkillLink, PtraceLink, PtraceEnhLink, LdpreloadLink,
     InstrumentLink, LsmTaskKillLink, LsmPtraceLink]"

text \<open>The destroy calls for the links of a list of slots that are not null.\<close>

definition destroySet :: "edr_loader \<Rightarrow> link_slot list \<Rightarrow> libcall list" where
  "destroySet l slots = map DestroyLink (filter (\<lambda>p. p \<noteq> Null) (map (el_link l) slots))"

section \<open>Opening\<close>

definition badPtr :: "libbpf \<Rightarrow> ptr \<Rightarrow> bool" where
  "badPtr lp p \<longleftrightarrow> p = Null \<or> lp_get_error lp p \<noteq> 0"

text \<open>The error code of a pointer that failed: its error, or \<open>-EINVAL\<close> for a null pointer.\<close>

definition ptrErr :: "libbpf \<Rightarrow> ptr \<Rightarrow> int" where
  "ptrErr lp p = (if p \<noteq> Null then lp_get_error lp p else - EINVAL)"

definition orInval :: "int \<Rightarrow> int" where
  "orInval err = (if err \<noteq> 0 then err else - EINVAL)"

text \<open>
  The hooks that may be missing, in the order of the code, with the lines they print when the
  program is not in the object, when the attach call answers null, and when it answers an error
  (whose number follows).
\<close>

record optional_hook =
  oh_slot :: link_slot
  oh_prog :: string
  oh_point :: hook_point
  oh_missing :: "string option"
  oh_null :: "string option"
  oh_error :: "string option"

definition forkHooks :: "optional_hook list" where
  "forkHooks =
     [\<lparr>oh_slot = ForkLink, oh_prog = ''handle_fork'', oh_point = Tracepoint ''sched'' ''sched_process_fork'',
       oh_missing = None, oh_null = None, oh_error = None\<rparr>,
      \<lparr>oh_slot = ExitLink, oh_prog = ''handle_exit'', oh_point = Tracepoint ''sched'' ''sched_process_exit'',
       oh_missing = None, oh_null = None, oh_error = None\<rparr>]"

definition selfprotectHooks :: "optional_hook list" where
  "selfprotectHooks =
     [\<lparr>oh_slot = KillLink, oh_prog = ''handle_kill'', oh_point = Kprobe False ''__x64_sys_kill'',
       oh_missing = Some ''bpf: program handle_kill not found in object file'',
       oh_null = Some ''bpf: attach_kprobe(__x64_sys_kill) returned NULL (symbol busy or blacklisted?)'',
       oh_error = Some ''bpf: attach_kprobe(__x64_sys_kill) error: ''\<rparr>,
      \<lparr>oh_slot = TgkillLink, oh_prog = ''handle_tgkill'', oh_point = Kprobe False ''__x64_sys_tgkill'',
       oh_missing = Some ''bpf: program handle_tgkill not found in object file'',
       oh_null = Some ''bpf: attach_kprobe(__x64_sys_tgkill) returned NULL (symbol busy or blacklisted?)'',
       oh_error = Some ''bpf: attach_kprobe(__x64_sys_tgkill) error: ''\<rparr>,
      \<lparr>oh_slot = PtraceLink, oh_prog = ''handle_ptrace'', oh_point = Kprobe False ''__x64_sys_ptrace'',
       oh_missing = Some ''bpf: program handle_ptrace not found in object file'',
       oh_null = Some ''bpf: attach_kprobe(__x64_sys_ptrace) returned NULL (symbol busy or blacklisted?)'',
       oh_error = Some ''bpf: attach_kprobe(__x64_sys_ptrace) error: ''\<rparr>]"

definition antiAttackHooks :: "optional_hook list" where
  "antiAttackHooks =
     [\<lparr>oh_slot = PtraceEnhLink, oh_prog = ''handle_ptrace_enh'', oh_point = Kprobe False ''__x64_sys_ptrace'',
       oh_missing = None,
       oh_null = Some ''bpf: attach_kprobe(__x64_sys_ptrace for ptrace_enh) returned NULL'',
       oh_error = Some ''bpf: attach_kprobe(ptrace_enh) error: ''\<rparr>,
      \<lparr>oh_slot = LdpreloadLink, oh_prog = ''handle_ldpreload'', oh_point = Tracepoint ''syscalls'' ''sys_enter_execve'',
       oh_missing = None,
       oh_null = Some ''bpf: attach_tracepoint(syscalls/sys_enter_execve for ldpreload) returned NULL'',
       oh_error = Some ''bpf: attach_tracepoint(ldpreload) error: ''\<rparr>,
      \<lparr>oh_slot = InstrumentLink, oh_prog = ''handle_instrument'', oh_point = Kprobe False ''__x64_sys_mmap'',
       oh_missing = None,
       oh_null = Some ''bpf: attach_kprobe(__x64_sys_mmap for instrument) returned NULL'',
       oh_error = Some ''bpf: attach_kprobe(instrument) error: ''\<rparr>]"

definition lsmHooks :: "optional_hook list" where
  "lsmHooks =
     [\<lparr>oh_slot = LsmTaskKillLink, oh_prog = ''lsm_task_kill'', oh_point = Lsm,
       oh_missing = Some ''bpf: program lsm_task_kill not found in object file'',
       oh_null = Some ''bpf: attach_lsm(task_kill) returned NULL'',
       oh_error = Some ''bpf: attach_lsm(task_kill) error: ''\<rparr>,
      \<lparr>oh_slot = LsmPtraceLink, oh_prog = ''lsm_ptrace_access_check'', oh_point = Lsm,
       oh_missing = Some ''bpf: program lsm_ptrace_access_check not found in object file'',
       oh_null = Some ''bpf: attach_lsm(ptrace_access_check) returned NULL'',
       oh_error = Some ''bpf: attach_lsm(ptrace_access_check) error: ''\<rparr>]"

definition optionalHooks :: "optional_hook list" where
  "optionalHooks = forkHooks @ selfprotectHooks @ antiAttackHooks @ lsmHooks"

fun complain :: "string option \<Rightarrow> string \<Rightarrow> libcall list" where
  "complain None rest = []"
| "complain (Some msg) rest = [Stderr (msg @ rest)]"

definition attachOptional :: "libbpf \<Rightarrow> optional_hook \<Rightarrow> edr_loader \<Rightarrow> edr_loader \<times> libcall list" where
  "attachOptional lp h l =
     (let prog = lp_find_program lp (el_obj l) (oh_prog h) in
      if prog = Null then (l, complain (oh_missing h) [])
      else
        (let p = lp_attach lp prog (oh_point h); a = Attach (oh_prog h) (oh_point h) p in
         if p = Null then (setLink (oh_slot h) Null l, a # complain (oh_null h) [])
         else if lp_get_error lp p \<noteq> 0
         then (setLink (oh_slot h) Null l, a # complain (oh_error h) (itoa (lp_get_error lp p)) @ [DestroyLink p])
         else (setLink (oh_slot h) p l, [a])))"

fun attachAll :: "libbpf \<Rightarrow> optional_hook list \<Rightarrow> edr_loader \<Rightarrow> edr_loader \<times> libcall list" where
  "attachAll lp [] l = (l, [])"
| "attachAll lp (h # hs) l =
     (case attachOptional lp h l of (l1, t1) \<Rightarrow> case attachAll lp hs l1 of (l2, t2) \<Rightarrow> (l2, t1 @ t2))"

text \<open>
  What an open function returns: the code, the loader it stores in \<open>*out\<close>, the trace so far.  The rest
  of \<open>edr_open\<close> is read backwards: the event map and the ring buffer, the optional hooks, the
  connect hook, the exec hook, the object.
\<close>

type_synonym opened = "int \<times> edr_loader option \<times> libcall list"

definition abandon :: "edr_loader \<Rightarrow> libcall list" where
  "abandon l = [DestroyLink (el_link l ExecLink), DestroyLink (el_link l ConnectLink)] @ destroySet l optionalSlots
     @ [CloseObject (el_obj l), Free]"

definition optionalFd :: "libbpf \<Rightarrow> ptr \<Rightarrow> string \<Rightarrow> int" where
  "optionalFd lp obj name = (case lp_find_map lp obj name of Null \<Rightarrow> -1 | m \<Rightarrow> lp_map_fd lp m)"

definition openRing :: "libbpf \<Rightarrow> edr_loader \<Rightarrow> libcall list \<Rightarrow> opened" where
  "openRing lp l t =
     (let m = lp_find_map lp (el_obj l) ''events'' in
      if m = Null then (- ENOENT, None, t @ abandon l)
      else
        (let fd = lp_map_fd lp m;
             l1 = l\<lparr>el_map_fd := fd,
                    el_agent_pid_fd := optionalFd lp (el_obj l) ''agent_pid'',
                    el_blacklist_fd := optionalFd lp (el_obj l) ''blacklist_comm'',
                    el_blacklist_filename_fd := optionalFd lp (el_obj l) ''blacklist_filename''\<rparr>;
             rb = lp_ring_new lp fd; t1 = t @ [NewRing fd rb] in
         if badPtr lp rb
         then (ptrErr lp rb, None, t1 @ (if rb \<noteq> Null then [FreeRing rb] else []) @ abandon l1)
         else (0, Some (l1\<lparr>el_rb := rb\<rparr>), t1)))"

definition openOptional :: "libbpf \<Rightarrow> edr_loader \<Rightarrow> libcall list \<Rightarrow> opened" where
  "openOptional lp l t = (case attachAll lp optionalHooks l of (l1, t1) \<Rightarrow> openRing lp l1 (t @ t1))"

definition openConnect :: "libbpf \<Rightarrow> edr_loader \<Rightarrow> libcall list \<Rightarrow> opened" where
  "openConnect lp l t =
     (let prog = lp_find_program lp (el_obj l) ''handle_connect''; hook = Tracepoint ''sock'' ''inet_sock_set_state'' in
      if prog = Null
      then (- ENOENT, None, t @ [DestroyLink (el_link l ExecLink), CloseObject (el_obj l), Free])
      else
        (let p = lp_attach lp prog hook; t1 = t @ [Attach ''handle_connect'' hook p] in
         if badPtr lp p
         then (ptrErr lp p, None, t1 @ (if p \<noteq> Null then [DestroyLink p] else [])
                 @ [DestroyLink (el_link l ExecLink), CloseObject (el_obj l), Free])
         else openOptional lp (setLink ConnectLink p l) t1))"

definition openExec :: "libbpf \<Rightarrow> edr_loader \<Rightarrow> libcall list \<Rightarrow> opened" where
  "openExec lp l t =
     (let prog = lp_find_program lp (el_obj l) ''handle_exec''; hook = Tracepoint ''sched'' ''sched_process_exec'' in
      if prog = Null then (- ENOENT, None, t @ [CloseObject (el_obj l), Free])
      else
        (let p = lp_attach lp prog hook; t1 = t @ [Attach ''handle_exec'' hook p] in
         if badPtr lp p
         then (ptrErr lp p, None, t1 @ (if p \<noteq> Null then [DestroyLink p] else []) @ [CloseObject (el_obj l), Free])
         else openConnect lp (setLink ExecLink p l) t1))"

text \<open>\<open>out\<close> says whether the pointer to the result is not null, \<open>obj_path\<close> is \<open>None\<close> for a null path.\<close>

definition edr_open :: "libbpf \<Rightarrow> bool \<Rightarrow> string option \<Rightarrow> opened" where
  "edr_open lp out obj_path =
     (case obj_path of
        None \<Rightarrow> (- EINVAL, None, [])
      | Some path \<Rightarrow>
          if \<not> out then (- EINVAL, None, [])
          else if \<not> lp_calloc lp then (- ENOMEM, None, [])
          else
            (let obj = lp_open_file lp path; t = [Calloc, OpenFile path obj] in
             if lp_get_error lp obj \<noteq> 0 then (orInval (lp_get_error lp obj), None, t @ [Free])
             else if lp_load lp obj < 0
             then (orInval (- lp_load_errno lp), None, t @ [CloseObject obj, Free])
             else openExec lp (zeroLoader\<lparr>el_obj := obj\<rparr>) t))"

section \<open>Polling, closing, the maps\<close>

text \<open>\<open>deliver\<close> is the Go callback, given the context; \<open>poll\<close> what \<open>ring_buffer__poll\<close> answers.\<close>

definition edr_on_event :: "(nat \<Rightarrow> byte list \<Rightarrow> 'a) \<Rightarrow> edr_loader \<Rightarrow> byte list \<Rightarrow> 'a" where
  "edr_on_event deliver l raw = deliver (el_go_ctx l) raw"

definition edr_poll :: "(ptr \<Rightarrow> int \<Rightarrow> int) \<Rightarrow> edr_loader option \<Rightarrow> int \<Rightarrow> int" where
  "edr_poll poll lo timeout_ms = (case lo of None \<Rightarrow> - EINVAL | Some l \<Rightarrow> poll (el_rb l) timeout_ms)"

definition edr_close :: "edr_loader option \<Rightarrow> libcall list" where
  "edr_close lo =
     (case lo of
        None \<Rightarrow> []
      | Some l \<Rightarrow>
          (if el_rb l \<noteq> Null then [FreeRing (el_rb l)] else [])
          @ destroySet l (ExecLink # ConnectLink # optionalSlots)
          @ (if el_obj l \<noteq> Null then [CloseObject (el_obj l)] else []) @ [Free])"

definition edr_set_go_ctx :: "edr_loader option \<Rightarrow> nat \<Rightarrow> edr_loader option" where
  "edr_set_go_ctx h ctx = map_option (\<lambda>l. l\<lparr>el_go_ctx := ctx\<rparr>) h"

text \<open>
  A BPF hash map is its entries in the order in which \<open>bpf_map_get_next_key\<close> meets them.  \<open>upd\<close>, \<open>del\<close>
  and \<open>next\<close> are the \<open>errno\<close> of a call of the kernel, zero when it succeeds.
\<close>

type_synonym kmap = "(string \<times> 8 word) list"

record kernel_maps =
  km_agent_pid :: "32 word"
  km_comm :: kmap
  km_filename :: kmap

definition nul :: char where "nul = char_of (0 :: nat)"

text \<open>The key buffer: zeroes, with at most one byte less than its size copied from the C string.\<close>

definition keyBuffer :: "nat \<Rightarrow> string \<Rightarrow> string" where
  "keyBuffer width s = (let n = min (length s) (width - 1) in take n s @ replicate (width - n) nul)"

fun kmapPut :: "string \<Rightarrow> 8 word \<Rightarrow> kmap \<Rightarrow> kmap" where
  "kmapPut k v [] = [(k, v)]"
| "kmapPut k v ((k', v') # m) = (if k' = k then (k, v) # m else (k', v') # kmapPut k v m)"

fun kmapClear :: "(string \<Rightarrow> int) \<Rightarrow> (string \<Rightarrow> int) \<Rightarrow> kmap \<Rightarrow> int \<times> kmap" where
  "kmapClear next del [] = (0, [])"
| "kmapClear next del ((k, v) # m) =
     (if next k \<noteq> 0 then (0, (k, v) # m)
      else if del k \<noteq> 0 then (- del k, (k, v) # m)
      else kmapClear next del m)"

definition edr_set_agent_pid :: "int \<Rightarrow> edr_loader option \<Rightarrow> 32 word \<Rightarrow> kernel_maps \<Rightarrow> int \<times> kernel_maps" where
  "edr_set_agent_pid upd lo pid m =
     (case lo of
        None \<Rightarrow> (- EINVAL, m)
      | Some l \<Rightarrow> if el_agent_pid_fd l < 0 then (- EINVAL, m)
                 else if upd \<noteq> 0 then (- upd, m) else (0, m\<lparr>km_agent_pid := pid\<rparr>))"

definition edr_blacklist_add ::
  "int \<Rightarrow> edr_loader option \<Rightarrow> string option \<Rightarrow> 8 word \<Rightarrow> kernel_maps \<Rightarrow> int \<times> kernel_maps" where
  "edr_blacklist_add upd lo comm action m =
     (case (lo, comm) of
        (Some l, Some c) \<Rightarrow>
          if el_blacklist_fd l < 0 then (- EINVAL, m)
          else if upd \<noteq> 0 then (- upd, m)
          else (0, m\<lparr>km_comm := kmapPut (keyBuffer 16 c) action (km_comm m)\<rparr>)
      | _ \<Rightarrow> (- EINVAL, m))"

definition edr_blacklist_clear ::
  "(string \<Rightarrow> int) \<Rightarrow> (string \<Rightarrow> int) \<Rightarrow> edr_loader option \<Rightarrow> kernel_maps \<Rightarrow> int \<times> kernel_maps" where
  "edr_blacklist_clear next del lo m =
     (case lo of
        None \<Rightarrow> (- EINVAL, m)
      | Some l \<Rightarrow> if el_blacklist_fd l < 0 then (- EINVAL, m)
                 else (case kmapClear next del (km_comm m) of (rc, ks) \<Rightarrow> (rc, m\<lparr>km_comm := ks\<rparr>)))"

definition edr_blacklist_filename_add ::
  "int \<Rightarrow> edr_loader option \<Rightarrow> string option \<Rightarrow> 8 word \<Rightarrow> kernel_maps \<Rightarrow> int \<times> kernel_maps" where
  "edr_blacklist_filename_add upd lo path action m =
     (case (lo, path) of
        (Some l, Some p) \<Rightarrow>
          if el_blacklist_filename_fd l < 0 then (- EINVAL, m)
          else if upd \<noteq> 0 then (- upd, m)
          else (0, m\<lparr>km_filename := kmapPut (keyBuffer 256 p) action (km_filename m)\<rparr>)
      | _ \<Rightarrow> (- EINVAL, m))"

definition edr_blacklist_filename_clear ::
  "(string \<Rightarrow> int) \<Rightarrow> (string \<Rightarrow> int) \<Rightarrow> edr_loader option \<Rightarrow> kernel_maps \<Rightarrow> int \<times> kernel_maps" where
  "edr_blacklist_filename_clear next del lo m =
     (case lo of
        None \<Rightarrow> (- EINVAL, m)
      | Some l \<Rightarrow> if el_blacklist_filename_fd l < 0 then (- EINVAL, m)
                 else (case kmapClear next del (km_filename m) of (rc, ks) \<Rightarrow> (rc, m\<lparr>km_filename := ks\<rparr>)))"

section \<open>What a trace holds\<close>

datatype resource = Memory | Object ptr | Link ptr | Ring ptr

text \<open>
  What a call acquires and what it releases.  Only a pointer that is neither null nor an error
  stands for something: libbpf's destructors ignore the others.
\<close>

definition live :: "libbpf \<Rightarrow> ptr \<Rightarrow> bool" where
  "live lp p \<longleftrightarrow> \<not> badPtr lp p"

fun acquires :: "libbpf \<Rightarrow> libcall \<Rightarrow> resource multiset" where
  "acquires lp Calloc = {#Memory#}"
| "acquires lp (OpenFile _ p) = (if live lp p then {#Object p#} else {#})"
| "acquires lp (Attach _ _ p) = (if live lp p then {#Link p#} else {#})"
| "acquires lp (NewRing _ p) = (if live lp p then {#Ring p#} else {#})"
| "acquires lp _ = {#}"

fun releases :: "libbpf \<Rightarrow> libcall \<Rightarrow> resource multiset" where
  "releases lp Free = {#Memory#}"
| "releases lp (CloseObject p) = (if live lp p then {#Object p#} else {#})"
| "releases lp (DestroyLink p) = (if live lp p then {#Link p#} else {#})"
| "releases lp (FreeRing p) = (if live lp p then {#Ring p#} else {#})"
| "releases lp _ = {#}"

text \<open>What is held after a trace; \<open>None\<close> once something is released that is not held.\<close>

fun holds :: "libbpf \<Rightarrow> libcall list \<Rightarrow> resource multiset \<Rightarrow> resource multiset option" where
  "holds lp [] M = Some M"
| "holds lp (c # cs) M =
     (if releases lp c \<subseteq># M then holds lp cs (M - releases lp c + acquires lp c) else None)"

definition resourcesOf :: "libbpf \<Rightarrow> edr_loader \<Rightarrow> resource multiset" where
  "resourcesOf lp l = {#Memory#} + (if live lp (el_obj l) then {#Object (el_obj l)#} else {#})
     + image_mset Link (filter_mset (live lp) (mset (map (el_link l) (ExecLink # ConnectLink # optionalSlots))))
     + (if live lp (el_rb l) then {#Ring (el_rb l)#} else {#})"

lemma live_Null [simp]: "\<not> live lp Null"
  by (simp add: live_def badPtr_def)

lemma holds_append: "holds lp (xs @ ys) M = Option.bind (holds lp xs M) (holds lp ys)"
  by (induction xs arbitrary: M) simp_all

lemma holds_append_Some: "holds lp xs M = Some M' \<Longrightarrow> holds lp (xs @ ys) M = holds lp ys M'"
  by (simp add: holds_append)

lemma holds_complain [simp]: "holds lp (complain msg rest @ cs) M = holds lp cs M" "holds lp (complain msg rest) M = Some M"
  by (cases msg; simp)+

text \<open>Destroying a list of links releases the live ones, whatever the order.\<close>

definition liveLinks :: "libbpf \<Rightarrow> ptr list \<Rightarrow> resource multiset" where
  "liveLinks lp ps = image_mset Link (filter_mset (live lp) (mset ps))"

lemma liveLinks_simps [simp]:
  "liveLinks lp [] = {#}"
  "liveLinks lp (p # ps) = (if live lp p then add_mset (Link p) (liveLinks lp ps) else liveLinks lp ps)"
  "liveLinks lp (filter (\<lambda>p. p \<noteq> Null) ps) = liveLinks lp ps"
  by (auto simp: liveLinks_def) (induction ps; auto)

lemma holds_destroy: "holds lp (map DestroyLink ps) (M + liveLinks lp ps) = Some M"
  by (induction ps) auto

lemma holds_destroySet: "holds lp (destroySet l slots @ cs) (M + liveLinks lp (map (el_link l) slots)) = holds lp cs M"
  using holds_destroy [of lp "filter (\<lambda>p. p \<noteq> Null) (map (el_link l) slots)" M]
  by (simp add: destroySet_def holds_append_Some)

definition objectRes :: "libbpf \<Rightarrow> ptr \<Rightarrow> resource multiset" where
  "objectRes lp p = (if live lp p then {#Object p#} else {#})"

text \<open>What a loader holds before its ring buffer exists.\<close>

definition attached :: "libbpf \<Rightarrow> edr_loader \<Rightarrow> resource multiset" where
  "attached lp l = add_mset Memory (objectRes lp (el_obj l))
     + liveLinks lp (map (el_link l) (ExecLink # ConnectLink # optionalSlots))"

lemma resourcesOf_attached:
  "resourcesOf lp l = attached lp l + (if live lp (el_rb l) then {#Ring (el_rb l)#} else {#})"
  by (simp add: resourcesOf_def attached_def objectRes_def liveLinks_def)

lemma holds_last [simp]: "holds lp [CloseObject p, Free] (add_mset Memory (objectRes lp p)) = Some {#}"
  by (simp add: objectRes_def)

lemma holds_abandon: "holds lp (abandon l) (attached lp l) = Some {#}"
proof -
  let ?M = "add_mset Memory (objectRes lp (el_obj l))"
  let ?req = "[el_link l ExecLink, el_link l ConnectLink]"
  have "attached lp l = (?M + liveLinks lp (map (el_link l) optionalSlots)) + liveLinks lp ?req"
    by (simp add: attached_def)
  moreover have "abandon l = map DestroyLink ?req @ destroySet l optionalSlots @ [CloseObject (el_obj l), Free]"
    by (simp add: abandon_def)
  ultimately show ?thesis
    by (simp only: holds_append_Some [OF holds_destroy] holds_destroySet holds_last)
qed

lemma setLink_simps [simp]:
  "el_obj (setLink s p l) = el_obj l" "el_rb (setLink s p l) = el_rb l"
  "el_link (setLink s p l) = (el_link l)(s := p)"
  by (simp_all add: setLink_def)

lemma attached_setLink:
  "\<not> live lp (el_link l s) \<Longrightarrow> attached lp (setLink s p l) = attached lp l + (if live lp p then {#Link p#} else {#})"
  by (cases s) (simp_all add: attached_def optionalSlots_def)

lemma attachOptional_account:
  assumes "el_link l (oh_slot h) = Null" "attachOptional lp h l = (l', t)"
  shows "holds lp t (M + attached lp l) = Some (M + attached lp l')"
    and "el_obj l' = el_obj l" "el_rb l' = el_rb l"
    and "\<And>s. s \<noteq> oh_slot h \<Longrightarrow> el_link l' s = el_link l s"
  using assms
  by (auto simp: attachOptional_def Let_def attached_setLink live_def badPtr_def split: if_splits)

lemma attachAll_account:
  assumes "distinct (map oh_slot hs)" "\<forall>h\<in>set hs. el_link l (oh_slot h) = Null" "attachAll lp hs l = (l', t)"
  shows "holds lp t (M + attached lp l) = Some (M + attached lp l') \<and> el_obj l' = el_obj l \<and> el_rb l' = el_rb l
    \<and> (\<forall>s. s \<notin> oh_slot ` set hs \<longrightarrow> el_link l' s = el_link l s)"
  using assms
proof (induction hs arbitrary: l t)
  case (Cons h hs)
  obtain l1 t1 where one: "attachOptional lp h l = (l1, t1)" by force
  obtain t2 where two: "attachAll lp hs l1 = (l', t2)" and t: "t = t1 @ t2"
    using Cons.prems(3) one by (auto split: prod.splits)
  note acc = attachOptional_account [OF _ one]
  have "\<forall>h'\<in>set hs. el_link l1 (oh_slot h') = Null"
    using Cons.prems acc(4) by (metis image_eqI list.set_intros distinct.simps(2) list.simps(9) image_set)
  from Cons.IH [OF _ this two] Cons.prems acc show ?case by (auto simp: t holds_append)
qed simp

section \<open>Opening holds all or nothing\<close>

definition allOrNothing :: "libbpf \<Rightarrow> opened \<Rightarrow> bool" where
  "allOrNothing lp r = (case r of (rc, lo, t) \<Rightarrow>
     (rc = 0 \<longleftrightarrow> lo \<noteq> None)
     \<and> holds lp t {#} = Some (case lo of None \<Rightarrow> {#} | Some l \<Rightarrow> resourcesOf lp l)
     \<and> (case lo of None \<Rightarrow> True
        | Some l \<Rightarrow> live lp (el_link l ExecLink) \<and> live lp (el_link l ConnectLink) \<and> live lp (el_rb l)))"

lemma ptrErr_nonzero: "badPtr lp p \<Longrightarrow> ptrErr lp p \<noteq> 0"
  by (auto simp: badPtr_def ptrErr_def errnos)

lemma holds_bad [simp]:
  "badPtr lp p \<Longrightarrow> holds lp (NewRing fd p # (if p \<noteq> Null then [FreeRing p] else []) @ cs) M = holds lp cs M"
  "badPtr lp p \<Longrightarrow> holds lp (Attach g k p # (if p \<noteq> Null then [DestroyLink p] else []) @ cs) M = holds lp cs M"
  by (simp_all add: live_def)

lemma attached_frame [simp]:
  "attached lp (l\<lparr>el_map_fd := a, el_agent_pid_fd := b, el_blacklist_fd := c, el_blacklist_filename_fd := d\<rparr>) = attached lp l"
  "attached lp (l\<lparr>el_rb := r\<rparr>) = attached lp l"
  by (simp_all add: attached_def)

lemma openRing_sound:
  assumes "holds lp t {#} = Some (attached lp l)" "live lp (el_link l ExecLink)" "live lp (el_link l ConnectLink)"
  shows "allOrNothing lp (openRing lp l t)"
proof -
  define m fd rb where "m = lp_find_map lp (el_obj l) ''events''" and "fd = lp_map_fd lp m" and "rb = lp_ring_new lp fd"
  define l1 where "l1 = l\<lparr>el_map_fd := fd, el_agent_pid_fd := optionalFd lp (el_obj l) ''agent_pid'',
    el_blacklist_fd := optionalFd lp (el_obj l) ''blacklist_comm'',
    el_blacklist_filename_fd := optionalFd lp (el_obj l) ''blacklist_filename''\<rparr>"
  have l1: "attached lp l1 = attached lp l" "el_link l1 = el_link l" by (simp_all add: l1_def)
  have res: "openRing lp l t =
     (if m = Null then (- ENOENT, None, t @ abandon l)
      else if badPtr lp rb then (ptrErr lp rb, None, (t @ [NewRing fd rb]) @ (if rb \<noteq> Null then [FreeRing rb] else []) @ abandon l1)
      else (0, Some (l1\<lparr>el_rb := rb\<rparr>), t @ [NewRing fd rb]))"
    unfolding openRing_def Let_def m_def fd_def rb_def l1_def by simp
  consider "m = Null" | "m \<noteq> Null" "badPtr lp rb" | "m \<noteq> Null" "\<not> badPtr lp rb" by blast
  then show ?thesis
  proof cases
    case 1
    then show ?thesis using assms(1) by (simp add: res allOrNothing_def holds_append_Some holds_abandon errnos)
  next
    case 2
    then show ?thesis using assms(1) ptrErr_nonzero [OF 2(2)] holds_abandon [of lp l1]
      by (simp add: res allOrNothing_def holds_append_Some l1)
  next
    case 3
    then show ?thesis using assms
      by (simp add: res allOrNothing_def holds_append_Some resourcesOf_attached l1 live_def)
  qed
qed

lemma optionalHooks_slots: "map oh_slot optionalHooks = optionalSlots"
  by (simp add: optionalHooks_def forkHooks_def selfprotectHooks_def antiAttackHooks_def lsmHooks_def optionalSlots_def)

lemma optionalHooks_ready:
  assumes "\<forall>s\<in>set optionalSlots. el_link l s = Null"
  shows "distinct (map oh_slot optionalHooks)" "\<forall>h\<in>set optionalHooks. el_link l (oh_slot h) = Null"
proof -
  show "distinct (map oh_slot optionalHooks)"
    by (simp add: optionalHooks_slots) (simp add: optionalSlots_def)
  have "oh_slot h \<in> set optionalSlots" if "h \<in> set optionalHooks" for h
    using that by (simp flip: optionalHooks_slots)
  with assms show "\<forall>h\<in>set optionalHooks. el_link l (oh_slot h) = Null" by blast
qed

lemma openOptional_sound:
  assumes "holds lp t {#} = Some (attached lp l)" "live lp (el_link l ExecLink)" "live lp (el_link l ConnectLink)"
    and "\<forall>s\<in>set optionalSlots. el_link l s = Null"
  shows "allOrNothing lp (openOptional lp l t)"
proof -
  obtain l1 t1 where all: "attachAll lp optionalHooks l = (l1, t1)" by force
  have slots: "oh_slot ` set optionalHooks = set optionalSlots"
    by (simp flip: optionalHooks_slots)
  then have acc: "holds lp t1 (attached lp l) = Some (attached lp l1)"
    "\<forall>s. s \<notin> set optionalSlots \<longrightarrow> el_link l1 s = el_link l s"
    using attachAll_account [OF optionalHooks_ready [OF assms(4)] all, of "{#}"] by auto
  then have "el_link l1 ExecLink = el_link l ExecLink" "el_link l1 ConnectLink = el_link l ConnectLink"
    by (auto simp: optionalSlots_def)
  with acc(1) assms show ?thesis
    by (simp add: openOptional_def all openRing_sound holds_append_Some)
qed

lemma openConnect_sound:
  assumes "holds lp t {#} = Some (attached lp l)" "live lp (el_link l ExecLink)"
    and "\<forall>s. s \<noteq> ExecLink \<longrightarrow> el_link l s = Null"
  shows "allOrNothing lp (openConnect lp l t)"
proof -
  have att: "attached lp l = add_mset Memory (objectRes lp (el_obj l)) + liveLinks lp [el_link l ExecLink]"
    using assms(3) by (simp add: attached_def optionalSlots_def)
  have undo: "holds lp (DestroyLink (el_link l ExecLink) # [CloseObject (el_obj l), Free]) (attached lp l) = Some {#}"
    using assms(2) by (simp add: att objectRes_def)
  define prog where "prog = lp_find_program lp (el_obj l) ''handle_connect''"
  define p where "p = lp_attach lp prog (Tracepoint ''sock'' ''inet_sock_set_state'')"
  show ?thesis
  proof (cases "prog = Null \<or> badPtr lp p")
    case True
    then show ?thesis using assms(1) undo ptrErr_nonzero [of lp p]
      by (auto simp: openConnect_def allOrNothing_def holds_append_Some errnos Let_def simp flip: prog_def p_def)
  next
    case False
    then have new: "live lp p" "\<not> live lp (el_link l ConnectLink)" using assms(3) by (simp_all add: live_def badPtr_def)
    have "holds lp (t @ [Attach ''handle_connect'' (Tracepoint ''sock'' ''inet_sock_set_state'') p]) {#}
        = Some (attached lp (setLink ConnectLink p l))"
      using assms(1) new by (simp add: holds_append_Some attached_setLink)
    then have "allOrNothing lp (openOptional lp (setLink ConnectLink p l)
        (t @ [Attach ''handle_connect'' (Tracepoint ''sock'' ''inet_sock_set_state'') p]))"
      using assms new by (intro openOptional_sound) (auto simp: optionalSlots_def)
    with False show ?thesis by (simp add: openConnect_def Let_def flip: prog_def p_def)
  qed
qed

lemma openExec_sound:
  assumes "holds lp t {#} = Some (attached lp l)" "\<forall>s. el_link l s = Null"
  shows "allOrNothing lp (openExec lp l t)"
proof -
  have att: "attached lp l = add_mset Memory (objectRes lp (el_obj l))"
    using assms(2) by (simp add: attached_def optionalSlots_def)
  have undo: "holds lp [CloseObject (el_obj l), Free] (attached lp l) = Some {#}"
    by (simp only: att holds_last)
  define prog where "prog = lp_find_program lp (el_obj l) ''handle_exec''"
  define p where "p = lp_attach lp prog (Tracepoint ''sched'' ''sched_process_exec'')"
  show ?thesis
  proof (cases "prog = Null \<or> badPtr lp p")
    case True
    then show ?thesis using assms(1) undo ptrErr_nonzero [of lp p]
      by (auto simp: openExec_def allOrNothing_def holds_append_Some errnos Let_def simp flip: prog_def p_def)
  next
    case False
    then have new: "live lp p" "\<not> live lp (el_link l ExecLink)" using assms(2) by (simp_all add: live_def badPtr_def)
    have "holds lp (t @ [Attach ''handle_exec'' (Tracepoint ''sched'' ''sched_process_exec'') p]) {#}
        = Some (attached lp (setLink ExecLink p l))"
      using assms(1) new by (simp add: holds_append_Some attached_setLink)
    then have "allOrNothing lp (openConnect lp (setLink ExecLink p l)
        (t @ [Attach ''handle_exec'' (Tracepoint ''sched'' ''sched_process_exec'') p]))"
      using assms new by (intro openConnect_sound) auto
    with False show ?thesis by (simp add: openExec_def Let_def flip: prog_def p_def)
  qed
qed

lemma edr_open_sound: "allOrNothing lp (edr_open lp out obj_path)"
proof (cases obj_path)
  case (Some path)
  let ?l = "zeroLoader\<lparr>el_obj := lp_open_file lp path\<rparr>"
  have "holds lp [Calloc, OpenFile path (lp_open_file lp path)] {#} = Some (attached lp ?l)"
    by (simp add: attached_def zeroLoader_def objectRes_def optionalSlots_def)
  then have "allOrNothing lp (openExec lp ?l [Calloc, OpenFile path (lp_open_file lp path)])"
    by (rule openExec_sound) (simp add: zeroLoader_def)
  then show ?thesis
    by (simp add: Some edr_open_def Let_def) (simp add: allOrNothing_def orInval_def errnos live_def badPtr_def)
qed (simp add: edr_open_def allOrNothing_def errnos)

lemma holds_edr_close: "holds lp (edr_close (Some l)) (resourcesOf lp l) = Some {#}"
proof -
  let ?ring = "if el_rb l \<noteq> Null then [FreeRing (el_rb l)] else []"
  let ?obj = "if el_obj l \<noteq> Null then [CloseObject (el_obj l)] else []"
  have ring: "holds lp (?ring @ cs) (resourcesOf lp l) = holds lp cs (attached lp l)" for cs
    by (simp add: resourcesOf_attached)
  have obj: "holds lp (?obj @ [Free]) (add_mset Memory (objectRes lp (el_obj l))) = Some {#}"
    by (simp add: objectRes_def)
  show ?thesis
    unfolding edr_close_def option.case
    by (simp only: ring attached_def holds_destroySet obj)
qed

section \<open>A missing self-protection hook is reported\<close>

definition hookTexts :: "optional_hook \<Rightarrow> string list" where
  "hookTexts h = List.map_filter (\<lambda>m. m) [oh_missing h, oh_null h, oh_error h]"

definition reported :: "optional_hook \<Rightarrow> libcall list \<Rightarrow> bool" where
  "reported h t \<longleftrightarrow> (\<exists>msg rest. msg \<in> set (hookTexts h) \<and> Stderr (msg @ rest) \<in> set t)"

definition verbose :: "optional_hook \<Rightarrow> bool" where
  "verbose h \<longleftrightarrow> oh_missing h \<noteq> None \<and> oh_null h \<noteq> None \<and> oh_error h \<noteq> None"

lemma hookTexts_iff: "msg \<in> set (hookTexts h) \<longleftrightarrow> oh_missing h = Some msg \<or> oh_null h = Some msg \<or> oh_error h = Some msg"
  by (auto simp: hookTexts_def List.map_filter_def)

lemma attachOptional_reports:
  assumes "attachOptional lp h l = (l', t)" "verbose h" "el_link l (oh_slot h) = Null" "el_link l' (oh_slot h) = Null"
  shows "reported h t"
proof -
  obtain a b c where "oh_missing h = Some a" "oh_null h = Some b" "oh_error h = Some c"
    using assms(2) by (auto simp: verbose_def)
  with assms show ?thesis
    by (auto simp: attachOptional_def Let_def reported_def hookTexts_iff split: if_splits intro: exI [of _ "[]"])
qed

lemma attachAll_reports:
  assumes "attachAll lp hs l = (l', t)" "distinct (map oh_slot hs)" "\<forall>h\<in>set hs. el_link l (oh_slot h) = Null"
    and "h \<in> set hs" "verbose h" "el_link l' (oh_slot h) = Null"
  shows "reported h t"
  using assms
proof (induction hs arbitrary: l t)
  case (Cons h' hs)
  obtain l1 t1 where one: "attachOptional lp h' l = (l1, t1)" by force
  obtain t2 where two: "attachAll lp hs l1 = (l', t2)" and t: "t = t1 @ t2"
    using Cons.prems(1) one by (auto split: prod.splits)
  note acc = attachOptional_account [OF _ one]
  have rest: "\<forall>g\<in>set hs. el_link l1 (oh_slot g) = Null"
    using Cons.prems(2,3) acc(4) by (metis image_eqI list.set_intros distinct.simps(2) list.simps(9) image_set)
  have "oh_slot h' \<notin> oh_slot ` set hs" "distinct (map oh_slot hs)" using Cons.prems(2) by auto
  then have keep: "el_link l' (oh_slot h') = el_link l1 (oh_slot h')"
    using attachAll_account [OF _ rest two, of "{#}"] by auto
  show ?case
  proof (cases "h = h'")
    case True
    then show ?thesis
      using attachOptional_reports [OF one] keep Cons.prems by (auto simp: t reported_def)
  next
    case False
    then show ?thesis
      using Cons.IH [OF two _ rest] Cons.prems by (auto simp: t reported_def)
  qed
qed simp

lemma openRing_links: "openRing lp l t = (rc, Some l', t') \<Longrightarrow> el_link l' = el_link l \<and> set t \<subseteq> set t'"
  by (auto simp: openRing_def Let_def split: if_splits)

lemma selfprotect_verbose: "h \<in> set (selfprotectHooks @ lsmHooks) \<Longrightarrow> h \<in> set optionalHooks \<and> verbose h"
  by (auto simp: optionalHooks_def selfprotectHooks_def lsmHooks_def verbose_def)

text \<open>
  An open that succeeds either has a self-protection hook (the three kprobes and the two LSM
  hooks) or has printed on the standard error which one is missing and why.
\<close>

theorem missing_selfprotection_reported:
  assumes "edr_open lp out obj_path = (0, Some l, t)" "h \<in> set (selfprotectHooks @ lsmHooks)"
    and "el_link l (oh_slot h) = Null"
  shows "reported h t"
proof -
  from assms(1) obtain l0 t0 where opt: "openOptional lp l0 t0 = (0, Some l, t)"
    and null: "\<forall>s\<in>set optionalSlots. el_link l0 s = Null"
    by (auto simp: edr_open_def openExec_def openConnect_def Let_def optionalSlots_def zeroLoader_def setLink_def
        split: option.splits if_splits)
  obtain l1 t1 where all: "attachAll lp optionalHooks l0 = (l1, t1)" by force
  from opt all have "el_link l = el_link l1" "set t1 \<subseteq> set t"
    using openRing_links [of lp l1 "t0 @ t1" 0 l t] by (auto simp: openOptional_def)
  then show ?thesis
    using attachAll_reports [OF all optionalHooks_ready [OF null], of h] selfprotect_verbose [OF assms(2)] assms(3)
    unfolding reported_def by (metis subsetD)
qed

section \<open>The life of a loader\<close>

text \<open>
  The Go loader with the handle it got from \<open>edr_open\<close>.  \<open>br_polling\<close> says that the pump is inside
  \<open>edr_poll\<close>, \<open>br_calls\<close> counts the map operations that have passed their check and not yet called C,
  \<open>br_freed\<close> says that \<open>edr_close\<close> has run, \<open>br_fault\<close> that a C function was given the freed handle.
\<close>

record bridge =
  br_lib :: libbpfLoader
  br_handle :: "edr_loader option"
  br_id :: nat
  br_trace :: "libcall list"
  br_polling :: bool
  br_calls :: nat
  br_freed :: bool
  br_fault :: bool

text \<open>\<open>NewLibBPFLoader\<close> over \<open>edr_open\<close>; \<open>ctx\<close> is the value of \<open>goCtxNext\<close> after its increment.\<close>

definition openBridge :: "libbpf \<Rightarrow> (string \<Rightarrow> bool) \<Rightarrow> nat \<Rightarrow> string \<Rightarrow> (open_error + bridge) \<times> libcall list" where
  "openBridge lp present ctx objDir =
     (case NewLibBPFLoader present (\<lambda>path. fst (edr_open lp True (Some path))) objDir of
        Inl err \<Rightarrow>
          (Inl err, case err of OpenFailed _ \<Rightarrow> snd (snd (edr_open lp True (findProbesObject present objDir))) | _ \<Rightarrow> [])
      | Inr lib \<Rightarrow>
          (case edr_open lp True (findProbesObject present objDir) of
             (rc, h, t) \<Rightarrow>
               (Inr \<lparr>br_lib = lib, br_handle = edr_set_go_ctx h ctx, br_id = ctx, br_trace = t, br_polling = False,
                     br_calls = 0, br_freed = False, br_fault = False\<rparr>, t)))"

text \<open>
  The atomic actions of the goroutines that share a loader: \<open>Load\<close> and \<open>Close\<close>, the pump and the
  callbacks of a poll, the end of \<open>Close\<close> after the wait for \<open>done\<close>, and the map operations, whose
  check of \<open>closed\<close> and whose call of C are two actions (the lock they share is not taken by \<open>Close\<close>).
\<close>

inductive bridgeStep :: "bridge \<Rightarrow> bridge \<Rightarrow> bool" where
  Load: "bridgeStep b (b\<lparr>br_lib := snd (libLoad (br_lib b))\<rparr>)"
| Close: "bridgeStep b (b\<lparr>br_lib := snd (libClose (br_lib b))\<rparr>)"
| PollStart: "lb_loaded (br_lib b) \<Longrightarrow> \<not> lb_closed (br_lib b) \<Longrightarrow> \<not> lb_done (br_lib b) \<Longrightarrow> \<not> br_polling b
    \<Longrightarrow> bridgeStep b (b\<lparr>br_polling := True, br_fault := br_fault b \<or> (br_freed b \<and> br_handle b \<noteq> None)\<rparr>)"
| Record: "br_polling b \<Longrightarrow> bridgeStep b (b\<lparr>br_lib := snd (edr_deliver_event stopped pickStop raw (br_lib b))\<rparr>)"
| PollEnd: "br_polling b \<Longrightarrow> bridgeStep b (b\<lparr>br_polling := False\<rparr>)"
| PollError: "br_polling b \<Longrightarrow> \<not> lb_closed (br_lib b) \<Longrightarrow> rc < 0
    \<Longrightarrow> bridgeStep b (b\<lparr>br_polling := False,
          br_lib := (br_lib b)\<lparr>lb_errs := offer 16 (lb_errs (br_lib b)) (''bpf: edr_poll rc='' @ itoa rc)\<rparr>\<rparr>)"
| PumpExit: "lb_loaded (br_lib b) \<Longrightarrow> lb_closed (br_lib b) \<Longrightarrow> \<not> br_polling b
    \<Longrightarrow> bridgeStep b (b\<lparr>br_lib := (br_lib b)\<lparr>lb_done := True\<rparr>\<rparr>)"
| CloseHandle: "lb_closed (br_lib b) \<Longrightarrow> lb_done (br_lib b) \<Longrightarrow> \<not> br_freed b
    \<Longrightarrow> bridgeStep b (b\<lparr>br_trace := br_trace b @ edr_close (br_handle b), br_freed := True\<rparr>)"
| Unregister: "br_freed b \<Longrightarrow> bridgeStep b (b\<lparr>br_handle := None, br_lib := libRelease (br_lib b)\<rparr>)"
| MapCheck: "\<not> lb_closed (br_lib b) \<Longrightarrow> bridgeStep b (b\<lparr>br_calls := br_calls b + 1\<rparr>)"
| MapCall: "0 < br_calls b
    \<Longrightarrow> bridgeStep b (b\<lparr>br_calls := br_calls b - 1, br_fault := br_fault b \<or> (br_freed b \<and> br_handle b \<noteq> None)\<rparr>)"

inductive bridgeReach :: "libbpf \<Rightarrow> (string \<Rightarrow> bool) \<Rightarrow> bridge \<Rightarrow> bool" for lp present where
  opened: "openBridge lp present ctx objDir = (Inr b, t) \<Longrightarrow> bridgeReach lp present b"
| step: "bridgeReach lp present b \<Longrightarrow> bridgeStep b b' \<Longrightarrow> bridgeReach lp present b'"

definition bridgeInv :: "libbpf \<Rightarrow> bridge \<Rightarrow> bool" where
  "bridgeInv lp b \<longleftrightarrow>
     (br_freed b \<longrightarrow> lb_done (br_lib b)) \<and> (lb_done (br_lib b) \<longrightarrow> lb_closed (br_lib b) \<and> \<not> br_polling b)
     \<and> (lb_closed (br_lib b) \<longrightarrow> lb_loaded (br_lib b)) \<and> (br_polling b \<longrightarrow> lb_loaded (br_lib b))
     \<and> (\<not> br_freed b \<longrightarrow> br_handle b \<noteq> None)
     \<and> holds lp (br_trace b) {#} = Some (if br_freed b then {#} else resourcesOf lp (the (br_handle b)))"

lemma resourcesOf_ctx [simp]: "resourcesOf lp (l\<lparr>el_go_ctx := c\<rparr>) = resourcesOf lp l"
  by (simp add: resourcesOf_def)

lemma edr_open_cases:
  assumes "edr_open lp out obj_path = (rc, lo, t)"
  shows "(rc = 0 \<longleftrightarrow> lo \<noteq> None)" "holds lp t {#} = Some (case lo of None \<Rightarrow> {#} | Some l \<Rightarrow> resourcesOf lp l)"
  using edr_open_sound [of lp out obj_path] by (auto simp: assms allOrNothing_def)

lemma openBridge_inv:
  assumes "openBridge lp present ctx objDir = (Inr b, t)"
  shows "bridgeInv lp b"
proof -
  obtain path where path: "findProbesObject present objDir = Some path" "fst (edr_open lp True (Some path)) = 0"
    and lib: "NewLibBPFLoader present (\<lambda>path. fst (edr_open lp True (Some path))) objDir = Inr newLibbpf"
    using assms by (auto simp: openBridge_def NewLibBPFLoader_def split: if_splits option.splits prod.splits sum.splits)
  then obtain lo u where op: "edr_open lp True (Some path) = (0, lo, u)" by (cases "edr_open lp True (Some path)") auto
  with edr_open_cases [OF op] obtain l where "lo = Some l" "holds lp u {#} = Some (resourcesOf lp l)" by auto
  with assms op lib path show ?thesis
    by (auto simp: openBridge_def bridgeInv_def newLibbpf_def edr_set_go_ctx_def)
qed

lemma deliver_frame:
  "lb_loaded (snd (edr_deliver_event s p raw l)) = lb_loaded l" "lb_closed (snd (edr_deliver_event s p raw l)) = lb_closed l"
  "lb_done (snd (edr_deliver_event s p raw l)) = lb_done l"
  by (auto simp: edr_deliver_event_def Let_def split: sum.splits)

lemma bridgeInv_step: "bridgeStep b b' \<Longrightarrow> bridgeInv lp b \<Longrightarrow> bridgeInv lp b'"
proof (induction rule: bridgeStep.induct)
  case (CloseHandle b)
  then obtain l where "br_handle b = Some l" "holds lp (br_trace b) {#} = Some (resourcesOf lp l)"
    by (auto simp: bridgeInv_def)
  with CloseHandle show ?case by (auto simp: bridgeInv_def holds_append_Some holds_edr_close)
qed (auto simp: bridgeInv_def libLoad_def libClose_def libRelease_def deliver_frame)

lemma bridgeReach_inv: "bridgeReach lp present b \<Longrightarrow> bridgeInv lp b"
  by (induction rule: bridgeReach.induct) (use openBridge_inv bridgeInv_step in blast)+

lemma failed_open_holds_nothing:
  assumes "openBridge lp present ctx objDir = (Inl err, t)"
  shows "holds lp t {#} = Some {#}"
proof (cases "\<exists>rc. err = OpenFailed rc")
  case True
  with assms obtain path where path: "findProbesObject present objDir = Some path"
      "fst (edr_open lp True (Some path)) \<noteq> 0" "t = snd (snd (edr_open lp True (Some path)))"
    by (auto simp: openBridge_def NewLibBPFLoader_def split: if_splits option.splits prod.splits)
  then show ?thesis using edr_open_cases [of lp True "Some path"]
    by (cases "edr_open lp True (Some path)") auto
next
  case False
  with assms show ?thesis
    by (auto simp: openBridge_def split: sum.splits prod.splits open_error.splits)
qed

text \<open>
  Claim C26.  The probes of the kernel loader are released exactly once.  An open that fails,
  wherever it does, has given back the object, every link it attached and its memory.  In every
  interleaving of \<open>Load\<close>, \<open>Close\<close>, the pump and the map operations, the links, the ring buffer and the
  object of the loader are all held until \<open>edr_close\<close> runs and none is held afterwards, nothing is
  released twice, and the pump is not polling a ring buffer that has been freed.  Without a
  \<open>Load\<close> the probes stay attached, whatever \<open>Close\<close> is called.
\<close>

theorem probes_released_once:
  "(\<forall>err t. openBridge lp present ctx objDir = (Inl err, t) \<longrightarrow> holds lp t {#} = Some {#})
   \<and> (bridgeReach lp present b \<longrightarrow>
        holds lp (br_trace b) {#} = Some (if br_freed b then {#} else resourcesOf lp (the (br_handle b)))
        \<and> (br_polling b \<longrightarrow> \<not> br_freed b) \<and> (\<not> lb_loaded (br_lib b) \<longrightarrow> \<not> br_freed b))"
  using failed_open_holds_nothing bridgeReach_inv [of lp present b] by (auto simp: bridgeInv_def)

text \<open>A kernel without LSM hooks; one whose object lacks the event map.\<close>

definition demoLibbpf :: libbpf where
  "demoLibbpf = \<lparr>lp_calloc = True, lp_get_error = (\<lambda>p. if p = Ptr 99 then -95 else 0), lp_open_file = (\<lambda>_. Ptr 1),
     lp_load = (\<lambda>_. 0), lp_load_errno = 0, lp_find_program = (\<lambda>_ n. Ptr (length n)),
     lp_attach = (\<lambda>_ k. case k of Lsm \<Rightarrow> Ptr 99 | Tracepoint _ n \<Rightarrow> Ptr (100 + length n) | Kprobe _ n \<Rightarrow> Ptr (200 + length n)),
     lp_find_map = (\<lambda>_ n. if n = ''agent_pid'' then Null else Ptr 3), lp_map_fd = (\<lambda>_. 7), lp_ring_new = (\<lambda>_. Ptr 5)\<rparr>"

definition demoNoMap :: libbpf where
  "demoNoMap = demoLibbpf\<lparr>lp_find_map := (\<lambda>_ _. Null)\<rparr>"

definition demoObjects :: "string \<Rightarrow> bool" where
  "demoObjects p \<longleftrightarrow> p = ''/b/all.bpf.o''"

definition demoBridge :: bridge where
  "demoBridge = projr (fst (openBridge demoLibbpf demoObjects 1 ''/b''))"

lemma demo_opens: "fst (openBridge demoLibbpf demoObjects 1 ''/b'') = Inr demoBridge"
  "br_lib demoBridge = newLibbpf" "br_handle demoBridge \<noteq> None" "br_calls demoBridge = 0" "\<not> br_freed demoBridge"
  "\<not> br_polling demoBridge"
  by code_simp+

lemma demo_fails: "fst (openBridge demoNoMap demoObjects 1 ''/b'') = Inl (OpenFailed (- 2))"
  by code_simp

lemma demo_reach_open: "bridgeReach demoLibbpf demoObjects demoBridge"
  using demo_opens(1) by (intro bridgeReach.opened [of _ _ 1 "''/b''" _ "snd (openBridge demoLibbpf demoObjects 1 ''/b'')"])
    (metis prod.collapse)

text \<open>From any reachable loader that is not loaded yet, a load and a close lead to a freed handle.\<close>

definition unloaded :: "bridge \<Rightarrow> bool" where
  "unloaded b \<longleftrightarrow> \<not> lb_loaded (br_lib b) \<and> \<not> lb_closed (br_lib b) \<and> \<not> br_polling b \<and> \<not> br_freed b"

definition afterClose :: "bridge \<Rightarrow> bridge" where
  "afterClose b = b\<lparr>br_lib := (br_lib b)\<lparr>lb_loaded := True, lb_closed := True, lb_stop := True, lb_done := True\<rparr>,
     br_trace := br_trace b @ edr_close (br_handle b), br_freed := True\<rparr>"

lemma reach_afterClose:
  assumes "bridgeReach lp present b" "unloaded b"
  shows "bridgeReach lp present (afterClose b)"
proof -
  let ?l = "b\<lparr>br_lib := snd (libLoad (br_lib b))\<rparr>"
  let ?c = "?l\<lparr>br_lib := snd (libClose (br_lib ?l))\<rparr>"
  let ?d = "?c\<lparr>br_lib := (br_lib ?c)\<lparr>lb_done := True\<rparr>\<rparr>"
  have "bridgeReach lp present ?l" by (rule bridgeReach.step [OF assms(1) bridgeStep.Load])
  then have "bridgeReach lp present ?c" by (rule bridgeReach.step [OF _ bridgeStep.Close])
  then have "bridgeReach lp present ?d"
    by (rule bridgeReach.step [OF _ bridgeStep.PumpExit]) (use assms(2) in \<open>simp_all add: libLoad_def libClose_def unloaded_def\<close>)
  then have "bridgeReach lp present (?d\<lparr>br_trace := br_trace ?d @ edr_close (br_handle ?d), br_freed := True\<rparr>)"
    by (rule bridgeReach.step [OF _ bridgeStep.CloseHandle]) (use assms(2) in \<open>simp_all add: libLoad_def libClose_def unloaded_def\<close>)
  moreover have "?d\<lparr>br_trace := br_trace ?d @ edr_close (br_handle ?d), br_freed := True\<rparr> = afterClose b"
    using assms(2) by (simp add: afterClose_def libLoad_def libClose_def unloaded_def)
  ultimately show ?thesis by simp
qed

theorem probes_released_once_witness:
  "holds demoLibbpf (br_trace (afterClose demoBridge)) {#} = Some {#}
   \<and> holds demoNoMap (snd (openBridge demoNoMap demoObjects 1 ''/b'')) {#} = Some {#}"
proof -
  have "unloaded demoBridge" by (simp add: unloaded_def demo_opens newLibbpf_def)
  from reach_afterClose [OF demo_reach_open this]
  have "holds demoLibbpf (br_trace (afterClose demoBridge)) {#} = Some {#}"
    using probes_released_once [of demoLibbpf demoObjects 1 "''/b''" "afterClose demoBridge"] by (simp add: afterClose_def)
  moreover have "holds demoNoMap (snd (openBridge demoNoMap demoObjects 1 ''/b'')) {#} = Some {#}"
    using probes_released_once [of demoNoMap demoObjects 1 "''/b''"] demo_fails by (metis prod.collapse)
  ultimately show ?thesis ..
qed

text \<open>
  A map operation can be given the freed handle: it checks \<open>closed\<close> under a lock that \<open>Close\<close> does not
  take, so that \<open>edr_close\<close> may run between the check and the call, before the handle is set to nil.
\<close>

theorem map_call_after_free: "\<exists>b. bridgeReach demoLibbpf demoObjects b \<and> br_fault b"
proof -
  let ?a = "demoBridge\<lparr>br_calls := br_calls demoBridge + 1\<rparr>"
  let ?b = "afterClose ?a"
  have "bridgeReach demoLibbpf demoObjects ?a"
    by (rule bridgeReach.step [OF demo_reach_open bridgeStep.MapCheck]) (simp add: demo_opens newLibbpf_def)
  then have "bridgeReach demoLibbpf demoObjects ?b"
    by (rule reach_afterClose) (simp add: unloaded_def demo_opens newLibbpf_def)
  then have "bridgeReach demoLibbpf demoObjects
      (?b\<lparr>br_calls := br_calls ?b - 1, br_fault := br_fault ?b \<or> (br_freed ?b \<and> br_handle ?b \<noteq> None)\<rparr>)"
    by (rule bridgeReach.step [OF _ bridgeStep.MapCall]) (simp add: afterClose_def)
  moreover have "br_freed ?b \<and> br_handle ?b \<noteq> None" using demo_opens(3) by (simp add: afterClose_def)
  ultimately show ?thesis by force
qed

section \<open>The maps behind the Go operations\<close>

text \<open>
  The key lists of the Go model are the keys of the kernel's maps without their padding.
  \<open>cString\<close> is what C sees of a Go string after \<open>C.CString\<close>.
\<close>

definition cString :: "string \<Rightarrow> string" where
  "cString s = takeWhile (\<lambda>c. c \<noteq> nul) s"

definition padded :: "nat \<Rightarrow> string \<Rightarrow> string" where
  "padded width k = k @ replicate (width - length k) nul"

definition plainKey :: "nat \<Rightarrow> string \<Rightarrow> bool" where
  "plainKey width k \<longleftrightarrow> nul \<notin> set k \<and> length k < width"

definition simMap :: "nat \<Rightarrow> string list \<Rightarrow> kmap \<Rightarrow> bool" where
  "simMap width ks m \<longleftrightarrow> list_all (plainKey width) ks \<and> map fst m = map (padded width) ks"

definition simMaps :: "libbpfLoader \<Rightarrow> kernel_maps \<Rightarrow> bool" where
  "simMaps l m \<longleftrightarrow> lb_agentPID l = km_agent_pid m \<and> simMap 16 (lb_comms l) (km_comm m)
     \<and> simMap 256 (lb_filenames l) (km_filename m)"

lemma cString_padded: "plainKey width k \<Longrightarrow> cString (padded width k) = k"
  unfolding cString_def padded_def plainKey_def
  by (subst takeWhile_append2) (auto simp: takeWhile_replicate)

lemma padded_inj: "plainKey width k \<Longrightarrow> plainKey width k' \<Longrightarrow> padded width k = padded width k' \<longleftrightarrow> k = k'"
  by (metis cString_padded)

lemma mapKey_plainKey: "0 < width \<Longrightarrow> plainKey width (mapKey width s)"
  by (auto simp: plainKey_def mapKey_def nul_def dest!: in_set_takeD set_takeWhileD)

lemma keyBuffer_mapKey: "0 < width \<Longrightarrow> keyBuffer width (cString s) = padded width (mapKey width s)"
  by (simp add: keyBuffer_def cString_def mapKey_def padded_def nul_def Let_def min.commute) (simp add: min_def)

lemma kmapPut_sim:
  assumes "simMap width ks m" "plainKey width k"
  shows "simMap width (mapPut k ks) (kmapPut (padded width k) v m)"
  using assms
proof (induction m arbitrary: ks)
  case (Cons e m)
  obtain k' v' where e: "e = (k', v')" by force
  with Cons.prems(1) obtain k0 ks0 where ks: "ks = k0 # ks0" "plainKey width k0" "k' = padded width k0" "simMap width ks0 m"
    by (cases ks) (auto simp: simMap_def)
  show ?case
  proof (cases "k0 = k")
    case True
    with ks e show ?thesis by (auto simp: simMap_def mapPut_def)
  next
    case False
    then have "k' \<noteq> padded width k" using ks padded_inj Cons.prems(2) by blast
    with False Cons.IH [OF ks(4) Cons.prems(2)] ks e show ?thesis by (auto simp: simMap_def mapPut_def)
  qed
qed (simp add: simMap_def mapPut_def)

lemma kmapClear_sim:
  assumes "simMap width ks m" "kmapClear (\<lambda>_. 0) (\<lambda>k. del (cString k)) m = (rc, m')"
  shows "fst (clearKeys (\<lambda>k. - del k) ks) = rc \<and> simMap width (snd (clearKeys (\<lambda>k. - del k) ks)) m'"
  using assms
proof (induction m arbitrary: ks)
  case (Cons e m)
  then obtain k0 ks0 where "ks = k0 # ks0" "plainKey width k0" "fst e = padded width k0" "simMap width ks0 m"
    by (cases ks) (auto simp: simMap_def)
  with Cons show ?case by (cases e) (auto simp: simMap_def cString_padded split: if_splits)
qed (auto simp: simMap_def)

text \<open>The C call behind each map operation of the Go loader, on a map that the object has.\<close>

datatype map_op =
    SetAgentPID "32 word"
  | BlacklistAdd string
  | BlacklistClear
  | BlacklistFilenameAdd string
  | BlacklistFilenameClear

definition hasMaps :: "edr_loader \<Rightarrow> bool" where
  "hasMaps h \<longleftrightarrow> 0 \<le> el_agent_pid_fd h \<and> 0 \<le> el_blacklist_fd h \<and> 0 \<le> el_blacklist_filename_fd h"

fun cCall :: "int \<Rightarrow> (string \<Rightarrow> int) \<Rightarrow> edr_loader option \<Rightarrow> map_op \<Rightarrow> kernel_maps \<Rightarrow> int \<times> kernel_maps" where
  "cCall upd del h (SetAgentPID pid) m = edr_set_agent_pid upd h pid m"
| "cCall upd del h (BlacklistAdd comm) m = edr_blacklist_add upd h (Some (cString comm)) 1 m"
| "cCall upd del h BlacklistClear m = edr_blacklist_clear (\<lambda>_. 0) (\<lambda>k. del (cString k)) h m"
| "cCall upd del h (BlacklistFilenameAdd path) m = edr_blacklist_filename_add upd h (Some (cString path)) 1 m"
| "cCall upd del h BlacklistFilenameClear m = edr_blacklist_filename_clear (\<lambda>_. 0) (\<lambda>k. del (cString k)) h m"

fun goCall :: "int \<Rightarrow> (string \<Rightarrow> int) \<Rightarrow> map_op \<Rightarrow> libbpfLoader \<Rightarrow> map_error option \<times> libbpfLoader" where
  "goCall upd del (SetAgentPID pid) l = libSetAgentPID (- upd) pid l"
| "goCall upd del (BlacklistAdd comm) l = libBlacklistAdd (- upd) comm l"
| "goCall upd del BlacklistClear l = libBlacklistClear (\<lambda>k. - del k) l"
| "goCall upd del (BlacklistFilenameAdd path) l = libBlacklistFilenameAdd (- upd) path l"
| "goCall upd del BlacklistFilenameClear l = libBlacklistFilenameClear (\<lambda>k. - del k) l"

lemma goCall_simulated:
  assumes "simMaps l m" "\<not> lb_closed l" "hasMaps h" "cCall upd del (Some h) p m = (rc, m')"
  shows "simMaps (snd (goCall upd del p l)) m' \<and> fst (goCall upd del p l) = (if rc = 0 then None else Some (MapFailed rc))
    \<and> lb_closed (snd (goCall upd del p l)) = lb_closed l"
proof (cases p)
  case BlacklistClear
  then obtain ks where "kmapClear (\<lambda>_. 0) (\<lambda>k. del (cString k)) (km_comm m) = (rc, ks)" "m' = m\<lparr>km_comm := ks\<rparr>"
    using assms by (auto simp: edr_blacklist_clear_def hasMaps_def split: prod.splits)
  with BlacklistClear kmapClear_sim [of 16 "lb_comms l" "km_comm m" del rc ks] assms show ?thesis
    by (auto simp: libBlacklistClear_def simMaps_def split: prod.splits)
next
  case BlacklistFilenameClear
  then obtain ks where "kmapClear (\<lambda>_. 0) (\<lambda>k. del (cString k)) (km_filename m) = (rc, ks)" "m' = m\<lparr>km_filename := ks\<rparr>"
    using assms by (auto simp: edr_blacklist_filename_clear_def hasMaps_def split: prod.splits)
  with BlacklistFilenameClear kmapClear_sim [of 256 "lb_filenames l" "km_filename m" del rc ks] assms show ?thesis
    by (auto simp: libBlacklistFilenameClear_def simMaps_def split: prod.splits)
qed (use assms in \<open>auto simp: libSetAgentPID_def libBlacklistAdd_def libBlacklistFilenameAdd_def edr_set_agent_pid_def
      edr_blacklist_add_def edr_blacklist_filename_add_def hasMaps_def simMaps_def keyBuffer_mapKey kmapPut_sim
      mapKey_plainKey split: if_splits\<close>)

fun cCalls :: "edr_loader \<Rightarrow> (int \<times> (string \<Rightarrow> int) \<times> map_op) list \<Rightarrow> kernel_maps \<Rightarrow> kernel_maps" where
  "cCalls h [] m = m"
| "cCalls h ((upd, del, p) # ps) m = cCalls h ps (snd (cCall upd del (Some h) p m))"

fun goCalls :: "(int \<times> (string \<Rightarrow> int) \<times> map_op) list \<Rightarrow> libbpfLoader \<Rightarrow> libbpfLoader" where
  "goCalls [] l = l"
| "goCalls ((upd, del, p) # ps) l = goCalls ps (snd (goCall upd del p l))"


definition demoHandle :: edr_loader where
  "demoHandle = zeroLoader\<lparr>el_agent_pid_fd := 4, el_blacklist_fd := 5, el_blacklist_filename_fd := 6\<rparr>"

definition emptyMaps :: kernel_maps where
  "emptyMaps = \<lparr>km_agent_pid = 0, km_comm = [], km_filename = []\<rparr>"


text \<open>
  Clearing reports success on a map that is not empty when the kernel's enumeration fails: the
  loop takes every failure of \<open>bpf_map_get_next_key\<close> for the end of the map.
\<close>

theorem clear_ignores_enumeration_error:
  "e \<noteq> 0 \<Longrightarrow> km_comm m \<noteq> [] \<Longrightarrow> hasMaps h \<Longrightarrow> edr_blacklist_clear (\<lambda>_. e) del (Some h) m = (0, m)"
  by (cases "km_comm m") (auto simp: edr_blacklist_clear_def hasMaps_def)

end
