(* ===== verification/Spec2Isabelle.thy ===== *)
theory Spec2Isabelle
  imports System AgentMain Edrctl Notify Dashboard LibbpfBridge
begin

text \<open>
  A verification library for the EDR agent: a Go program (\<open>src/cmd/edr-agent\<close>,
  \<open>src/internal\<close>) that watches processes, files and connections of a Linux host, evaluates a
  policy on what it sees, responds, and keeps a tamper-evident log; with its command line tool
  \<open>src/cmd/edrctl\<close>.

  \<^bold>\<open>The parts and how they meet.\<close>  \<open>cmd/edr-agent/main.go\<close> loads the configuration, the policy and
  the key of the log, opens the logger, starts the kernel probes through a loader, builds the
  agent and the control server and then waits for signals, ticks and the request to stop.  On a
  tick the agent takes a snapshot from the merged collector (\<open>/proc\<close> overlaid with the events of
  the probes), evaluates the policy, writes audit events and sends requests to the responder;
  events of the probes that cannot wait take the fast path, others are deferred.  The
  interposition on file access asks the policy before the kernel lets a process open a file.  The
  control server, asked over a socket by \<open>edrctl\<close>, reads the log, installs signed policies and
  stops the agent.

  \<^bold>\<open>Theories.\<close>
  \<^item> \<open>Prelude\<close>, \<open>Filesys\<close>, \<open>Channel\<close>: the standard library the sources use (strings, numbers,
    files, lines), the collections \<open>gostr\<close> and \<open>frame\<close> of simplification facts, the contract
    of a channel that drops when it is full.
  \<^item> \<open>Policy\<close> (\<open>policy/policy.go\<close>): the rule language, validation, evaluation, aggregation.  The hits
    are complete and in order of priority; validation decides a declarative well-formedness; time
    windows mean cyclic intervals.
  \<^item> \<open>Suppress\<close> (\<open>control/suppress.go\<close>): cooldown and rate limit; two emissions of a key are a
    cooldown apart, a rule's grants are bounded, a saved state answers like the old one.
  \<^item> \<open>EventChain\<close>, \<open>EventLog\<close> (\<open>eventlog/integrity.go\<close>, \<open>event.go\<close>): sealing, verification,
    recovery, rotation.  Verification decides that the events form one chain; what the logger
    writes verifies until a backup is dropped; equal heads mean equal logs or a collision.
  \<^item> \<open>Anchor\<close>, \<open>EventQuery\<close>, \<open>Prometheus\<close>, \<open>Baseline\<close>, \<open>Keys\<close>, \<open>Security\<close>: the anchor of the chain,
    the queries over the log, the metrics page, the baseline check, the keys and signatures, the
    authorization of peers and the containment of paths.
  \<^item> \<open>Procutil\<close>, \<open>Response\<close> (\<open>response/*.go\<close>): kills with identity checks, kill trees, suspension, nft
    commands, quarantine, as transformations of a host under the answers of a kernel.
  \<^item> \<open>BpfEvent\<close>, \<open>BpfLoader\<close> (\<open>bpf/*.go\<close>): the decoder of a kernel record against two layouts, the
    two loaders; their goroutines are step relations over all interleavings.
  \<^item> \<open>LibbpfBridge\<close> (the C preamble of \<open>bpf/loader_libbpf.go\<close>): opening and closing the probes over
    the answers of libbpf.  What is acquired is released exactly once, on every error path and in
    every interleaving; the Go operations on the BPF maps are refined by the C ones.
  \<^item> \<open>Collector\<close>, \<open>Merge\<close> (\<open>collector/*.go\<close>): the scan of \<open>/proc\<close>, polling and inotify, the merge
    of kernel events, which refines an update by process id, the connection tracker.
  \<^item> \<open>Agent\<close> (\<open>control/agent.go\<close>): one definition per method, over an environment of services; what
    a Go channel holds is a list, a send on a closed channel a panic.
  \<^item> \<open>System\<close>: the agent with its logger and its responder.  A step relation runs the cycles, the
    fast path and the deferred evaluations in any order; over all runs protected processes are
    spared, the log is one the logger could have written, and a dry run touches nothing.
  \<^item> \<open>Server\<close> (\<open>control/server.go\<close>, \<open>forensics.go\<close>): every handler with its checks.  Unauthorized
    requests change nothing, only signed and valid policies are installed.
  \<^item> \<open>Fanotify\<close> (\<open>fanotify/fanotify.go\<close>), \<open>Config\<close>, \<open>AgentMain\<close> (\<open>cmd/edr-agent\<close>): the interposition, the
    configuration, and the program itself: its start with every fatal error and its main loop.
    Only root stops it, its policy is always valid, file access follows the policy in force.
  \<^item> \<open>Edrctl\<close> (\<open>cmd/edrctl\<close>): the commands, and their composition with the server: an unprivileged
    user gains nothing, what the tool signs the agent accepts.
  \<^item> \<open>Notify\<close> (\<open>notify/*.go\<close>), \<open>Dashboard\<close> (\<open>web/handler.go\<close>): webhooks, mail and the live view; bounded
    queues emptied in order, a loop that ends after a stop, streams that lose only what they must.

  \<^bold>\<open>Interfaces.\<close>  Where a component relies on another the contract is a locale, interpreted on the
  model of the code: \<open>file_store\<close> (\<open>disk\<close>, the association list of files), \<open>bpf_loader\<close> (\<open>fake\<close> and
  \<open>lib\<close>, the two loaders), \<open>lossy_channel\<close> (\<open>chan\<close>, \<open>hooks\<close>, \<open>stream\<close>), \<open>emit_gate\<close>
  (\<open>suppressor_gate\<close>), \<open>responder\<close> (\<open>soft\<close>), \<open>audit_services\<close> and its extension \<open>agent_services\<close>, the
  services the agent calls with a relation they keep (\<open>sparing\<close>, \<open>logging\<close>, \<open>dry\<close>).

  \<^bold>\<open>State, errors, integers.\<close>  A struct is a record, a fallible function returns a sum or an
  option, a method that changes its receiver returns it.  Words keep their width where the code's
  arithmetic wraps or the bits matter (event records, masks, sequence numbers, durations);
  \<open>int\<close> is unbounded elsewhere.  \<open>float64\<close> in the suppressor is a rational number.

  \<^bold>\<open>Bounds and loops.\<close>  Every loop is a terminating function; no model has fuel except the
  resolution of symbolic links, which like \<open>filepath.EvalSymlinks\<close> gives up after 255 links.  The
  code's own bounds are kept: queues of 256 and 16 values, a history of 256 responses, lines of
  1 MiB, 4096 marks 16 levels deep, policies of the given size.  Loops that never end (the main
  loop, the goroutines) are step relations.

  \<^bold>\<open>Arguments of the model.\<close>  JSON, SHA-256, HMAC, Ed25519, the random generator, the clock, HTTP,
  SMTP and the template engine, the answers of the kernel and faults of the disk are parameters;
  what a property needs of them is a hypothesis of its statement, and its witness instantiates
  them with concrete functions.

  \<^bold>\<open>Not modelled.\<close>  The BPF programs in C (\<open>bpf/probes\<close>), of which only the record layout appears, and
  libbpf itself, whose answers are an argument of \<open>LibbpfBridge\<close>;
  \<open>net/http\<close> and the listener; the texts of usage messages, of the mail template and of the
  dashboard's page; the schedule of tickers; the memory model of Go below the atomicity of locks
  and channels: handlers of the server run one at a time.
\<close>

end
